(* ===== verification/Prelude.thy ===== *)
theory Prelude
  imports Main "HOL-Library.AList" "HOL-Library.Sublist" "HOL-Library.Word"
begin

text \<open>
  Shared vocabulary of the development: the collections of rewrite rules, finite maps as
  association lists (Go's \<open>map[string]T\<close>), ordered duplicate-free lists of keys, and a generic
  theory of state machines (a step relation with an invariant) that the circuit breaker and the
  lease manager both instantiate.
\<close>

named_theorems go_simps \<open>unfolding rules of the modelled standard-library functions\<close>
named_theorems section_defs \<open>definitions of the mutex-protected sections of a component\<close>

type_synonym byte = "8 word"

text \<open>
  An instant is the number of nanoseconds since the zero value of Go's \<open>time.Time\<close>, so
  \<open>IsZero\<close> is equality with 0, \<open>Before\<close> is \<open><\<close> and \<open>After\<close> is \<open>>\<close>. Durations are nanoseconds.
\<close>

type_synonym time = int
type_synonym duration = int

abbreviation Nanosecond :: duration where "Nanosecond \<equiv> 1"
abbreviation Millisecond :: duration where "Millisecond \<equiv> 1000000"
abbreviation Second :: duration where "Second \<equiv> 1000000000"
abbreviation Minute :: duration where "Minute \<equiv> 60000000000"
abbreviation Hour :: duration where "Hour \<equiv> 3600000000000"

text \<open>An early return of an error, as the branch of a check.\<close>

lemma case_error_None [simp]:
  "(case e of Some x \<Rightarrow> Some (f x) | None \<Rightarrow> k) = None \<longleftrightarrow> e = None \<and> k = None"
  by (simp split: option.split)

section \<open>Finite maps\<close>

type_synonym 'v table = "(string \<times> 'v) list"

abbreviation get :: "'v table \<Rightarrow> string \<Rightarrow> 'v option" where
  "get t k \<equiv> map_of t k"

abbreviation put :: "string \<Rightarrow> 'v \<Rightarrow> 'v table \<Rightarrow> 'v table" where
  "put k v t \<equiv> AList.update k v t"

abbreviation del :: "string \<Rightarrow> 'v table \<Rightarrow> 'v table" where
  "del k t \<equiv> AList.delete k t"

definition keys_ok :: "'v table \<Rightarrow> bool" where
  "keys_ok t \<longleftrightarrow> distinct (map fst t)"

lemma get_put [simp]: "get (put k v t) = (get t)(k \<mapsto> v)"
  by (rule AList.update_conv')

lemma get_del [simp]: "get (del k t) = (get t)(k := None)"
  by (rule AList.delete_conv')

lemma keys_ok_Nil [simp, intro]: "keys_ok []"
  by (simp add: keys_ok_def)

lemma keys_ok_put [simp, intro]: "keys_ok t \<Longrightarrow> keys_ok (put k v t)"
  by (simp add: keys_ok_def AList.distinct_update)

lemma keys_ok_del [simp, intro]: "keys_ok t \<Longrightarrow> keys_ok (del k t)"
  by (simp add: keys_ok_def AList.distinct_delete)

lemma set_get: "keys_ok t \<Longrightarrow> (k, v) \<in> set t \<longleftrightarrow> get t k = Some v"
  by (simp add: keys_ok_def)

lemma dom_get: "dom (get t) = fst ` set t"
  by (rule dom_map_of_conv_image_fst)

text \<open>Go's \<open>for _, v := range m\<close> used as a test: some entry satisfies the predicate.\<close>

definition any_entry :: "(string \<Rightarrow> 'v \<Rightarrow> bool) \<Rightarrow> 'v table \<Rightarrow> bool" where
  "any_entry P t \<longleftrightarrow> list_ex (\<lambda>(k, v). P k v) t"

lemma any_entry_iff: "keys_ok t \<Longrightarrow> any_entry P t \<longleftrightarrow> (\<exists>k v. get t k = Some v \<and> P k v)"
  unfolding any_entry_def list_ex_iff by (fastforce simp: set_get)

section \<open>The map contract\<close>

text \<open>
  What the components rely on when they use a map: a lookup after an insertion or a removal, and
  that both keep the representation's well-formedness. It is interpreted on the association lists
  that the model uses, so its consequences hold of every table below.
\<close>

locale go_map =
  fixes lookup :: "'m \<Rightarrow> string \<Rightarrow> 'v option"
    and insert_at :: "string \<Rightarrow> 'v \<Rightarrow> 'm \<Rightarrow> 'm"
    and remove :: "string \<Rightarrow> 'm \<Rightarrow> 'm"
    and wf :: "'m \<Rightarrow> bool"
  assumes lookup_insert: "lookup (insert_at k v m) = (lookup m)(k \<mapsto> v)"
    and lookup_remove: "lookup (remove k m) = (lookup m)(k := None)"
    and wf_insert: "wf m \<Longrightarrow> wf (insert_at k v m)"
    and wf_remove: "wf m \<Longrightarrow> wf (remove k m)"
begin

lemma lookup_insert_same: "lookup (insert_at k v m) k = Some v"
  by (simp add: lookup_insert)

lemma lookup_insert_other: "k' \<noteq> k \<Longrightarrow> lookup (insert_at k v m) k' = lookup m k'"
  by (simp add: lookup_insert)

lemma wf_fold_insert: "wf m \<Longrightarrow> wf (fold (\<lambda>(k, v). insert_at k v) kvs m)"
  by (induction kvs arbitrary: m) (auto simp: wf_insert)

lemma lookup_fold_remove:
  "lookup (fold remove ks m) k = (if k \<in> set ks then None else lookup m k)"
  by (induction ks arbitrary: m) (auto simp: lookup_remove)

end

interpretation tab: go_map map_of AList.update AList.delete keys_ok
  by unfold_locales auto

section \<open>State machines\<close>

text \<open>
  A component whose atomic sections may be interleaved arbitrarily is a step relation; \<open>inv\<close> is
  an invariant when the start states satisfy it and every step keeps it. The two consequences,
  over reachable states and over runs between two states, are proved once.
\<close>

locale step_system =
  fixes start :: "'s \<Rightarrow> bool"
    and step :: "'s \<Rightarrow> 's \<Rightarrow> bool"
    and inv :: "'s \<Rightarrow> bool"
  assumes inv_start: "start s \<Longrightarrow> inv s"
    and inv_step: "inv s \<Longrightarrow> step s t \<Longrightarrow> inv t"
begin

lemma inv_steps: "step\<^sup>*\<^sup>* s t \<Longrightarrow> inv s \<Longrightarrow> inv t"
  by (induction rule: rtranclp_induct) (auto intro: inv_step)

lemma inv_reachable: "start s \<Longrightarrow> step\<^sup>*\<^sup>* s t \<Longrightarrow> inv t"
  by (blast intro: inv_start inv_steps)

text \<open>A quantity that no step decreases from a state satisfying the invariant never decreases.\<close>

lemma monotone_steps:
  assumes "step\<^sup>*\<^sup>* s t" and "inv s"
    and "\<And>s t. inv s \<Longrightarrow> step s t \<Longrightarrow> f s \<le> (f t :: 'b :: order)"
  shows "f s \<le> f t"
  using assms(1,2)
proof (induction rule: rtranclp_induct)
  case base
  then show ?case by simp
next
  case (step u v)
  then have "inv u" by (blast intro: inv_steps)
  with step assms(3) show ?case by (blast intro: order_trans)
qed

end

text \<open>
  A machine whose steps all decrease a weight makes boundedly many of them, and one that can move
  until it is finished reaches its end.
\<close>

locale measured_system = step_system +
  fixes weight :: "'a \<Rightarrow> nat"
  assumes weight_step: "inv s \<Longrightarrow> step s t \<Longrightarrow> weight t < weight s"
begin

lemma weight_steps: "(step ^^ n) s t \<Longrightarrow> inv s \<Longrightarrow> n + weight t \<le> weight s"
proof (induction n arbitrary: t)
  case (Suc n)
  then obtain u where u: "(step ^^ n) s u" "step u t" by auto
  then have "inv u" using inv_steps [OF relpowp_imp_rtranclp] Suc.prems(2) by blast
  then show ?case using Suc.IH [OF u(1) Suc.prems(2)] weight_step [OF _ u(2)] by fastforce
qed simp

lemma reaches_end:
  assumes "inv s" and "\<And>u. inv u \<Longrightarrow> \<not> finished u \<Longrightarrow> \<exists>v. step u v"
  shows "\<exists>t. step\<^sup>*\<^sup>* s t \<and> finished t"
  using assms(1)
proof (induction "weight s" arbitrary: s rule: less_induct)
  case less
  show ?case
  proof (cases "finished s")
    case False
    then obtain v where v: "step s v" using assms(2) less.prems by blast
    then obtain t where "step\<^sup>*\<^sup>* v t" "finished t"
      using less.hyps [OF weight_step [OF less.prems v] inv_step [OF less.prems v]] by blast
    with v show ?thesis by (blast intro: converse_rtranclp_into_rtranclp)
  qed blast
qed

end

text \<open>A machine implements an abstract one when every step is a step of it in what \<open>abs\<close> shows of the states.\<close>

locale step_refinement = step_system +
  fixes abs_step :: "'b \<Rightarrow> 'b \<Rightarrow> bool"
    and abs :: "'a \<Rightarrow> 'b"
  assumes step_refines: "inv s \<Longrightarrow> step s t \<Longrightarrow> abs_step (abs s) (abs t)"
begin

lemma reachable_refines: "start s0 \<Longrightarrow> step\<^sup>*\<^sup>* s0 s \<Longrightarrow> step s t \<Longrightarrow> abs_step (abs s) (abs t)"
  by (blast intro: inv_reachable step_refines)

lemma run_refines: "step\<^sup>*\<^sup>* s t \<Longrightarrow> inv s \<Longrightarrow> abs_step\<^sup>*\<^sup>* (abs s) (abs t)"
proof (induction rule: rtranclp_induct)
  case (step u v)
  then have "abs_step (abs u) (abs v)" by (blast intro: inv_steps step_refines)
  with step show ?case by (simp add: rtranclp.rtrancl_into_rtrancl)
qed simp

end

section \<open>Lists used as ordered sets of keys\<close>

text \<open>\<open>removeIP\<close> filters a slice in place; every caller stores the result back.\<close>

definition removeIP :: "string list \<Rightarrow> string \<Rightarrow> string list" where
  "removeIP queue clientIP = filter (\<lambda>ip. ip \<noteq> clientIP) queue"

lemma set_removeIP [simp]: "set (removeIP q c) = set q - {c}"
  by (auto simp: removeIP_def)

lemma distinct_removeIP [simp, intro]: "distinct q \<Longrightarrow> distinct (removeIP q c)"
  by (simp add: removeIP_def)

lemma removeIP_notin [simp]: "c \<notin> set q \<Longrightarrow> removeIP q c = q"
  by (simp add: removeIP_def filter_id_conv) metis

lemma removeIP_Nil [simp]: "removeIP [] c = []"
  by (simp add: removeIP_def)

end
