(* ===== verification/GoStrings.thy ===== *)
theory GoStrings
  imports Prelude
begin

text \<open>
  The functions of Go's \<open>strings\<close> and \<open>strconv\<close> packages that the sources call. A Go string is its
  byte sequence, so it is an Isabelle \<open>string\<close>. Case mapping and white space are the ASCII part of
  the Go functions: the program applies them to host names, keywords, country codes and
  addresses.
\<close>

section \<open>Bytes\<close>

abbreviation code :: "char \<Rightarrow> nat" where
  "code c \<equiv> of_char c"

definition is_digit :: "char \<Rightarrow> bool" where
  "is_digit c \<longleftrightarrow> 48 \<le> code c \<and> code c \<le> 57"

definition digit_value :: "char \<Rightarrow> nat" where
  "digit_value c = code c - 48"

definition digit_char :: "nat \<Rightarrow> char" where
  "digit_char n = char_of (48 + n)"

definition is_space :: "char \<Rightarrow> bool" where
  "is_space c \<longleftrightarrow> code c \<in> {9, 10, 11, 12, 13, 32}"

definition lower_char :: "char \<Rightarrow> char" where
  "lower_char c = (if 65 \<le> code c \<and> code c \<le> 90 then char_of (code c + 32) else c)"

definition upper_char :: "char \<Rightarrow> char" where
  "upper_char c = (if 97 \<le> code c \<and> code c \<le> 122 then char_of (code c - 32) else c)"

lemma lower_char_idem [simp]: "lower_char (lower_char c) = lower_char c"
  by (auto simp: lower_char_def)

lemma lower_char_space [simp]: "is_space (lower_char c) \<longleftrightarrow> is_space c"
  by (auto simp: lower_char_def is_space_def)

lemma code_char_of: "n < 256 \<Longrightarrow> code (char_of n) = n"
  by simp

section \<open>Trimming, case, prefixes\<close>

definition ToLower :: "string \<Rightarrow> string" where
  "ToLower s = map lower_char s"

definition ToUpper :: "string \<Rightarrow> string" where
  "ToUpper s = map upper_char s"

definition TrimSpace :: "string \<Rightarrow> string" where
  "TrimSpace s = rev (dropWhile is_space (rev (dropWhile is_space s)))"

definition HasPrefix :: "string \<Rightarrow> string \<Rightarrow> bool" where
  "HasPrefix s p \<longleftrightarrow> take (length p) s = p"

definition HasSuffix :: "string \<Rightarrow> string \<Rightarrow> bool" where
  "HasSuffix s p \<longleftrightarrow> HasPrefix (rev s) (rev p)"

definition TrimPrefix :: "string \<Rightarrow> string \<Rightarrow> string" where
  "TrimPrefix s p = (if HasPrefix s p then drop (length p) s else s)"

definition TrimSuffix :: "string \<Rightarrow> string \<Rightarrow> string" where
  "TrimSuffix s p = (if HasSuffix s p then take (length s - length p) s else s)"

fun Contains :: "string \<Rightarrow> string \<Rightarrow> bool" where
  "Contains [] p = (p = [])"
| "Contains (c # s) p = (HasPrefix (c # s) p \<or> Contains s p)"

definition ContainsAny :: "string \<Rightarrow> string \<Rightarrow> bool" where
  "ContainsAny s chars \<longleftrightarrow> list_ex (\<lambda>c. c \<in> set chars) s"

definition EqualFold :: "string \<Rightarrow> string \<Rightarrow> bool" where
  "EqualFold s t \<longleftrightarrow> ToLower s = ToLower t"

text \<open>\<open>strings.Split\<close> and \<open>strings.Join\<close> with a one-byte separator.\<close>

fun Split :: "string \<Rightarrow> char \<Rightarrow> string list" where
  "Split [] sep = [[]]"
| "Split (c # s) sep =
     (if c = sep then [] # Split s sep
      else case Split s sep of [] \<Rightarrow> [[c]] | p # ps \<Rightarrow> (c # p) # ps)"

fun Join :: "string list \<Rightarrow> char \<Rightarrow> string" where
  "Join [] sep = []"
| "Join [p] sep = p"
| "Join (p # q # ps) sep = p @ sep # Join (q # ps) sep"

definition Count :: "string \<Rightarrow> char \<Rightarrow> nat" where
  "Count s c = length (filter (\<lambda>d. d = c) s)"

text \<open>
  \<open>bufio.Scanner\<close> over a text with the default split function: lines without their terminator. It
  stops at the first line that does not fit in a buffer of \<open>limit\<close> bytes; the flag tells whether it
  stopped there.
\<close>

definition dropCR :: "string \<Rightarrow> string" where
  "dropCR l = (if l \<noteq> [] \<and> last l = CHR 0x0D then butlast l else l)"

definition rawLines :: "string \<Rightarrow> string list" where
  "rawLines text = (let ls = Split text (CHR 0x0A) in if last ls = [] then butlast ls else ls)"

definition ScanLines :: "nat \<Rightarrow> string \<Rightarrow> string list \<times> bool" where
  "ScanLines limit text =
     (map dropCR (takeWhile (\<lambda>l. length l < limit) (rawLines text)),
      list_ex (\<lambda>l. limit \<le> length l) (rawLines text))"

text \<open>
  The verb \<open>%q\<close> of \<open>fmt\<close>, on text without invalid UTF-8: quotes, backslashes and control
  characters are escaped.
\<close>

definition quote_char :: "char \<Rightarrow> string" where
  "quote_char c =
     (let bs = CHR 0x5C; hex = \<lambda>n. char_of (if n < 10 then 48 + n else 87 + n :: nat) in
      if c = CHR 0x22 \<or> c = bs then [bs, c]
      else if c = CHR 0x07 then [bs, CHR ''a''] else if c = CHR 0x08 then [bs, CHR ''b'']
      else if c = CHR 0x0C then [bs, CHR ''f''] else if c = CHR 0x0A then [bs, CHR ''n'']
      else if c = CHR 0x0D then [bs, CHR ''r''] else if c = CHR 0x09 then [bs, CHR ''t'']
      else if c = CHR 0x0B then [bs, CHR ''v'']
      else if code c < 32 \<or> code c = 127 then [bs, CHR ''x'', hex (code c div 16), hex (code c mod 16)]
      else [c])"

definition Quote :: "string \<Rightarrow> string" where
  "Quote s = CHR 0x22 # concat (map quote_char s) @ [CHR 0x22]"

lemmas [go_simps] = ToLower_def TrimSpace_def HasPrefix_def HasSuffix_def TrimPrefix_def
  TrimSuffix_def ContainsAny_def EqualFold_def

subsection \<open>Their laws\<close>

text \<open>
  Normalising functions are applied again and again along a request's path (a configuration is
  trimmed by the handler, by the manager and by the client it builds), so what matters of them is
  idempotence.
\<close>

locale normaliser =
  fixes norm :: "'a \<Rightarrow> 'a"
  assumes norm_idem: "norm (norm x) = norm x"
begin

lemma norm_fixed: "norm x = y \<Longrightarrow> norm y = y"
  using norm_idem by blast

lemma norm_funpow: "0 < n \<Longrightarrow> (norm ^^ n) x = norm x"
proof (induction n)
  case 0
  then show ?case by simp
next
  case (Suc n)
  then show ?case by (cases n) (auto simp: norm_idem)
qed

end

lemma ToLower_idem [simp]: "ToLower (ToLower s) = ToLower s"
  by (simp add: ToLower_def)

lemma ToLower_append [simp]: "ToLower (s @ t) = ToLower s @ ToLower t"
  by (simp add: ToLower_def)

lemma ToLower_eq_Nil [simp]: "ToLower s = [] \<longleftrightarrow> s = []"
  by (simp add: ToLower_def)

lemma length_ToLower [simp]: "length (ToLower s) = length s"
  by (simp add: ToLower_def)

lemma dropWhile_space_rev_dropWhile:
  "dropWhile P (rev (dropWhile P (rev s))) = rev (dropWhile P (rev (dropWhile P s)))"
proof (induction s)
  case Nil
  then show ?case by simp
next
  case (Cons c s)
  then show ?case
    by (cases "\<forall>x\<in>set s. P x")
       (auto simp: dropWhile_append dropWhile_eq_Nil_conv[THEN iffD2] split: if_splits)
qed

lemma TrimSpace_idem [simp]: "TrimSpace (TrimSpace s) = TrimSpace s"
  by (simp add: TrimSpace_def dropWhile_space_rev_dropWhile dropWhile_idem)

lemma TrimSpace_Nil [simp]: "TrimSpace [] = []"
  by (simp add: TrimSpace_def)

lemma dropWhile_map_space: "dropWhile is_space (ToLower s) = ToLower (dropWhile is_space s)"
  by (induction s) (auto simp: ToLower_def)

lemma TrimSpace_ToLower: "TrimSpace (ToLower s) = ToLower (TrimSpace s)"
proof -
  have rev_lower: "rev (ToLower t) = ToLower (rev t)" for t
    by (simp add: ToLower_def rev_map)
  show ?thesis by (simp add: TrimSpace_def dropWhile_map_space rev_lower)
qed

interpretation lower: normaliser ToLower by unfold_locales simp
interpretation trim: normaliser TrimSpace by unfold_locales simp
interpretation lowertrim: normaliser "\<lambda>s. ToLower (TrimSpace s)"
  by unfold_locales (simp add: TrimSpace_ToLower)

lemma HasPrefix_iff: "HasPrefix s p \<longleftrightarrow> (\<exists>t. s = p @ t)"
  unfolding HasPrefix_def by (metis append_eq_conv_conj append_take_drop_id)

lemma HasSuffix_iff: "HasSuffix s p \<longleftrightarrow> (\<exists>t. s = t @ p)"
  unfolding HasSuffix_def HasPrefix_iff by (metis rev_append rev_rev_ident)

lemma Contains_iff: "Contains s p \<longleftrightarrow> (\<exists>a b. s = a @ p @ b)"
proof (induction s)
  case Nil
  then show ?case by auto
next
  case (Cons c s)
  then show ?case
    unfolding Contains.simps HasPrefix_iff by (metis append_Cons append_Nil neq_Nil_conv list.inject)
qed

lemma Split_not_Nil [simp]: "Split s sep \<noteq> []"
  by (induction s) (auto split: list.splits)

lemma Join_Split: "Join (Split s sep) sep = s"
proof (induction s)
  case Nil
  then show ?case by simp
next
  case (Cons c s)
  then show ?case
    by (cases "Split s sep" rule: list.exhaust; cases "tl (Split s sep)")
       (auto simp: Split_not_Nil)
qed

lemma Split_no_sep: "sep \<notin> set s \<Longrightarrow> Split s sep = [s]"
  by (induction s) auto

lemma Split_append_sep: "sep \<notin> set s \<Longrightarrow> Split (s @ sep # t) sep = s # Split t sep"
  by (induction s) auto

section \<open>strconv\<close>

text \<open>
  \<open>strconv.Atoi\<close>: an optional sign and decimal digits, refused outside the range of a 64-bit
  \<open>int\<close>.
\<close>

definition decimal_value :: "string \<Rightarrow> nat" where
  "decimal_value ds = foldl (\<lambda>n c. 10 * n + digit_value c) 0 ds"

definition MaxInt64 :: int where "MaxInt64 = 9223372036854775807"

definition Atoi :: "string \<Rightarrow> int option" where
  "Atoi s =
     (let neg = HasPrefix s ''-'';
          ds = (if neg \<or> HasPrefix s ''+'' then tl s else s)
      in if ds = [] \<or> \<not> list_all is_digit ds then None
         else let v = (if neg then - int (decimal_value ds) else int (decimal_value ds))
              in if - MaxInt64 - 1 \<le> v \<and> v \<le> MaxInt64 then Some v else None)"

fun Itoa_nat :: "nat \<Rightarrow> string" where
  "Itoa_nat n = (if n < 10 then [digit_char n] else Itoa_nat (n div 10) @ [digit_char (n mod 10)])"

declare Itoa_nat.simps [simp del]

definition Itoa :: "int \<Rightarrow> string" where
  "Itoa i = (if i < 0 then CHR ''-'' # Itoa_nat (nat (- i)) else Itoa_nat (nat i))"

lemma is_digit_digit_char [simp]: "n < 10 \<Longrightarrow> is_digit (digit_char n)"
  by (simp add: is_digit_def digit_char_def)

lemma digit_value_digit_char [simp]: "n < 10 \<Longrightarrow> digit_value (digit_char n) = n"
  by (simp add: digit_value_def digit_char_def)

lemma Itoa_nat_not_Nil [simp]: "Itoa_nat n \<noteq> []"
  by (subst Itoa_nat.simps) simp

lemma Itoa_nat_digits: "list_all is_digit (Itoa_nat n)"
proof (induction n rule: Itoa_nat.induct)
  case (1 n)
  then show ?case by (subst Itoa_nat.simps) simp
qed

lemma Itoa_nat_digit_in: "c \<in> set (Itoa_nat n) \<Longrightarrow> is_digit c"
  using Itoa_nat_digits by (auto simp: list_all_iff)

lemma decimal_value_Itoa_nat: "decimal_value (Itoa_nat n) = n"
proof (induction n rule: Itoa_nat.induct)
  case (1 n)
  show ?case
  proof (cases "n < 10")
    case True
    then show ?thesis by (subst Itoa_nat.simps) (simp add: decimal_value_def)
  next
    case False
    with 1 have "decimal_value (Itoa_nat (n div 10)) = n div 10" by simp
    with False show ?thesis by (subst Itoa_nat.simps) (simp add: decimal_value_def)
  qed
qed

lemma digit_not_sign: "is_digit c \<Longrightarrow> c \<noteq> CHR ''-'' \<and> c \<noteq> CHR ''+''"
  by (auto simp: is_digit_def)

lemma Itoa_nat_no_sign: "\<not> HasPrefix (Itoa_nat n) ''-'' \<and> \<not> HasPrefix (Itoa_nat n) ''+''"
proof (cases "Itoa_nat n")
  case Nil
  then show ?thesis by simp
next
  case (Cons c cs)
  then have "is_digit c" using Itoa_nat_digit_in [of c n] by simp
  with Cons show ?thesis using digit_not_sign by (auto simp: HasPrefix_def)
qed

lemma Atoi_Itoa_nat: "int n \<le> MaxInt64 \<Longrightarrow> Atoi (Itoa_nat n) = Some (int n)"
  by (simp add: Atoi_def Itoa_nat_no_sign Itoa_nat_digits decimal_value_Itoa_nat MaxInt64_def)

lemma Atoi_Itoa: "- MaxInt64 - 1 \<le> i \<Longrightarrow> i \<le> MaxInt64 \<Longrightarrow> Atoi (Itoa i) = Some i"
proof (cases "i < 0")
  case True
  assume "- MaxInt64 - 1 \<le> i" "i \<le> MaxInt64"
  with True show ?thesis
    by (simp add: Itoa_def Atoi_def HasPrefix_def Itoa_nat_digits decimal_value_Itoa_nat MaxInt64_def)
next
  case False
  assume "i \<le> MaxInt64"
  with False show ?thesis by (simp add: Itoa_def Atoi_Itoa_nat)
qed

end
