(* ===== verification/Errors.thy ===== *)
theory Errors
  imports GoStrings
begin

text \<open>
  The error values the program builds and inspects, as one closed datatype, with \<open>Error()\<close>,
  \<open>Unwrap\<close> and \<open>errors.As\<close>. The classification of outbound failures (phases, scopes, causal
  tokens) of internal/outbound/connector.go is part of those values and stands here, because the
  lease manager and the health checker decide by it.
\<close>

section \<open>Phases, scopes and tokens\<close>

datatype phase =
    PhaseFrontDial | PhaseFrontCircuit | PhaseFrontHandshake | PhaseFrontAuth
  | PhaseFrontConnectExit | PhaseFrontConnectTarget
  | PhaseExitDial | PhaseExitHandshake | PhaseExitAuth | PhaseExitConnect
  | PhaseOther string

fun phaseText :: "phase \<Rightarrow> string" where
  "phaseText PhaseFrontDial = ''front_dial''"
| "phaseText PhaseFrontCircuit = ''front_circuit''"
| "phaseText PhaseFrontHandshake = ''front_handshake''"
| "phaseText PhaseFrontAuth = ''front_auth''"
| "phaseText PhaseFrontConnectExit = ''front_connect_exit''"
| "phaseText PhaseFrontConnectTarget = ''front_connect_target''"
| "phaseText PhaseExitDial = ''exit_dial''"
| "phaseText PhaseExitHandshake = ''exit_handshake''"
| "phaseText PhaseExitAuth = ''exit_auth''"
| "phaseText PhaseExitConnect = ''exit_connect_target''"
| "phaseText (PhaseOther s) = s"

datatype failureScope =
  FailureScopeUnknown | FailureScopeShared | FailureScopeAmbiguous | FailureScopeExit

record FrontToken =
  Generation :: nat
  Sequence :: nat

definition noToken :: FrontToken where
  "noToken = \<lparr>Generation = 0, Sequence = 0\<rparr>"

definition scopeForPhase :: "phase \<Rightarrow> failureScope" where
  "scopeForPhase p =
     (if p \<in> {PhaseFrontDial, PhaseFrontCircuit, PhaseFrontHandshake, PhaseFrontAuth,
              PhaseFrontConnectTarget} then FailureScopeShared
      else if p = PhaseFrontConnectExit then FailureScopeAmbiguous
      else if p \<in> {PhaseExitDial, PhaseExitHandshake, PhaseExitAuth, PhaseExitConnect}
           then FailureScopeExit
      else FailureScopeUnknown)"

section \<open>Error values\<close>

datatype socksStage = socksStageHandshake | socksStageAuth | socksStageConnect

datatype errorKind = ErrorRequest | ErrorResponse

datatype goError =
    ErrString string                  \<comment> \<open>\<open>errors.New\<close>, or \<open>fmt.Errorf\<close> without \<open>%w\<close>\<close>
  | ErrWrap string goError            \<comment> \<open>\<open>fmt.Errorf("prefix: %w", err)\<close>\<close>
  | ErrIO string                      \<comment> \<open>an error of the operating system, the network or SQLite\<close>
  | ErrCanceled | ErrDeadlineExceeded \<comment> \<open>the errors of package \<open>context\<close>\<close>
  | ErrEOF | ErrUnexpectedEOF | ErrShortWrite
  | ErrSocks socksStage string "goError option"
  | ErrPhase phase failureScope bool FrontToken "goError option"
  | ErrProvider errorKind "goError option"

fun errorText :: "goError \<Rightarrow> string" where
  "errorText (ErrString s) = s"
| "errorText (ErrWrap s e) = s @ '': '' @ errorText e"
| "errorText (ErrIO s) = s"
| "errorText ErrCanceled = ''context canceled''"
| "errorText ErrDeadlineExceeded = ''context deadline exceeded''"
| "errorText ErrEOF = ''EOF''"
| "errorText ErrUnexpectedEOF = ''unexpected EOF''"
| "errorText ErrShortWrite = ''short write''"
| "errorText (ErrSocks _ m None) = m"
| "errorText (ErrSocks _ m (Some e)) = m @ '': '' @ errorText e"
| "errorText (ErrPhase p _ _ _ None) = phaseText p"
| "errorText (ErrPhase p _ _ _ (Some e)) = phaseText p @ '': '' @ errorText e"
| "errorText (ErrProvider _ None) = ''proxy API failed''"
| "errorText (ErrProvider _ (Some e)) = errorText e"

fun Unwrap :: "goError \<Rightarrow> goError option" where
  "Unwrap (ErrWrap _ e) = Some e"
| "Unwrap (ErrSocks _ _ e) = e"
| "Unwrap (ErrPhase _ _ _ _ e) = e"
| "Unwrap (ErrProvider _ e) = e"
| "Unwrap _ = None"

record PhaseError =
  Phase :: phase
  Scope :: failureScope
  FrontEstablishedFlag :: bool
  Token :: FrontToken
  Err :: "goError option"

text \<open>\<open>errors.As(err, &phaseErr)\<close>: the first \<open>PhaseError\<close> of the chain of wrapped errors.\<close>

fun asPhaseError :: "goError \<Rightarrow> PhaseError option" where
  "asPhaseError (ErrPhase p s est t e) =
     Some \<lparr>Phase = p, Scope = s, FrontEstablishedFlag = est, Token = t, Err = e\<rparr>"
| "asPhaseError (ErrWrap _ e) = asPhaseError e"
| "asPhaseError (ErrSocks _ _ (Some e)) = asPhaseError e"
| "asPhaseError (ErrProvider _ (Some e)) = asPhaseError e"
| "asPhaseError _ = None"

fun asSocksStage :: "goError \<Rightarrow> socksStage option" where
  "asSocksStage (ErrSocks st _ _) = Some st"
| "asSocksStage (ErrWrap _ e) = asSocksStage e"
| "asSocksStage (ErrPhase _ _ _ _ (Some e)) = asSocksStage e"
| "asSocksStage (ErrProvider _ (Some e)) = asSocksStage e"
| "asSocksStage _ = None"

fun asProviderKind :: "goError \<Rightarrow> errorKind option" where
  "asProviderKind (ErrProvider k _) = Some k"
| "asProviderKind (ErrWrap _ e) = asProviderKind e"
| "asProviderKind (ErrSocks _ _ (Some e)) = asProviderKind e"
| "asProviderKind (ErrPhase _ _ _ _ (Some e)) = asProviderKind e"
| "asProviderKind _ = None"

definition ErrorKindOf :: "goError \<Rightarrow> errorKind" where
  "ErrorKindOf err = (case asProviderKind err of Some k \<Rightarrow> k | None \<Rightarrow> ErrorRequest)"

definition isSOCKSAuthError :: "goError \<Rightarrow> bool" where
  "isSOCKSAuthError err \<longleftrightarrow> asSocksStage err = Some socksStageAuth"

definition newPhaseError :: "phase \<Rightarrow> goError \<Rightarrow> goError" where
  "newPhaseError p err = ErrPhase p (scopeForPhase p) False noToken (Some err)"

definition newEstablishedPhaseError :: "phase \<Rightarrow> FrontToken \<Rightarrow> goError \<Rightarrow> goError" where
  "newEstablishedPhaseError p token err = ErrPhase p (scopeForPhase p) True token (Some err)"

section \<open>Classification of a result\<close>

text \<open>The functions below take a possibly nil error, as the Go functions do.\<close>

definition FailureScopeOf :: "goError option \<Rightarrow> failureScope" where
  "FailureScopeOf err =
     (case Option.bind err asPhaseError of
        None \<Rightarrow> FailureScopeUnknown
      | Some pe \<Rightarrow> if Scope pe \<noteq> FailureScopeUnknown then Scope pe else scopeForPhase (Phase pe))"

definition IsFrontFailure :: "goError option \<Rightarrow> bool" where
  "IsFrontFailure err \<longleftrightarrow> FailureScopeOf err \<in> {FailureScopeShared, FailureScopeAmbiguous}"

definition IsAmbiguousFrontFailure :: "goError option \<Rightarrow> bool" where
  "IsAmbiguousFrontFailure err \<longleftrightarrow> FailureScopeOf err = FailureScopeAmbiguous"

definition AmbiguousFailureToken :: "goError option \<Rightarrow> FrontToken option" where
  "AmbiguousFailureToken err =
     (case Option.bind err asPhaseError of
        None \<Rightarrow> None
      | Some pe \<Rightarrow>
          if FailureScopeOf err \<noteq> FailureScopeAmbiguous \<or> Sequence (Token pe) = 0 then None
          else Some (Token pe))"

definition FrontEstablished :: "goError option \<Rightarrow> bool" where
  "FrontEstablished err =
     (case Option.bind err asPhaseError of None \<Rightarrow> False | Some pe \<Rightarrow> FrontEstablishedFlag pe)"

text \<open>
  \<open>confirmedExitFailure\<close> of internal/manager/health.go: an ambiguous failure that newer evidence
  has attributed to the exit.
\<close>

definition confirmedExitFailure :: "goError \<Rightarrow> goError" where
  "confirmedExitFailure err =
     (case asPhaseError err of
        None \<Rightarrow> err
      | Some pe \<Rightarrow> ErrPhase (Phase pe) FailureScopeExit True (Token pe) (Err pe))"

lemma FailureScopeOf_None [simp]: "FailureScopeOf None = FailureScopeUnknown"
  by (simp add: FailureScopeOf_def)

lemma FrontEstablished_None [simp]: "\<not> FrontEstablished None"
  by (simp add: FrontEstablished_def)

lemma FailureScopeOf_new [simp]: "FailureScopeOf (Some (newPhaseError p e)) = scopeForPhase p"
  by (simp add: FailureScopeOf_def newPhaseError_def)

lemma FailureScopeOf_newEstablished [simp]:
  "FailureScopeOf (Some (newEstablishedPhaseError p t e)) = scopeForPhase p"
  by (simp add: FailureScopeOf_def newEstablishedPhaseError_def)

lemma FrontEstablished_new [simp]:
  "\<not> FrontEstablished (Some (newPhaseError p e))"
  "FrontEstablished (Some (newEstablishedPhaseError p t e))"
  by (simp_all add: FrontEstablished_def newPhaseError_def newEstablishedPhaseError_def)

lemma AmbiguousFailureToken_scope:
  "AmbiguousFailureToken err = Some t \<Longrightarrow>
     FailureScopeOf err = FailureScopeAmbiguous \<and> 0 < Sequence t"
  by (auto simp: AmbiguousFailureToken_def split: option.splits if_splits)

lemma FailureScopeOf_wrap [simp]:
  "FailureScopeOf (Some (ErrWrap s e)) = FailureScopeOf (Some e)"
  by (simp add: FailureScopeOf_def)

lemma confirmed_scope:
  "FailureScopeOf (Some e) \<noteq> FailureScopeUnknown \<Longrightarrow>
     FailureScopeOf (Some (confirmedExitFailure e)) = FailureScopeExit"
  by (auto simp: FailureScopeOf_def confirmedExitFailure_def split: option.splits)

end
