(* ===== verification/GoNet.thy ===== *)
theory GoNet
  imports Errors
begin

text \<open>
  The functions of Go's \<open>net\<close> package that the sources call: \<open>SplitHostPort\<close>, \<open>JoinHostPort\<close>,
  \<open>ParseIP\<close>, \<open>IP.To4\<close>, \<open>IP.String\<close>, \<open>ParseCIDR\<close> and \<open>IPNet.Contains\<close>. A \<open>net.IP\<close> is its byte
  slice, of length 4 or 16; the nil slice that \<open>ParseIP\<close> returns for a malformed address is
  \<open>None\<close>.
\<close>

unbundle bit_operations_syntax

section \<open>Addresses host:port\<close>

definition addrErr :: "string \<Rightarrow> string \<Rightarrow> goError" where
  "addrErr addr why = ErrString (if addr = [] then why else ''address '' @ addr @ '': '' @ why)"

text \<open>\<open>before s c\<close> and \<open>after s c\<close> split a string at its first \<open>c\<close>.\<close>

definition before :: "string \<Rightarrow> char \<Rightarrow> string" where
  "before s c = takeWhile (\<lambda>d. d \<noteq> c) s"

definition after :: "string \<Rightarrow> char \<Rightarrow> string" where
  "after s c = tl (dropWhile (\<lambda>d. d \<noteq> c) s)"

definition beforeLast :: "string \<Rightarrow> char \<Rightarrow> string" where
  "beforeLast s c = rev (after (rev s) c)"

definition afterLast :: "string \<Rightarrow> char \<Rightarrow> string" where
  "afterLast s c = rev (before (rev s) c)"

definition SplitHostPort :: "string \<Rightarrow> goError + string \<times> string" where
  "SplitHostPort hostport =
     (if CHR '':'' \<notin> set hostport then Inl (addrErr hostport ''missing port in address'')
      else if hd hostport = CHR ''['' then
        (if CHR '']'' \<notin> set hostport then Inl (addrErr hostport ''missing ']' in address'')
         else
           let inner = tl (before hostport (CHR '']'')); rest = after hostport (CHR '']'') in
           if rest = [] then Inl (addrErr hostport ''missing port in address'')
           else if hd rest \<noteq> CHR '':'' then Inl (addrErr hostport ''missing port in address'')
           else if CHR '':'' \<in> set (tl rest)
             then Inl (addrErr hostport ''too many colons in address'')
           else if CHR ''['' \<in> set (inner @ rest)
             then Inl (addrErr hostport ''unexpected '[' in address'')
           else if CHR '']'' \<in> set rest
             then Inl (addrErr hostport ''unexpected ']' in address'')
           else Inr (inner, tl rest))
      else
        let host = beforeLast hostport (CHR '':''); port = afterLast hostport (CHR '':'') in
        if CHR '':'' \<in> set host then Inl (addrErr hostport ''too many colons in address'')
        else if CHR ''['' \<in> set hostport
          then Inl (addrErr hostport ''unexpected '[' in address'')
        else if CHR '']'' \<in> set hostport
          then Inl (addrErr hostport ''unexpected ']' in address'')
        else Inr (host, port))"

definition JoinHostPort :: "string \<Rightarrow> string \<Rightarrow> string" where
  "JoinHostPort host port =
     (if CHR '':'' \<in> set host then ''['' @ host @ '']:'' @ port else host @ '':'' @ port)"

definition host_chars :: "string \<Rightarrow> bool" where
  "host_chars h \<longleftrightarrow> CHR ''['' \<notin> set h \<and> CHR '']'' \<notin> set h"

definition port_chars :: "string \<Rightarrow> bool" where
  "port_chars p \<longleftrightarrow> host_chars p \<and> CHR '':'' \<notin> set p"

lemma before_append [simp]: "c \<notin> set a \<Longrightarrow> before (a @ c # b) c = a"
  unfolding before_def by (subst takeWhile_append2) auto

lemma after_append [simp]: "c \<notin> set a \<Longrightarrow> after (a @ c # b) c = b"
  unfolding after_def by (subst dropWhile_append2) auto

lemma beforeLast_append [simp]: "c \<notin> set b \<Longrightarrow> beforeLast (a @ c # b) c = a"
  by (simp add: beforeLast_def)

lemma afterLast_append [simp]: "c \<notin> set b \<Longrightarrow> afterLast (a @ c # b) c = b"
  by (simp add: afterLast_def)

lemma SplitHostPort_JoinHostPort:
  assumes "host_chars h" and "port_chars p"
  shows "SplitHostPort (JoinHostPort h p) = Inr (h, p)"
proof (cases "CHR '':'' \<in> set h")
  case True
  let ?s = "(CHR ''['' # h) @ CHR '']'' # CHR '':'' # p"
  have "JoinHostPort h p = ?s" using True by (simp add: JoinHostPort_def)
  moreover have "CHR '']'' \<notin> set (CHR ''['' # h)"
    using assms by (simp add: host_chars_def)
  then have "before ?s (CHR '']'') = CHR ''['' # h" "after ?s (CHR '']'') = CHR '':'' # p"
    by (rule before_append, rule after_append)
  ultimately show ?thesis
    using assms by (simp add: SplitHostPort_def Let_def host_chars_def port_chars_def)
next
  case False
  have hd: "hd (h @ CHR '':'' # p) \<noteq> CHR ''[''"
    using assms by (cases h) (auto simp: host_chars_def)
  have "JoinHostPort h p = h @ CHR '':'' # p" using False by (simp add: JoinHostPort_def)
  then show ?thesis
    using assms False hd
    by (simp add: SplitHostPort_def Let_def host_chars_def port_chars_def)
qed

lemma Itoa_nat_port_chars [simp]: "port_chars (Itoa_nat n)"
  using Itoa_nat_digit_in [of "CHR ''[''" n] Itoa_nat_digit_in [of "CHR '']''" n]
    Itoa_nat_digit_in [of "CHR '':''" n]
  by (auto simp: port_chars_def host_chars_def is_digit_def)

lemma Itoa_port_chars [simp]: "0 \<le> i \<Longrightarrow> port_chars (Itoa i)"
  by (simp add: Itoa_def)

section \<open>IP addresses\<close>

type_synonym ip = "byte list"

definition v4InV6Prefix :: "byte list" where
  "v4InV6Prefix = [0, 0, 0, 0, 0, 0, 0, 0, 0, 0, 255, 255]"

definition To4 :: "ip \<Rightarrow> ip option" where
  "To4 a = (if length a = 4 then Some a
            else if length a = 16 \<and> take 12 a = v4InV6Prefix then Some (drop 12 a) else None)"

definition To16 :: "ip \<Rightarrow> ip option" where
  "To16 a = (if length a = 4 then Some (v4InV6Prefix @ a)
             else if length a = 16 then Some a else None)"

text \<open>
  An octet of a dotted quad: one to three decimal digits, no superfluous leading zero, at most
  255.
\<close>

definition parse_octet :: "string \<Rightarrow> byte option" where
  "parse_octet ds =
     (if ds = [] \<or> \<not> list_all is_digit ds \<or> (1 < length ds \<and> hd ds = CHR ''0'')
        \<or> 255 < decimal_value ds
      then None else Some (word_of_nat (decimal_value ds)))"

definition parseIPv4 :: "string \<Rightarrow> byte list option" where
  "parseIPv4 s =
     (case Split s (CHR ''.'') of
        [a, b, c, d] \<Rightarrow>
          (case (parse_octet a, parse_octet b, parse_octet c, parse_octet d) of
             (Some a, Some b, Some c, Some d) \<Rightarrow> Some [a, b, c, d]
           | _ \<Rightarrow> None)
      | _ \<Rightarrow> None)"

definition is_hex :: "char \<Rightarrow> bool" where
  "is_hex c \<longleftrightarrow> is_digit c \<or> (97 \<le> code c \<and> code c \<le> 102) \<or> (65 \<le> code c \<and> code c \<le> 70)"

definition hex_value :: "char \<Rightarrow> nat" where
  "hex_value c = (if is_digit c then code c - 48
                  else if 97 \<le> code c then code c - 87 else code c - 55)"

definition group_value :: "string \<Rightarrow> nat" where
  "group_value hs = foldl (\<lambda>n c. 16 * n + hex_value c) 0 hs"

text \<open>
  The loop of \<open>netip.parseIPv6\<close>: \<open>room\<close> 16-bit groups are still to be filled, \<open>out\<close> holds the
  bytes found, \<open>ellipsis\<close> the position of a \<open>::\<close> in them.
\<close>

fun parseIPv6_loop :: "nat \<Rightarrow> byte list \<Rightarrow> nat option \<Rightarrow> string
    \<Rightarrow> (byte list \<times> nat option \<times> string) option" where
  "parseIPv6_loop 0 out ellipsis s = Some (out, ellipsis, s)"
| "parseIPv6_loop (Suc room) out ellipsis s =
     (let hs = takeWhile is_hex s; r = dropWhile is_hex s in
      if hs = [] \<or> 4 < length hs then None
      else if r \<noteq> [] \<and> hd r = CHR ''.'' then
        (if ellipsis = None \<and> length out \<noteq> 12 then None
         else if 16 < length out + 4 then None
         else case parseIPv4 s of None \<Rightarrow> None | Some q \<Rightarrow> Some (out @ q, ellipsis, []))
      else
        let out' = out @ [word_of_nat (group_value hs div 256), word_of_nat (group_value hs)] in
        if r = [] then Some (out', ellipsis, [])
        else if hd r \<noteq> CHR '':'' \<or> tl r = [] then None
        else if hd (tl r) = CHR '':'' then
          (if ellipsis \<noteq> None then None
           else if tl (tl r) = [] then Some (out', Some (length out'), [])
           else parseIPv6_loop room out' (Some (length out')) (tl (tl r)))
        else parseIPv6_loop room out' ellipsis (tl r))"

definition parseIPv6 :: "string \<Rightarrow> byte list option" where
  "parseIPv6 s =
     (let lead = HasPrefix s ''::''; r = (if lead then drop 2 s else s) in
      if lead \<and> r = [] then Some (replicate 16 0)
      else case parseIPv6_loop 8 [] (if lead then Some 0 else None) r of
             None \<Rightarrow> None
           | Some (out, ellipsis, rest) \<Rightarrow>
               if rest \<noteq> [] then None
               else if length out < 16 then
                 (case ellipsis of None \<Rightarrow> None
                  | Some e \<Rightarrow> Some (take e out @ replicate (16 - length out) 0 @ drop e out))
               else if ellipsis \<noteq> None then None else Some out)"

text \<open>
  \<open>netip.ParseAddr\<close> looks for the first of \<open>.\<close>, \<open>:\<close> and \<open>%\<close>; an address with a zone is refused by
  \<open>net.ParseIP\<close>, as \<open>parseIPv6_loop\<close> refuses the \<open>%\<close>.
\<close>

definition addrMark :: "char \<Rightarrow> bool" where
  "addrMark c \<longleftrightarrow> c \<in> {CHR ''.'', CHR '':'', CHR ''%''}"

definition parseAddr :: "string \<Rightarrow> byte list option" where
  "parseAddr s =
     (case List.find addrMark s of
        None \<Rightarrow> None
      | Some c \<Rightarrow> if c = CHR ''.'' then parseIPv4 s
                  else if c = CHR '':'' then parseIPv6 s else None)"

definition ParseIP :: "string \<Rightarrow> ip option" where
  "ParseIP s = Option.bind (parseAddr s) To16"

subsection \<open>Printing\<close>

definition ip4String :: "byte list \<Rightarrow> string" where
  "ip4String a = Join (map (\<lambda>b. Itoa_nat (unat b)) a) (CHR ''.'')"

definition hex_char :: "nat \<Rightarrow> char" where
  "hex_char n = char_of (if n < 10 then 48 + n else 87 + n)"

fun hex_nat :: "nat \<Rightarrow> string" where
  "hex_nat n = (if n < 16 then [hex_char n] else hex_nat (n div 16) @ [hex_char (n mod 16)])"

declare hex_nat.simps [simp del]

definition groups :: "byte list \<Rightarrow> nat list" where
  "groups a = map (\<lambda>i. unat (a ! (2 * i)) * 256 + unat (a ! (2 * i + 1))) [0..<8]"

text \<open>The longest run of at least two zero groups, the first of them on a tie.\<close>

definition zero_run :: "nat list \<Rightarrow> nat \<times> nat" where
  "zero_run gs =
     fold (\<lambda>i (s, n). let l = length (takeWhile (\<lambda>g. g = 0) (drop i gs)) in
                      if 2 \<le> l \<and> n < l then (i, l) else (s, n))
       [0..<8] (0, 0)"

definition ip6String :: "byte list \<Rightarrow> string" where
  "ip6String a =
     (let gs = groups a; (start, n) = zero_run gs;
          show = \<lambda>g. Join (map hex_nat g) (CHR '':'')
      in if n = 0 then show gs
         else show (take start gs) @ ''::'' @ show (drop (start + n) gs))"

definition ipString :: "ip \<Rightarrow> string" where
  "ipString a = (case To4 a of Some q \<Rightarrow> ip4String q | None \<Rightarrow> ip6String a)"

subsection \<open>Round trip of dotted quads\<close>

lemma parse_octet_Itoa: "parse_octet (Itoa_nat (unat (b :: byte))) = Some b"
proof -
  have range: "unat b < 256" using unsigned_less [of b, where ?'a = nat] by simp
  have no_zero: "\<not> (1 < length (Itoa_nat n) \<and> hd (Itoa_nat n) = CHR ''0'')" if "n < 256" for n
  proof (cases "n < 10")
    case True
    then show ?thesis by (subst (1 2) Itoa_nat.simps) simp
  next
    case False
    define m where "m = n div 10"
    have m: "0 < m" "m < 26" using that False by (auto simp: m_def)
    have hd_digit: "hd (Itoa_nat k) \<noteq> CHR ''0''" if "0 < k" "k < 26" for k
    proof (cases "k < 10")
      case True
      have "code (digit_char k) \<noteq> code (CHR ''0'')"
        using that True by (simp add: digit_char_def)
      then show ?thesis using True by (subst Itoa_nat.simps) auto
    next
      case f: False
      have "code (digit_char (k div 10)) \<noteq> code (CHR ''0'')"
        using that f by (simp add: digit_char_def)
      moreover have "Itoa_nat k = [digit_char (k div 10), digit_char (k mod 10)]"
        using that f by (simp add: Itoa_nat.simps [of k] Itoa_nat.simps [of "k div 10"])
      ultimately show ?thesis by auto
    qed
    have "Itoa_nat n = Itoa_nat m @ [digit_char (n mod 10)]"
      using False by (subst Itoa_nat.simps) (simp add: m_def)
    with hd_digit [OF m] show ?thesis by simp
  qed
  show ?thesis
    using range no_zero [OF range]
    by (simp add: parse_octet_def Itoa_nat_digits decimal_value_Itoa_nat)
qed

lemma Itoa_nat_no_dot: "CHR ''.'' \<notin> set (Itoa_nat n)"
  using Itoa_nat_digit_in [of "CHR ''.''" n] by (auto simp: is_digit_def)

lemma parseIPv4_ip4String:
  assumes "length a = 4"
  shows "parseIPv4 (ip4String a) = Some a"
proof -
  obtain p q r s where a: "a = [p, q, r, s]"
    using assms by (auto simp: numeral_eq_Suc length_Suc_conv)
  show ?thesis
    by (simp add: a ip4String_def parseIPv4_def Split_append_sep Split_no_sep Itoa_nat_no_dot
        parse_octet_Itoa)
qed

lemma find_dot_ip4String:
  assumes "length a = 4"
  shows "List.find addrMark (ip4String a) = Some (CHR ''.'')"
proof -
  obtain p q r s where a: "a = [p, q, r, s]"
    using assms by (auto simp: numeral_eq_Suc length_Suc_conv)
  have skip: "List.find P (u @ c # v) = Some c" if "\<forall>x\<in>set u. \<not> P x" "P c"
    for P :: "char \<Rightarrow> bool" and u c v
    using that by (induction u) auto
  have "\<forall>x\<in>set (Itoa_nat (unat p)). \<not> addrMark x"
    using Itoa_nat_digit_in [of _ "unat p"] by (fastforce simp: is_digit_def addrMark_def)
  then show ?thesis
    by (simp add: a ip4String_def skip addrMark_def)
qed

lemma ParseIP_ip4String:
  assumes "length a = 4"
  shows "ParseIP (ip4String a) = Some (v4InV6Prefix @ a)"
  using assms
  by (simp add: ParseIP_def parseAddr_def find_dot_ip4String parseIPv4_ip4String To16_def)

lemma length_v4InV6Prefix [simp]: "length v4InV6Prefix = 12"
  by (simp add: v4InV6Prefix_def)

lemma To4_v4 [simp]: "length a = 4 \<Longrightarrow> To4 (v4InV6Prefix @ a) = Some a"
  by (simp add: To4_def)

lemma ip4String_inj:
  assumes "length a = 4" and "length b = 4" and "ip4String a = ip4String b"
  shows "a = b"
  by (metis assms option.inject parseIPv4_ip4String)

lemma ip4String_port_chars:
  assumes "length a = 4"
  shows "port_chars (ip4String a)"
proof -
  obtain p q r s where a: "a = [p, q, r, s]"
    using assms by (auto simp: numeral_eq_Suc length_Suc_conv)
  have join: "port_chars (u @ CHR ''.'' # v)" if "port_chars u" "port_chars v" for u v
    using that by (simp add: port_chars_def host_chars_def)
  show ?thesis
    unfolding a ip4String_def by (simp add: join)
qed

section \<open>Networks\<close>

record IPNet =
  netIP :: ip
  netOnes :: nat
  netBits :: nat

text \<open>\<open>CIDRMask(ones, bits)\<close> as bytes, and masking.\<close>

definition maskByte :: "nat \<Rightarrow> nat \<Rightarrow> byte" where
  "maskByte ones i = (let k = min 8 (ones - 8 * i) in push_bit (8 - k) (mask k))"

definition applyMask :: "nat \<Rightarrow> byte list \<Rightarrow> byte list" where
  "applyMask ones a = map (\<lambda>i. a ! i AND maskByte ones i) [0..<length a]"

definition ParseCIDR :: "string \<Rightarrow> goError + ip \<times> IPNet" where
  "ParseCIDR s =
     (let bad = Inl (ErrString (''invalid CIDR address: '' @ s));
          addr = before s (CHR ''/''); m = after s (CHR ''/'') in
      if CHR ''/'' \<notin> set s then bad
      else case parseAddr addr of
             None \<Rightarrow> bad
           | Some a \<Rightarrow>
               if m = [] \<or> \<not> list_all is_digit m \<or> 8 * length a < decimal_value m then bad
               else case To16 a of
                      None \<Rightarrow> bad
                    | Some a16 \<Rightarrow>
                        Inr (a16, \<lparr>netIP = applyMask (decimal_value m) a,
                                   netOnes = decimal_value m, netBits = 8 * length a\<rparr>))"

definition NetContains :: "IPNet \<Rightarrow> ip \<Rightarrow> bool" where
  "NetContains n a =
     (let x = (case To4 a of Some q \<Rightarrow> q | None \<Rightarrow> a);
          nn = (case To4 (netIP n) of Some q \<Rightarrow> q | None \<Rightarrow> netIP n);
          ones = netOnes n - (netBits n - 8 * length nn) in
      length x = length nn \<and> applyMask ones nn = applyMask ones x)"

section \<open>URLs\<close>

text \<open>
  The parts of a \<open>url.URL\<close> that the sources read. The parser itself is an argument of the
  definitions that call it; \<open>Hostname\<close> and \<open>Port\<close> are methods on the \<open>Host\<close> field.
\<close>

record URL =
  urlScheme :: string
  urlOpaque :: string
  urlUser :: "(string \<times> string) option"
  urlHost :: string
  urlPath :: string
  urlRawQuery :: string
  urlFragment :: string

definition splitURLHost :: "string \<Rightarrow> string \<times> string" where
  "splitURLHost hostPort =
     (let (host, port) =
            (if CHR '':'' \<in> set hostPort \<and> list_all is_digit (afterLast hostPort (CHR '':''))
             then (beforeLast hostPort (CHR '':''), afterLast hostPort (CHR '':''))
             else (hostPort, []))
      in (if HasPrefix host ''['' \<and> HasSuffix host '']'' then butlast (tl host) else host, port))"

definition Hostname :: "URL \<Rightarrow> string" where
  "Hostname u = fst (splitURLHost (urlHost u))"

definition Port :: "URL \<Rightarrow> string" where
  "Port u = snd (splitURLHost (urlHost u))"

end
