(* ===== verification/FakeIP.thy ===== *)
theory FakeIP
  imports GoNet
begin

text \<open>
  internal/manager/fakeip.go: the pool of synthetic IPv4 addresses that the DNS server answers and
  the gateway maps back to the queried name. The counters are 32-bit words, as in the source, so
  the wrap-around of \<open>size - 1\<close> and of \<open>base + offset\<close> is kept.
\<close>

section \<open>Big-endian encoding\<close>

definition be32 :: "byte list \<Rightarrow> 32 word" where
  "be32 a = push_bit 24 (ucast (a ! 0)) OR push_bit 16 (ucast (a ! 1))
            OR push_bit 8 (ucast (a ! 2)) OR ucast (a ! 3)"

definition put32 :: "32 word \<Rightarrow> byte list" where
  "put32 x = [ucast (drop_bit 24 x), ucast (drop_bit 16 x), ucast (drop_bit 8 x), ucast x]"

lemma bit_word_of_nat32: "bit (word_of_nat k :: 32 word) n \<longleftrightarrow> n < 32 \<and> bit k n"
  by transfer (auto simp: bit_take_bit_iff bit_of_nat_iff_bit)

lemma unat_word_of_nat32: "j < 2 ^ 32 \<Longrightarrow> unat (word_of_nat j :: 32 word) = j"
  by (subst unsigned_of_nat) (simp add: take_bit_nat_eq_self_iff)

lemma length_put32 [simp]: "length (put32 x) = 4"
  by (simp add: put32_def)

lemma be32_put32 [simp]: "be32 (put32 x) = x"
proof (rule bit_word_eqI)
  fix n
  assume n: "n < LENGTH(32)"
  consider "n < 8" | "8 \<le> n" "n < 16" | "16 \<le> n" "n < 24" | "24 \<le> n" by linarith
  then show "bit (be32 (put32 x)) n \<longleftrightarrow> bit x n"
    using n
    by cases (auto simp: be32_def put32_def bit_or_iff bit_push_bit_iff bit_ucast_iff
        bit_drop_bit_eq)
qed

lemma put32_inj: "put32 x = put32 y \<longleftrightarrow> x = y"
  by (metis be32_put32)

section \<open>State and operations\<close>

record FakeIPStore =
  network :: IPNet
  base :: "32 word"
  poolSize :: "32 word"
  nextOffset :: "32 word"
  nameToIP :: "ip table"
  ipToName :: "string table"

definition NewFakeIPStore :: "string \<Rightarrow> goError + FakeIPStore" where
  "NewFakeIPStore cidr =
     (case ParseCIDR cidr of
        Inl err \<Rightarrow> Inl err
      | Inr (addr, net) \<Rightarrow>
          (case To4 addr of
             None \<Rightarrow> Inl (ErrString ''fake ip cidr must be IPv4'')
           | Some ip4 \<Rightarrow>
               if netBits net \<noteq> 32 \<or> 30 < netOnes net
               then Inl (ErrString ''fake ip cidr is too small'')
               else Inr \<lparr>network = net, base = be32 ip4, poolSize = push_bit (32 - netOnes net) 1,
                         nextOffset = 1, nameToIP = [], ipToName = []\<rparr>))"

definition fakeName :: "string \<Rightarrow> string" where
  "fakeName domain = TrimSuffix (ToLower domain) ''.''"

definition nextAfter :: "32 word \<Rightarrow> 32 word \<Rightarrow> 32 word" where
  "nextAfter psize offset = (if psize - 1 \<le> offset + 1 then 1 else offset + 1)"

definition Get :: "FakeIPStore \<Rightarrow> string \<Rightarrow> ip \<times> FakeIPStore" where
  "Get s domain =
     (let domain = fakeName domain in
      case get (nameToIP s) domain of
        Some a \<Rightarrow> (a, s)
      | None \<Rightarrow>
          let offset = nextOffset s;
              a = put32 (base s + offset)
          in (a, s\<lparr>nextOffset := nextAfter (poolSize s) offset, nameToIP := put domain a (nameToIP s),
                   ipToName := put (ipString a) domain (ipToName s)\<rparr>))"

definition Lookup :: "FakeIPStore \<Rightarrow> ip \<Rightarrow> string option" where
  "Lookup s addr =
     (case To4 addr of
        None \<Rightarrow> None
      | Some ip4 \<Rightarrow> if \<not> NetContains (network s) ip4 then None
                   else get (ipToName s) (ipString ip4))"

text \<open>The store after a sequence of DNS queries.\<close>

fun getAll :: "FakeIPStore \<Rightarrow> string list \<Rightarrow> FakeIPStore" where
  "getAll s [] = s"
| "getAll s (d # ds) = getAll (snd (Get s d)) ds"

section \<open>The pool's network\<close>

lemma ipString_put32 [simp]: "ipString (put32 x) = ip4String (put32 x)"
  by (simp add: ipString_def To4_def)

lemma bit_maskByte:
  "bit (maskByte ones i) k \<longleftrightarrow> k < 8 \<and> 8 - min 8 (ones - 8 * i) \<le> k"
  by (auto simp: maskByte_def Let_def bit_push_bit_iff bit_mask_iff)

definition netMask :: "nat \<Rightarrow> 32 word" where
  "netMask ones = push_bit (32 - ones) (mask ones)"

lemma bit_netMask: "ones \<le> 32 \<Longrightarrow> bit (netMask ones) n \<longleftrightarrow> 32 - ones \<le> n \<and> n < 32"
  by (auto simp: netMask_def bit_push_bit_iff bit_mask_iff)

lemma applyMask_put32:
  assumes "ones \<le> 32"
  shows "applyMask ones (put32 x) = put32 (x AND netMask ones)"
proof -
  have byte: "ucast (drop_bit (24 - 8 * i) x) AND maskByte ones i
      = (ucast (drop_bit (24 - 8 * i) (x AND netMask ones)) :: byte)" if "i < 4" for i
  proof (rule bit_word_eqI)
    fix k
    assume "k < LENGTH(8)"
    with that assms show "bit (ucast (drop_bit (24 - 8 * i) x) AND maskByte ones i) k
      \<longleftrightarrow> bit (ucast (drop_bit (24 - 8 * i) (x AND netMask ones)) :: byte) k"
      by (auto simp: bit_and_iff bit_ucast_iff bit_drop_bit_eq bit_maskByte bit_netMask)
  qed
  have idx: "[0..<4] = [0, 1, 2, 3 :: nat]" by (simp add: upt_rec)
  show ?thesis
    using byte [of 0] byte [of 1] byte [of 2] byte [of 3]
    by (simp add: applyMask_def put32_def idx numeral_eq_Suc)
qed

definition aligned :: "FakeIPStore \<Rightarrow> bool" where
  "aligned s \<longleftrightarrow> netBits (network s) = 32 \<and> netOnes (network s) \<le> 30
     \<and> poolSize s = push_bit (32 - netOnes (network s)) 1
     \<and> netIP (network s) = put32 (base s) \<and> base s AND netMask (netOnes (network s)) = base s"

lemma aligned_contains:
  assumes "aligned s" and "k < 2 ^ (32 - netOnes (network s))"
  shows "NetContains (network s) (put32 (base s + word_of_nat k))"
proof -
  let ?ones = "netOnes (network s)" and ?k = "word_of_nat k :: 32 word"
  have ones: "?ones \<le> 32" using assms(1) by (simp add: aligned_def)
  have low: "\<not> bit ?k n" if "32 - ?ones \<le> n" for n
  proof -
    have "k < 2 ^ n" using assms(2) that by (meson order_less_le_trans one_le_numeral power_increasing)
    then have "\<not> bit k n" by (simp add: bit_iff_odd)
    then show ?thesis by (simp only: bit_word_of_nat32) simp
  qed
  have high: "\<not> bit (base s) n" if "n < 32 - ?ones" for n
    using assms(1) that ones
    by (metis aligned_def bit_and_iff bit_netMask linorder_not_le)
  have "base s + ?k = base s OR ?k"
    by (rule disjunctive_add) (metis low high linorder_not_le)
  then have "(base s + ?k) AND netMask ?ones = base s"
    using assms(1) ones low
    by (auto simp: aligned_def bit_eq_iff bit_and_iff bit_or_iff bit_netMask)
  then show ?thesis
    using assms(1) ones by (simp add: NetContains_def aligned_def To4_def applyMask_put32 Let_def)
qed

section \<open>The pool before its addresses run out\<close>

definition capacity :: "FakeIPStore \<Rightarrow> nat" where
  "capacity s = 2 ^ (32 - netOnes (network s)) - 2"

definition addrAt :: "FakeIPStore \<Rightarrow> nat \<Rightarrow> ip" where
  "addrAt s k = put32 (base s + word_of_nat k)"

definition pool_inv :: "FakeIPStore \<Rightarrow> bool" where
  "pool_inv s \<longleftrightarrow>
     (let n = length (nameToIP s) in
      aligned s \<and> keys_ok (nameToIP s) \<and> n \<le> capacity s
      \<and> nextOffset s = (if n = capacity s then 1 else word_of_nat (n + 1))
      \<and> (\<forall>d a. get (nameToIP s) d = Some a \<longrightarrow>
            (\<exists>k. 1 \<le> k \<and> k \<le> n \<and> a = addrAt s k) \<and> get (ipToName s) (ip4String a) = Some d)
      \<and> (\<forall>x d. get (ipToName s) x = Some d \<longrightarrow>
            (\<exists>k. 1 \<le> k \<and> k \<le> n \<and> x = ip4String (addrAt s k))))"

definition has_room :: "FakeIPStore \<Rightarrow> string \<Rightarrow> bool" where
  "has_room s d \<longleftrightarrow> get (nameToIP s) (fakeName d) \<noteq> None \<or> length (nameToIP s) < capacity s"

lemma length_addrAt [simp]: "length (addrAt s k) = 4"
  by (simp add: addrAt_def)

lemma capacity_bound: "netOnes (network s) \<le> 30 \<Longrightarrow> capacity s + 2 = 2 ^ (32 - netOnes (network s))"
proof -
  assume "netOnes (network s) \<le> 30"
  then have "(2 :: nat) ^ 2 \<le> 2 ^ (32 - netOnes (network s))" by (intro power_increasing) auto
  then show ?thesis by (simp add: capacity_def)
qed

lemma capacity_ge2: "netOnes (network s) \<le> 30 \<Longrightarrow> 2 \<le> capacity s"
proof -
  assume "netOnes (network s) \<le> 30"
  then have "(2 :: nat) ^ 2 \<le> 2 ^ (32 - netOnes (network s))" by (intro power_increasing) auto
  then show ?thesis by (simp add: capacity_def)
qed

lemma capacity_le: "capacity s + 2 \<le> 2 ^ 32" if "netOnes (network s) \<le> 30"
  unfolding capacity_bound [OF that] by (rule power_increasing) auto

lemma addrAt_inj:
  assumes "netOnes (network s) \<le> 30" "j < capacity s + 2" "k < capacity s + 2"
    and "addrAt s j = addrAt s k"
  shows "j = k"
proof -
  have "j < 2 ^ 32" "k < 2 ^ 32" using assms capacity_le [of s] by linarith+
  moreover have "(word_of_nat j :: 32 word) = word_of_nat k"
    using assms(4) by (simp add: addrAt_def put32_inj)
  ultimately show ?thesis
    by (simp add: word_of_nat_eq_iff take_bit_nat_eq_self)
qed

lemma addrAt_contains:
  "aligned s \<Longrightarrow> k < capacity s + 2 \<Longrightarrow> NetContains (network s) (addrAt s k)"
  unfolding addrAt_def by (rule aligned_contains)
    (auto simp: capacity_bound [symmetric] aligned_def)

lemma poolSize_pred: "aligned s \<Longrightarrow> unat (poolSize s - 1) = capacity s + 1"
proof -
  assume a: "aligned s"
  let ?m = "32 - netOnes (network s)"
  have "poolSize s - 1 = mask ?m"
    using a by (simp add: aligned_def mask_eq_exp_minus_1 push_bit_eq_mult)
  moreover have "unat (mask ?m :: 32 word) = 2 ^ ?m - 1"
  proof -
    have "(mask ?m :: 32 word) = word_of_nat (mask ?m)" by (rule of_nat_mask_eq [symmetric])
    moreover have "(mask ?m :: nat) < 2 ^ 32"
      using power_increasing [of ?m 32 "2 :: nat"] by (simp add: mask_eq_exp_minus_1 less_le_trans)
    ultimately have "unat (mask ?m :: 32 word) = mask ?m" by (simp only: unat_word_of_nat32)
    then show ?thesis by (simp only: mask_eq_exp_minus_1)
  qed
  ultimately show ?thesis
    using capacity_bound [of s] a by (simp add: aligned_def)
qed

lemma next_offset_step:
  assumes "aligned s" and "n < capacity s"
  shows "nextAfter (poolSize s) (word_of_nat (n + 1))
         = (if n + 1 = capacity s then 1 else word_of_nat (n + 2))"
proof -
  have le: "capacity s + 2 \<le> 2 ^ 32" using assms(1) capacity_le [of s] by (simp add: aligned_def)
  have eq: "(word_of_nat (n + 1) :: 32 word) + 1 = word_of_nat (n + 2)" by simp
  have "n + 2 < 2 ^ 32" using assms(2) le by linarith
  then have "unat (word_of_nat (n + 2) :: 32 word) = n + 2"
    by (rule unat_word_of_nat32)
  then have "poolSize s - 1 \<le> (word_of_nat (n + 2) :: 32 word) \<longleftrightarrow> capacity s \<le> n + 1"
    using poolSize_pred [OF assms(1)] by (simp add: word_le_nat_alt del: of_nat_add)
  with assms(2) show ?thesis unfolding nextAfter_def eq by auto
qed

text \<open>The two branches of \<open>Get\<close>, as equations.\<close>

lemma Get_known: "get (nameToIP s) (fakeName d) = Some a \<Longrightarrow> Get s d = (a, s)"
  by (simp add: Get_def Let_def)

lemma Get_fresh:
  assumes "pool_inv s" and "get (nameToIP s) (fakeName d) = None"
    and "length (nameToIP s) < capacity s"
  shows "Get s d = (addrAt s (length (nameToIP s) + 1),
    s\<lparr>nextOffset := (if length (nameToIP s) + 1 = capacity s then 1
                     else word_of_nat (length (nameToIP s) + 2)),
      nameToIP := put (fakeName d) (addrAt s (length (nameToIP s) + 1)) (nameToIP s),
      ipToName := put (ip4String (addrAt s (length (nameToIP s) + 1))) (fakeName d) (ipToName s)\<rparr>)"
proof -
  have "aligned s" and "nextOffset s = word_of_nat (length (nameToIP s) + 1)"
    using assms(1,3) by (auto simp: pool_inv_def Let_def)
  then show ?thesis
    using assms(2) next_offset_step [OF \<open>aligned s\<close> assms(3)]
    unfolding Get_def Let_def addrAt_def by (simp del: of_nat_add of_nat_Suc)
qed

lemma length_put_fresh: "get t k = None \<Longrightarrow> length (put k v t) = Suc (length t)"
  by (induction t) (auto split: if_splits)

lemma pool_inv_Get_fresh:
  assumes inv: "pool_inv s" and new: "get (nameToIP s) (fakeName d) = None"
    and room: "length (nameToIP s) < capacity s"
  shows "pool_inv (snd (Get s d))"
proof -
  let ?n = "length (nameToIP s)"
  have ones: "netOnes (network s) \<le> 30" using inv by (simp add: pool_inv_def aligned_def Let_def)
  have frame: "addrAt (s\<lparr>nextOffset := a, nameToIP := b, ipToName := c\<rparr>) = addrAt s"
    "capacity (s\<lparr>nextOffset := a, nameToIP := b, ipToName := c\<rparr>) = capacity s"
    "aligned (s\<lparr>nextOffset := a, nameToIP := b, ipToName := c\<rparr>) = aligned s" for a b c
    by (auto simp: fun_eq_iff addrAt_def capacity_def aligned_def)
  have other: "ip4String (addrAt s k) \<noteq> ip4String (addrAt s (?n + 1))" if "k \<le> ?n" for k
    using addrAt_inj [OF ones, of k "?n + 1"] that room ip4String_inj by fastforce
  let ?s' = "snd (Get s d)"
  have s': "nameToIP ?s' = put (fakeName d) (addrAt s (?n + 1)) (nameToIP s)"
    "ipToName ?s' = put (ip4String (addrAt s (?n + 1))) (fakeName d) (ipToName s)"
    "nextOffset ?s' = (if ?n + 1 = capacity s then 1 else word_of_nat (?n + 2))"
    "addrAt ?s' = addrAt s" "capacity ?s' = capacity s" "aligned ?s' = aligned s"
    unfolding Get_fresh [OF inv new room] by (simp_all add: frame)
  have len: "length (nameToIP ?s') = ?n + 1" unfolding s' by (simp add: length_put_fresh new)
  have names: "(\<exists>k. 1 \<le> k \<and> k \<le> ?n + 1 \<and> a = addrAt s k) \<and> get (ipToName ?s') (ip4String a) = Some e"
    if "get (nameToIP ?s') e = Some a" for e a
  proof (cases "e = fakeName d")
    case True
    then show ?thesis using that unfolding s' by auto
  next
    case False
    with that have "get (nameToIP s) e = Some a" unfolding s' by simp
    with inv obtain k where k: "1 \<le> k" "k \<le> ?n" "a = addrAt s k" "get (ipToName s) (ip4String a) = Some e"
      unfolding pool_inv_def Let_def by blast
    then show ?thesis unfolding s' using other [of k] by (auto intro!: exI [of _ k])
  qed
  have addrs: "\<exists>k. 1 \<le> k \<and> k \<le> ?n + 1 \<and> x = ip4String (addrAt s k)"
    if "get (ipToName ?s') x = Some e" for e x
  proof (cases "x = ip4String (addrAt s (?n + 1))")
    case True
    then show ?thesis by (intro exI [of _ "?n + 1"]) simp
  next
    case False
    with that have "get (ipToName s) x = Some e" unfolding s' by simp
    with inv obtain k where "1 \<le> k" "k \<le> ?n" "x = ip4String (addrAt s k)"
      unfolding pool_inv_def Let_def by blast
    then show ?thesis by (intro exI [of _ k]) simp
  qed
  have "keys_ok (nameToIP ?s')" "aligned s" using inv unfolding s' by (auto simp: pool_inv_def Let_def)
  then show ?thesis
    unfolding pool_inv_def Let_def len s'(3-6)
    using room names addrs by (auto simp del: of_nat_add of_nat_Suc)
qed

section \<open>The contract of a name pool\<close>

text \<open>
  What the DNS server and the gateway rely on: an address handed out resolves to the normalised
  name, keeps resolving to it while other names are allocated, and is handed out again for the
  same name. \<open>good\<close> is the provider's invariant and \<open>room\<close> says that the name is known or an
  address is left.
\<close>

locale name_pool =
  fixes alloc :: "'s \<Rightarrow> string \<Rightarrow> ip \<times> 's"
    and resolve :: "'s \<Rightarrow> ip \<Rightarrow> string option"
    and norm :: "string \<Rightarrow> string"
    and known :: "'s \<Rightarrow> string \<Rightarrow> bool"
    and free :: "'s \<Rightarrow> nat"
    and good :: "'s \<Rightarrow> bool"
  assumes alloc_good: "good s \<Longrightarrow> known s (norm d) \<or> 0 < free s \<Longrightarrow> good (snd (alloc s d))"
    and alloc_resolves: "good s \<Longrightarrow> known s (norm d) \<or> 0 < free s \<Longrightarrow>
      resolve (snd (alloc s d)) (fst (alloc s d)) = Some (norm d)"
    and alloc_keeps: "good s \<Longrightarrow> known s (norm d) \<or> 0 < free s \<Longrightarrow>
      resolve s a = Some n \<Longrightarrow> resolve (snd (alloc s d)) a = Some n"
    and alloc_known: "known (snd (alloc s d)) n \<longleftrightarrow> known s n \<or> n = norm d"
    and known_same: "good s \<Longrightarrow> known s (norm d) \<Longrightarrow> snd (alloc s d) = s"
    and alloc_free: "good s \<Longrightarrow> \<not> known s (norm d) \<Longrightarrow> 0 < free s \<Longrightarrow>
      free s = Suc (free (snd (alloc s d)))"
begin

definition run :: "'s \<Rightarrow> string list \<Rightarrow> 's" where
  "run s ds = fold (\<lambda>d s. snd (alloc s d)) ds s"

lemma run_simps [simp]:
  "run s [] = s" "run s (d # ds) = run (snd (alloc s d)) ds"
  by (simp_all add: run_def)

text \<open>A sequence of queries fits when its new names are no more than the free addresses.\<close>

definition fits :: "'s \<Rightarrow> string list \<Rightarrow> bool" where
  "fits s ds \<longleftrightarrow> card {n \<in> norm ` set ds. \<not> known s n} \<le> free s"

lemma fits_fresh: "(\<And>n. \<not> known s n) \<Longrightarrow> card (norm ` set ds) \<le> free s \<Longrightarrow> fits s ds"
  unfolding fits_def by (metis (mono_tags, lifting) Collect_cong Collect_mem_eq)

lemma fits_room: "fits s (d # ds) \<Longrightarrow> known s (norm d) \<or> 0 < free s"
proof -
  assume fits: "fits s (d # ds)"
  show ?thesis
  proof (cases "known s (norm d)")
    case False
    then have "norm d \<in> {n \<in> norm ` set (d # ds). \<not> known s n}" by simp
    then have "0 < card {n \<in> norm ` set (d # ds). \<not> known s n}"
      by (subst card_gt_0_iff) auto
    with fits show ?thesis unfolding fits_def by linarith
  qed simp
qed

lemma fits_step:
  assumes "good s" and fits: "fits s (d # ds)"
  shows "fits (snd (alloc s d)) ds"
proof (cases "known s (norm d)")
  case True
  then have "{n \<in> norm ` set ds. \<not> known s n} = {n \<in> norm ` set (d # ds). \<not> known s n}" by auto
  with True assms show ?thesis by (simp add: fits_def known_same)
next
  case False
  let ?A = "{n \<in> norm ` set (d # ds). \<not> known s n}"
  have rest: "{n \<in> norm ` set ds. \<not> known (snd (alloc s d)) n} = ?A - {norm d}"
    by (auto simp: alloc_known)
  have "card (?A - {norm d}) = card ?A - 1"
    using False by (intro card_Diff_singleton) auto
  moreover have "free s = Suc (free (snd (alloc s d)))"
    using assms(1) False fits_room [OF fits] by (intro alloc_free) auto
  ultimately show ?thesis using fits unfolding fits_def rest by linarith
qed

lemma run_good: "good s \<Longrightarrow> fits s ds \<Longrightarrow> good (run s ds)"
proof (induction ds arbitrary: s)
  case (Cons d ds)
  then show ?case using alloc_good [OF Cons.prems(1) fits_room] fits_step by simp
qed simp

lemma run_keeps: "good s \<Longrightarrow> fits s ds \<Longrightarrow> resolve s a = Some n \<Longrightarrow> resolve (run s ds) a = Some n"
proof (induction ds arbitrary: s)
  case (Cons d ds)
  note room = fits_room [OF Cons.prems(2)]
  show ?case
    using Cons.IH [OF alloc_good [OF Cons.prems(1) room] fits_step [OF Cons.prems(1,2)]
        alloc_keeps [OF Cons.prems(1) room Cons.prems(3)]] by simp
qed simp

lemma run_known: "d \<in> set ds \<or> known s (norm d) \<Longrightarrow> known (run s ds) (norm d)"
proof (induction ds arbitrary: s)
  case (Cons e ds)
  then show ?case using Cons.IH [of "snd (alloc s e)"] by (auto simp: alloc_known)
qed simp

lemma run_append: "run s (xs @ ys) = run (run s xs) ys"
  by (induction xs arbitrary: s) auto

lemma fits_append: "good s \<Longrightarrow> fits s (xs @ ys) \<Longrightarrow> good (run s xs) \<and> fits (run s xs) ys"
proof (induction xs arbitrary: s)
  case (Cons d xs)
  then show ?case using alloc_good [OF Cons.prems(1) fits_room] fits_step by fastforce
qed simp

text \<open>
  Every name queried so far resolves back, whatever was queried before and after it, and the
  answer given at query time is the one that still resolves.
\<close>

lemma run_resolves:
  assumes "good s" and "fits s ds" and "d \<in> set ds"
  shows "resolve (run s ds) (fst (alloc (run s ds) d)) = Some (norm d) \<and> snd (alloc (run s ds) d) = run s ds"
proof -
  have good: "good (run s ds)" using assms by (simp add: run_good)
  have "known (run s ds) (norm d)" using assms(3) by (simp add: run_known)
  then show ?thesis using alloc_resolves [OF good] known_same [OF good] by metis
qed

lemma answer_keeps_resolving:
  assumes "good s" and "fits s (d # ds)"
  shows "resolve (run s (d # ds)) (fst (alloc s d)) = Some (norm d)"
  using assms alloc_good alloc_resolves fits_room fits_step run_keeps by simp

end

lemma Lookup_addrAt:
  assumes "pool_inv s" and "k < capacity s + 2"
  shows "Lookup s (addrAt s k) = get (ipToName s) (ip4String (addrAt s k))"
  using assms addrAt_contains [of s k]
  by (simp add: Lookup_def To4_def ipString_def pool_inv_def Let_def)

lemma Lookup_known:
  assumes "pool_inv s" and "get (nameToIP s) n = Some a"
  shows "Lookup s a = Some n"
proof -
  obtain k where "k \<le> length (nameToIP s)" "a = addrAt s k" "get (ipToName s) (ip4String a) = Some n"
    using assms unfolding pool_inv_def Let_def by blast
  moreover have "length (nameToIP s) \<le> capacity s" using assms(1) by (simp add: pool_inv_def Let_def)
  ultimately show ?thesis using Lookup_addrAt [OF assms(1), of k] by simp
qed

lemma Get_nameToIP: "get (nameToIP (snd (Get s d))) (fakeName d) = Some (fst (Get s d))"
  by (auto simp: Get_def Let_def split: option.splits)

lemma pool_inv_Get:
  "pool_inv s \<Longrightarrow> get (nameToIP s) (fakeName d) \<noteq> None \<or> length (nameToIP s) < capacity s \<Longrightarrow>
     pool_inv (snd (Get s d))"
  by (cases "get (nameToIP s) (fakeName d)") (auto simp: Get_known pool_inv_Get_fresh)

lemma Lookup_Get_keeps:
  assumes inv: "pool_inv s"
    and room: "get (nameToIP s) (fakeName d) \<noteq> None \<or> length (nameToIP s) < capacity s"
    and res: "Lookup s a = Some n"
  shows "Lookup (snd (Get s d)) a = Some n"
proof (cases "get (nameToIP s) (fakeName d)")
  case (Some b)
  then show ?thesis using res by (simp add: Get_known)
next
  case None
  with room have r: "length (nameToIP s) < capacity s" by simp
  let ?n = "length (nameToIP s)"
  from res obtain q where q: "To4 a = Some q" "NetContains (network s) q" "get (ipToName s) (ipString q) = Some n"
    by (auto simp: Lookup_def split: option.splits if_splits)
  have "length q = 4" using q(1) by (auto simp: To4_def split: if_splits)
  then have str: "ipString q = ip4String q" by (simp add: ipString_def To4_def)
  obtain k where k: "k \<le> ?n" "ipString q = ip4String (addrAt s k)"
    using inv q(3) unfolding pool_inv_def Let_def by blast
  have "ip4String (addrAt s k) \<noteq> ip4String (addrAt s (?n + 1))"
    using addrAt_inj [of s k "?n + 1"] k(1) r inv ip4String_inj
    by (fastforce simp: pool_inv_def aligned_def Let_def)
  then show ?thesis
    using q k unfolding Get_fresh [OF inv None r] by (simp add: Lookup_def)
qed

interpretation fake: name_pool Get Lookup fakeName
    "\<lambda>s n. get (nameToIP s) n \<noteq> None" "\<lambda>s. capacity s - length (nameToIP s)" pool_inv
proof unfold_locales
  fix s d
  assume *: "pool_inv s" "get (nameToIP s) (fakeName d) \<noteq> None \<or> 0 < capacity s - length (nameToIP s)"
  then show "pool_inv (snd (Get s d))" by (intro pool_inv_Get) auto
  then show "Lookup (snd (Get s d)) (fst (Get s d)) = Some (fakeName d)"
    by (rule Lookup_known) (rule Get_nameToIP)
  show "Lookup (snd (Get s d)) a = Some n" if "Lookup s a = Some n" for a n
    using * that by (intro Lookup_Get_keeps) auto
next
  fix s d n
  show "(get (nameToIP (snd (Get s d))) n \<noteq> None) = (get (nameToIP s) n \<noteq> None \<or> n = fakeName d)"
    by (auto simp: Get_def Let_def split: option.splits)
next
  fix s d
  assume "pool_inv s" "get (nameToIP s) (fakeName d) \<noteq> None"
  then show "snd (Get s d) = s" by (auto simp: Get_known)
next
  fix s d
  assume *: "pool_inv s" "\<not> get (nameToIP s) (fakeName d) \<noteq> None" "0 < capacity s - length (nameToIP s)"
  then have "length (nameToIP s) < capacity s" by linarith
  with * show "capacity s - length (nameToIP s)
      = Suc (capacity (snd (Get s d)) - length (nameToIP (snd (Get s d))))"
    by (simp add: Get_fresh length_put_fresh capacity_def)
qed

lemma getAll_run: "getAll s ds = fake.run s ds"
  by (induction s ds rule: getAll.induct) auto

lemma put32_be32:
  assumes "length a = 4"
  shows "put32 (be32 a) = a"
proof -
  obtain p q r t where a: "a = [p, q, r, t]"
    using assms by (auto simp: numeral_eq_Suc length_Suc_conv)
  show ?thesis
    unfolding a put32_def be32_def
    using bit_imp_le_length [where ?'a = 8]
    by (fastforce intro!: bit_word_eqI simp: bit_ucast_iff bit_drop_bit_eq bit_or_iff bit_push_bit_iff)
qed

lemma NewFakeIPStore_Inr:
  assumes "NewFakeIPStore cidr = Inr s"
  shows "netBits (network s) = 32" "netOnes (network s) \<le> 30"
    "poolSize s = push_bit (32 - netOnes (network s)) 1"
    "netIP (network s) = put32 (base s AND netMask (netOnes (network s)))"
    "nextOffset s = 1" "nameToIP s = []" "ipToName s = []"
proof -
  obtain addr net ip4 where p: "ParseCIDR cidr = Inr (addr, net)" "To4 addr = Some ip4"
    "netBits net = 32" "netOnes net \<le> 30"
    and s: "s = \<lparr>network = net, base = be32 ip4, poolSize = push_bit (32 - netOnes net) 1,
                nextOffset = 1, nameToIP = [], ipToName = []\<rparr>"
    using assms by (auto simp: NewFakeIPStore_def split: sum.splits option.splits if_splits)
  obtain a where a: "To16 a = Some addr" "length a = 4" "netIP net = applyMask (netOnes net) a"
    using p(1,3) by (auto simp: ParseCIDR_def Let_def split: option.splits if_splits)
  then have "ip4 = a" using p(2) by (auto simp: To16_def)
  then have "netIP net = put32 (be32 ip4 AND netMask (netOnes net))"
    using a p(4) by (simp add: put32_be32 flip: applyMask_put32)
  then show "netBits (network s) = 32" "netOnes (network s) \<le> 30"
    "poolSize s = push_bit (32 - netOnes (network s)) 1"
    "netIP (network s) = put32 (base s AND netMask (netOnes (network s)))"
    "nextOffset s = 1" "nameToIP s = []" "ipToName s = []"
    using p unfolding s by simp_all
qed

lemma NewFakeIPStore_good:
  assumes "NewFakeIPStore cidr = Inr s"
    and "base s AND netMask (netOnes (network s)) = base s"
  shows "pool_inv s"
proof -
  note new = NewFakeIPStore_Inr [OF assms(1)]
  have "2 \<le> capacity s" using new(2) by (rule capacity_ge2)
  then show ?thesis using new assms(2) by (simp add: pool_inv_def aligned_def Let_def)
qed

lemma answered_name:
  assumes "NewFakeIPStore cidr = Inr s"
    and "base s AND netMask (netOnes (network s)) = base s"
    and "card (fakeName ` set (xs @ d # ys)) \<le> capacity s"
  shows "Lookup (getAll s (xs @ d # ys)) (fst (Get (getAll s xs) d)) = Some (fakeName d)"
proof -
  have good: "pool_inv s" using assms by (simp add: NewFakeIPStore_good)
  have "fake.fits s (xs @ d # ys)"
    using assms(3) NewFakeIPStore_Inr(6) [OF assms(1)] by (intro fake.fits_fresh) auto
  with good have "pool_inv (fake.run s xs)" "fake.fits (fake.run s xs) (d # ys)"
    using fake.fits_append by blast+
  from fake.answer_keeps_resolving [OF this] show ?thesis
    by (simp add: getAll_run fake.run_append)
qed

section \<open>Properties\<close>

text \<open>
  DNS answers stay valid. From a pool over a CIDR whose address is the network address, with
  no more different names queried than the pool has usable addresses, the address answered for a
  name resolves to that name (lower case, without the root dot) after any later queries.
\<close>

theorem fake_answer_keeps_resolving:
  assumes "NewFakeIPStore cidr = Inr s"
    and "base s AND netMask (netOnes (network s)) = base s"
    and "card (fakeName ` set (xs @ d # ys)) \<le> capacity s"
  shows "Lookup (getAll s (xs @ d # ys)) (fst (Get (getAll s xs) d)) = Some (fakeName d)"
  using assms by (rule answered_name)

theorem fake_answer_keeps_resolving_witness:
  "\<exists>s. NewFakeIPStore ''198.18.0.0/29'' = Inr s
     \<and> Lookup (getAll s [''a.com'', ''B.org.'', ''c.net'']) (fst (Get (getAll s [''a.com'']) ''B.org.''))
         = Some ''b.org''"
proof -
  let ?s = "\<lparr>network = \<lparr>netIP = [198, 18, 0, 0], netOnes = 29, netBits = 32\<rparr>,
    base = 3323068416, poolSize = 8, nextOffset = 1, nameToIP = [], ipToName = []\<rparr>"
  have new: "NewFakeIPStore ''198.18.0.0/29'' = Inr ?s" by code_simp
  have "base ?s AND netMask (netOnes (network ?s)) = base ?s" by code_simp
  moreover have "card (fakeName ` set ([''a.com''] @ ''B.org.'' # [''c.net''])) \<le> capacity ?s"
    by code_simp
  moreover have "fakeName ''B.org.'' = ''b.org''" by code_simp
  ultimately have "Lookup (getAll ?s [''a.com'', ''B.org.'', ''c.net''])
      (fst (Get (getAll ?s [''a.com'']) ''B.org.'')) = Some ''b.org''"
    using fake_answer_keeps_resolving [OF new, of "[''a.com'']" "''B.org.''" "[''c.net'']"] by simp
  with new show ?thesis by blast
qed

text \<open>
  C33. What happens when the pool is used up. The next new name takes the first address again, but
  the name that held it keeps it in \<open>nameToIP\<close>: a later query for that older name is answered with
  an address that resolves to the newer one.
\<close>

theorem fake_pool_wrap_misdirects:
  assumes "pool_inv s" and "length (nameToIP s) = capacity s"
    and "get (nameToIP s) (fakeName d) = None"
  shows "\<exists>old. old \<noteq> fakeName d \<and> get (nameToIP (snd (Get s d))) old = Some (fst (Get s d))
           \<and> Lookup (snd (Get s d)) (fst (Get s d)) = Some (fakeName d)"
proof -
  have aln: "aligned s" and keys: "keys_ok (nameToIP s)" and "nextOffset s = 1"
    and inv: "\<And>e a. get (nameToIP s) e = Some a \<Longrightarrow>
      (\<exists>k. 1 \<le> k \<and> k \<le> capacity s \<and> a = addrAt s k) \<and> get (ipToName s) (ip4String a) = Some e"
    using assms(1,2) by (auto simp: pool_inv_def Let_def)
  have cap: "2 \<le> capacity s" using aln by (simp add: aligned_def capacity_ge2)
  have first: "fst (Get s d) = addrAt s 1"
    using assms(3) \<open>nextOffset s = 1\<close> by (simp add: Get_def Let_def addrAt_def)
  let ?f = "\<lambda>e. the (get (nameToIP s) e)" and ?D = "dom (get (nameToIP s))"
  have "card ?D = capacity s"
    using keys assms(2) by (simp add: dom_get keys_ok_def card_image distinct_card
        flip: set_map)
  moreover have "inj_on ?f ?D"
    by (intro inj_onI) (metis domIff inv option.exhaust_sel option.inject)
  ultimately have "card (?f ` ?D) = capacity s" by (simp add: card_image)
  moreover have "?f ` ?D \<subseteq> addrAt s ` {1..capacity s}" using inv by fastforce
  moreover have "card (addrAt s ` {1..capacity s}) \<le> capacity s"
    by (metis card_atLeastAtMost card_image_le diff_Suc_1 finite_atLeastAtMost)
  ultimately have "?f ` ?D = addrAt s ` {1..capacity s}"
    by (metis card_seteq finite_atLeastAtMost finite_imageI)
  then obtain old where old: "get (nameToIP s) old = Some (addrAt s 1)"
    using cap by (smt (verit) atLeastAtMost_iff domD image_iff le_numeral_extra(4) one_le_numeral
        option.sel order_trans)
  have "Lookup (snd (Get s d)) (addrAt s 1) = Some (fakeName d)"
    using assms(3) aln cap addrAt_contains [OF aln, of 1] first
    by (simp add: Lookup_def To4_def ipString_def Get_def Let_def)
  with old assms(3) first show ?thesis
    by (intro exI [of _ old]) (auto simp: Get_def Let_def)
qed

theorem fake_pool_wrap_misdirects_witness:
  "\<exists>s old. get (nameToIP (snd (Get s ''c''))) old = Some (fst (Get s ''c'')) \<and> old \<noteq> ''c''
     \<and> Lookup (snd (Get s ''c'')) (fst (Get s ''c'')) = Some ''c''"
proof -
  let ?new = "\<lparr>network = \<lparr>netIP = [198, 18, 0, 0], netOnes = 30, netBits = 32\<rparr>,
    base = 3323068416, poolSize = 4, nextOffset = 1, nameToIP = [], ipToName = []\<rparr>"
  let ?full = "getAll ?new [''a'', ''b'']"
  have "NewFakeIPStore ''198.18.0.0/30'' = Inr ?new" by code_simp
  moreover have "base ?new AND netMask (netOnes (network ?new)) = base ?new" by code_simp
  ultimately have "pool_inv ?new" by (rule NewFakeIPStore_good)
  moreover have "card (fakeName ` set [''a'', ''b'']) \<le> capacity ?new - length (nameToIP ?new)"
    by code_simp
  then have "fake.fits ?new [''a'', ''b'']" by (intro fake.fits_fresh) auto
  ultimately have inv: "pool_inv ?full" unfolding getAll_run by (rule fake.run_good)
  have full: "length (nameToIP ?full) = capacity ?full" by code_simp
  have new: "get (nameToIP ?full) (fakeName ''c'') = None" by code_simp
  have name: "fakeName ''c'' = ''c''" by code_simp
  show ?thesis using fake_pool_wrap_misdirects [OF inv full new] unfolding name by blast
qed

text \<open>
  A CIDR with host bits set is accepted, but offsets are then added to that address and not to the
  network address, so the pool leaves its network and answers addresses it does not resolve.
\<close>

lemma fake_unaligned_cidr_unresolved:
  "\<exists>s. NewFakeIPStore ''198.18.0.7/29'' = Inr s \<and> Lookup (snd (Get s ''a'')) (fst (Get s ''a'')) = None"
proof -
  have "(case NewFakeIPStore ''198.18.0.7/29'' of Inl _ \<Rightarrow> False
         | Inr s \<Rightarrow> Lookup (snd (Get s ''a'')) (fst (Get s ''a'')) = None)" by code_simp
  then show ?thesis by (auto split: sum.splits)
qed

end
