(* ===== verification/Socks5.thy ===== *)
theory Socks5
  imports GoNet
begin

text \<open>
  internal/outbound/socks5.go and the address helpers of connector.go: the client side of SOCKS5
  (RFC 1928) with user name and password authentication (RFC 1929) over one connection.

  A connection is what the peer will deliver (\<open>connIn\<close>, then the error \<open>connEnd\<close>), what has been
  accepted for sending (\<open>connOut\<close>), the outcomes of the coming \<open>Write\<close> calls (a short count or an
  error; past the list every \<open>Write\<close> takes all its bytes) and whether it was closed.
\<close>

section \<open>Addresses and credentials\<close>

definition splitAddress :: "string \<Rightarrow> goError + string \<times> string" where
  "splitAddress address =
     (case SplitHostPort address of
        Inl err \<Rightarrow> Inl err
      | Inr (host, portText) \<Rightarrow>
          if host = [] then Inl (ErrString ''host is required'')
          else if ContainsAny host [CHR 0x00, CHR '' '', CHR 0x09, CHR 0x0D, CHR 0x0A]
            then Inl (ErrString ''host contains invalid characters'')
          else case Atoi portText of
                 None \<Rightarrow> Inl (ErrString ''port must be an integer between 1 and 65535'')
               | Some port \<Rightarrow>
                   if port < 1 \<or> port > 65535
                   then Inl (ErrString ''port must be an integer between 1 and 65535'')
                   else Inr (host, portText))"

definition validateAddress :: "string \<Rightarrow> goError option" where
  "validateAddress address = (case splitAddress address of Inl err \<Rightarrow> Some err | Inr _ \<Rightarrow> None)"

definition validateCredentials :: "string \<Rightarrow> string \<Rightarrow> goError option" where
  "validateCredentials username password =
     (if length username > 255 \<or> length password > 255
      then Some (ErrString ''SOCKS5 credentials must not exceed 255 bytes'') else None)"

lemma splitAddress_Inr:
  assumes "splitAddress address = Inr (host, portText)"
  shows "SplitHostPort address = Inr (host, portText) \<and> host \<noteq> [] \<and>
    (\<exists>port. Atoi portText = Some port \<and> 1 \<le> port \<and> port \<le> 65535)"
  using assms by (auto simp: splitAddress_def split: sum.splits if_splits option.splits)

section \<open>The connection\<close>

record conn =
  connIn :: "byte list"
  connEnd :: goError
  connOut :: "byte list"
  connWrites :: "(int \<times> goError option) list"
  connClosed :: bool

definition connWrite :: "conn \<Rightarrow> byte list \<Rightarrow> int \<times> goError option \<times> conn" where
  "connWrite c data =
     (case connWrites c of
        [] \<Rightarrow> (int (length data), None, c\<lparr>connOut := connOut c @ data\<rparr>)
      | (n, err) # ws \<Rightarrow>
          (n, err, c\<lparr>connOut := connOut c @ take (nat n) data, connWrites := ws\<rparr>))"

definition closeConn :: "conn \<Rightarrow> conn" where
  "closeConn c = c\<lparr>connClosed := True\<rparr>"

text \<open>\<open>writeFull\<close>: a short write is retried with the rest, a write of nothing is an error.\<close>

function writeFull :: "conn \<Rightarrow> byte list \<Rightarrow> goError option \<times> conn" where
  "writeFull c data =
     (if data = [] then (None, c)
      else case connWrite c data of
             (written, Some err, c') \<Rightarrow> (Some err, c')
           | (written, None, c') \<Rightarrow>
               if written \<le> 0 then (Some ErrShortWrite, c')
               else if written > int (length data) then (Some ErrShortWrite, c')
               else writeFull c' (drop (nat written) data))"
  by pat_completeness auto
termination
  by (relation "measure (\<lambda>(c, data). length data)") (auto simp: connWrite_def split: list.splits)

declare writeFull.simps [simp del]

text \<open>\<open>io.ReadFull\<close> of \<open>n\<close> bytes and \<open>io.CopyN(io.Discard, conn, n)\<close>.\<close>

definition readFull :: "conn \<Rightarrow> nat \<Rightarrow> (goError + byte list) \<times> conn" where
  "readFull c n =
     (if n \<le> length (connIn c)
      then (Inr (take n (connIn c)), c\<lparr>connIn := drop n (connIn c)\<rparr>)
      else (Inl (if connIn c \<noteq> [] \<and> connEnd c = ErrEOF then ErrUnexpectedEOF else connEnd c),
            c\<lparr>connIn := []\<rparr>))"

definition discardN :: "conn \<Rightarrow> nat \<Rightarrow> goError option \<times> conn" where
  "discardN c n =
     (if n \<le> length (connIn c) then (None, c\<lparr>connIn := drop n (connIn c)\<rparr>)
      else (Some (connEnd c), c\<lparr>connIn := []\<rparr>))"

section \<open>The client\<close>

definition bytesOf :: "string \<Rightarrow> byte list" where
  "bytesOf s = map of_char s"

definition putUint16 :: "int \<Rightarrow> byte list" where
  "putUint16 port = [word_of_int (port div 256), word_of_int port]"

definition authRequest :: "string \<Rightarrow> string \<Rightarrow> byte list" where
  "authRequest username password =
     [1, word_of_nat (length username)] @ bytesOf username
     @ [word_of_nat (length password)] @ bytesOf password"

definition authenticate :: "conn \<Rightarrow> string \<Rightarrow> string \<Rightarrow> goError option \<times> conn" where
  "authenticate c username password =
     (case writeFull c (authRequest username password) of
        (Some err, c) \<Rightarrow>
          (Some (ErrSocks socksStageAuth ''write SOCKS5 authentication'' (Some err)), c)
      | (None, c) \<Rightarrow>
        (case readFull c 2 of
           (Inl err, c) \<Rightarrow>
             (Some (ErrSocks socksStageAuth ''read SOCKS5 authentication'' (Some err)), c)
         | (Inr response, c) \<Rightarrow>
             if response ! 0 \<noteq> 1 then
               (Some (ErrSocks socksStageAuth
                  (''invalid SOCKS5 authentication version '' @ Itoa_nat (unat (response ! 0))) None), c)
             else if response ! 1 \<noteq> 0 then
               (Some (ErrSocks socksStageAuth
                  ''SOCKS5 username/password authentication failed'' None), c)
             else (None, c)))"

definition greeting :: "string \<Rightarrow> string \<Rightarrow> byte list" where
  "greeting username password =
     (let methods = (if username \<noteq> [] \<or> password \<noteq> [] then [0, 2] else [0])
      in [5, word_of_nat (length methods)] @ methods)"

text \<open>
  \<open>handshakeWithMethodSelection\<close>: the middle component tells whether \<open>onMethodSelection\<close> was
  called, which happens once, on a reply with the right version.
\<close>

definition handshakeWithMethodSelection
    :: "conn \<Rightarrow> string \<Rightarrow> string \<Rightarrow> goError option \<times> bool \<times> conn" where
  "handshakeWithMethodSelection c username password =
     (case validateCredentials username password of
        Some err \<Rightarrow> (Some (ErrSocks socksStageAuth (errorText err) None), False, c)
      | None \<Rightarrow>
        (case writeFull c (greeting username password) of
           (Some err, c) \<Rightarrow>
             (Some (ErrSocks socksStageHandshake ''write SOCKS5 greeting'' (Some err)), False, c)
         | (None, c) \<Rightarrow>
           (case readFull c 2 of
              (Inl err, c) \<Rightarrow>
                (Some (ErrSocks socksStageHandshake ''read SOCKS5 greeting'' (Some err)), False, c)
            | (Inr response, c) \<Rightarrow>
                if response ! 0 \<noteq> 5 then
                  (Some (ErrSocks socksStageHandshake
                     (''invalid SOCKS5 greeting version '' @ Itoa_nat (unat (response ! 0))) None),
                   False, c)
                else if response ! 1 = 0 then (None, True, c)
                else if response ! 1 = 2 then
                  (if username = [] \<and> password = [] then
                     (Some (ErrSocks socksStageAuth
                        ''SOCKS5 server selected an authentication method that was not offered''
                        None), True, c)
                   else case authenticate c username password of (r, c) \<Rightarrow> (r, True, c))
                else if response ! 1 = 255 then
                  (Some (ErrSocks socksStageAuth ''SOCKS5 authentication methods rejected'' None),
                   True, c)
                else
                  (Some (ErrSocks socksStageAuth
                     (''SOCKS5 server selected unsupported authentication method ''
                      @ Itoa_nat (unat (response ! 1))) None), True, c))))"

definition handshake :: "conn \<Rightarrow> string \<Rightarrow> string \<Rightarrow> goError option \<times> conn" where
  "handshake c username password =
     (case handshakeWithMethodSelection c username password of (r, _, c) \<Rightarrow> (r, c))"

text \<open>The CONNECT request, or the error of a host name that does not fit its length byte.\<close>

definition connectRequest :: "string \<Rightarrow> int \<Rightarrow> goError + byte list" where
  "connectRequest host port =
     (case ParseIP host of
        Some ip \<Rightarrow>
          (case To4 ip of
             Some ip4 \<Rightarrow> Inr ([5, 1, 0, 1] @ ip4 @ putUint16 port)
           | None \<Rightarrow> Inr ([5, 1, 0, 4] @ ip @ putUint16 port))
      | None \<Rightarrow>
          if length host > 255
          then Inl (ErrSocks socksStageConnect ''SOCKS5 target hostname exceeds 255 bytes'' None)
          else Inr ([5, 1, 0, 3, word_of_nat (length host)] @ bytesOf host @ putUint16 port))"

text \<open>The reply: a four-byte header and a bound address, whose length the header gives.\<close>

definition readBoundAddress :: "conn \<Rightarrow> byte \<Rightarrow> goError option \<times> conn" where
  "readBoundAddress c atyp =
     (let discard = (\<lambda>c n. case discardN c (n + 2) of
            (Some err, c) \<Rightarrow>
              (Some (ErrSocks socksStageConnect ''read SOCKS5 bound address'' (Some err)), c)
          | (None, c) \<Rightarrow> (None, c)) in
      if atyp = 1 then discard c 4
      else if atyp = 3 then
        (case readFull c 1 of
           (Inl err, c) \<Rightarrow>
             (Some (ErrSocks socksStageConnect ''read SOCKS5 bound hostname length'' (Some err)), c)
         | (Inr l, c) \<Rightarrow>
             if l ! 0 = 0 then
               (Some (ErrSocks socksStageConnect ''invalid empty SOCKS5 bound hostname'' None), c)
             else discard c (unat (l ! 0)))
      else if atyp = 4 then discard c 16
      else (Some (ErrSocks socksStageConnect
              (''invalid SOCKS5 response address type '' @ Itoa_nat (unat atyp)) None), c))"

definition connectTarget :: "conn \<Rightarrow> string \<Rightarrow> goError option \<times> conn" where
  "connectTarget c target =
     (case splitAddress target of
        Inl err \<Rightarrow> (Some (ErrSocks socksStageConnect ''invalid SOCKS5 target'' (Some err)), c)
      | Inr (host, portText) \<Rightarrow>
        (case Atoi portText of
           None \<Rightarrow> (Some (ErrSocks socksStageConnect ''invalid SOCKS5 target port'' None), c)
         | Some port \<Rightarrow>
           (case connectRequest host port of
              Inl err \<Rightarrow> (Some err, c)
            | Inr request \<Rightarrow>
              (case writeFull c request of
                 (Some err, c) \<Rightarrow>
                   (Some (ErrSocks socksStageConnect ''write SOCKS5 CONNECT'' (Some err)), c)
               | (None, c) \<Rightarrow>
                 (case readFull c 4 of
                    (Inl err, c) \<Rightarrow>
                      (Some (ErrSocks socksStageConnect ''read SOCKS5 CONNECT response'' (Some err)), c)
                  | (Inr header, c) \<Rightarrow>
                      if header ! 0 \<noteq> 5 then
                        (Some (ErrSocks socksStageConnect
                           (''invalid SOCKS5 response version '' @ Itoa_nat (unat (header ! 0)))
                           None), c)
                      else if header ! 2 \<noteq> 0 then
                        (Some (ErrSocks socksStageConnect
                           (''invalid SOCKS5 reserved byte '' @ Itoa_nat (unat (header ! 2)))
                           None), c)
                      else if header ! 1 \<noteq> 0 then
                        (Some (ErrSocks socksStageConnect
                           (''SOCKS5 CONNECT failed with code '' @ Itoa_nat (unat (header ! 1)))
                           None), c)
                      else readBoundAddress c (header ! 3))))))"

text \<open>
  \<open>bindConnContext\<close> fails at once on a finished context or a refused deadline; \<open>ctx\<close> is what
  \<open>ctx.Err()\<close> returns at each of the calls, numbered in program order.
\<close>

definition bindConnContext :: "goError option \<Rightarrow> goError option \<Rightarrow> goError option" where
  "bindConnContext ctxErr deadlineErr =
     (case ctxErr of Some err \<Rightarrow> Some err | None \<Rightarrow> deadlineErr)"

definition ConnectSOCKS5 :: "(nat \<Rightarrow> goError option) \<Rightarrow> goError option \<Rightarrow> conn option \<Rightarrow>
    string \<Rightarrow> string \<Rightarrow> string \<Rightarrow> goError option \<times> conn option" where
  "ConnectSOCKS5 ctx deadlineErr mconn target username password =
     (case mconn of
        None \<Rightarrow> (Some (ErrString ''nil connection''), None)
      | Some c \<Rightarrow>
        if ctx 0 \<noteq> None then (ctx 0, Some c)
        else case bindConnContext (ctx 1) deadlineErr of
          Some err \<Rightarrow> (Some err, Some c)
        | None \<Rightarrow>
          (case handshake c username password of
             (Some err, c) \<Rightarrow> (if ctx 2 \<noteq> None then ctx 2 else Some err, Some c)
           | (None, c) \<Rightarrow>
             (case connectTarget c target of
                (Some err, c) \<Rightarrow> (if ctx 3 \<noteq> None then ctx 3 else Some err, Some c)
              | (None, c) \<Rightarrow> (None, Some c))))"

section \<open>What a write, a read and a discard do\<close>

lemma writeFull_frame:
  "writeFull c data = (r, c') \<Longrightarrow>
     connIn c' = connIn c \<and> connEnd c' = connEnd c \<and> connClosed c' = connClosed c
     \<and> (\<exists>sent. connOut c' = connOut c @ sent \<and> prefix sent data \<and> (r = None \<longrightarrow> sent = data))"
proof (induction c data arbitrary: r c' rule: writeFull.induct)
  case (1 c data)
  show ?case
  proof (cases "data = []")
    case True
    with "1.prems" show ?thesis by (simp add: writeFull.simps)
  next
    case False
    obtain n err c1 where w: "connWrite c data = (n, err, c1)" by (metis prod_cases3)
    have c1: "connIn c1 = connIn c" "connEnd c1 = connEnd c" "connClosed c1 = connClosed c"
      "connOut c1 = connOut c @ take (nat n) data"
      using w by (auto simp: connWrite_def split: list.splits)
    show ?thesis
    proof (cases "err = None \<and> 0 < n \<and> n \<le> int (length data)")
      case True
      then have rest: "writeFull c1 (drop (nat n) data) = (r, c')"
        using "1.prems" False w by (subst (asm) writeFull.simps) simp
      have "connIn c' = connIn c1 \<and> connEnd c' = connEnd c1 \<and> connClosed c' = connClosed c1
        \<and> (\<exists>sent. connOut c' = connOut c1 @ sent \<and> prefix sent (drop (nat n) data)
             \<and> (r = None \<longrightarrow> sent = drop (nat n) data))"
        using "1.IH" [OF False w [symmetric] refl _ _ _ rest] True by simp
      then obtain sent where "connOut c' = connOut c1 @ sent" "prefix sent (drop (nat n) data)"
        "r = None \<longrightarrow> sent = drop (nat n) data" and "connIn c' = connIn c1"
        "connEnd c' = connEnd c1" "connClosed c' = connClosed c1" by blast
      then show ?thesis
        using c1 by (intro conjI exI [of _ "take (nat n) data @ sent"])
          (auto simp: append_take_drop_id intro: prefix_order.trans
             dest: same_prefix_prefix [THEN iffD2, of _ _ "take (nat n) data"])
    next
      case False': False
      then have "c' = c1 \<and> r \<noteq> None"
        using "1.prems" False w
        by (subst (asm) writeFull.simps) (auto split: option.splits if_splits)
      then show ?thesis using c1 by (auto simp: take_is_prefix)
    qed
  qed
qed

text \<open>With no scripted write outcomes every write goes through.\<close>

lemma writeFull_ok [simp]:
  "connWrites c = [] \<Longrightarrow> writeFull c data = (None, c\<lparr>connOut := connOut c @ data\<rparr>)"
  by (subst writeFull.simps) (simp add: connWrite_def, subst writeFull.simps, simp)

lemma readFull_Inr:
  "readFull c n = (Inr bs, c') \<Longrightarrow>
     connIn c = bs @ connIn c' \<and> length bs = n \<and> connOut c' = connOut c \<and> connWrites c' = connWrites c
     \<and> connClosed c' = connClosed c \<and> connEnd c' = connEnd c"
  by (auto simp: readFull_def split: if_splits)

lemma readFull_Inl:
  "readFull c n = (Inl err, c') \<Longrightarrow>
     length (connIn c) < n \<and> connIn c' = [] \<and> connOut c' = connOut c \<and> connClosed c' = connClosed c"
  by (auto simp: readFull_def split: if_splits)

lemma discardN_None:
  "discardN c n = (None, c') \<Longrightarrow>
     \<exists>bs. connIn c = bs @ connIn c' \<and> length bs = n \<and> connOut c' = connOut c
       \<and> connClosed c' = connClosed c"
  unfolding discardN_def
  by (auto split: if_splits intro!: exI [of _ "take n (connIn c)"])

lemma discardN_out: "discardN c n = (r, c') \<Longrightarrow> connOut c' = connOut c \<and> connClosed c' = connClosed c"
  by (auto simp: discardN_def split: if_splits)

lemmas conn_rules = readFull_Inr readFull_Inl discardN_out

lemma two_bytes: "length bs = 2 \<Longrightarrow> bs = [bs ! 0, bs ! 1]"
  by (auto simp: numeral_eq_Suc length_Suc_conv)

lemma four_bytes: "length bs = 4 \<Longrightarrow> bs = [bs ! 0, bs ! 1, bs ! 2, bs ! 3]"
  by (auto simp: numeral_eq_Suc length_Suc_conv)

section \<open>The method negotiation\<close>

lemma authenticate_result:
  assumes "authenticate c username password = (r, c')"
  shows "connClosed c' = connClosed c
    \<and> (\<exists>sent. connOut c' = connOut c @ sent \<and> prefix sent (authRequest username password)
         \<and> (r = None \<longrightarrow> sent = authRequest username password \<and> connIn c = [1, 0] @ connIn c'))"
proof -
  obtain w c1 where w: "writeFull c (authRequest username password) = (w, c1)" by fastforce
  obtain rd c2 where rd: "readFull c1 2 = (rd, c2)" by fastforce
  note frame = writeFull_frame [OF w]
  show ?thesis
  proof (cases w)
    case (Some e)
    with assms w frame show ?thesis by (auto simp: authenticate_def)
  next
    case None
    then have out: "connOut c1 = connOut c @ authRequest username password"
      "connIn c1 = connIn c" "connClosed c1 = connClosed c" using frame by auto
    show ?thesis
    proof (cases rd)
      case (Inl e)
      with assms w rd None out readFull_Inl [of c1 2 e c2] show ?thesis
        by (auto simp: authenticate_def)
    next
      case (Inr bs)
      with rd have "connIn c1 = bs @ connIn c2 \<and> length bs = 2 \<and> connOut c2 = connOut c1
        \<and> connClosed c2 = connClosed c1" using readFull_Inr [of c1 2 bs c2] by simp
      then show ?thesis
        using assms w rd None out Inr two_bytes [of bs]
        by (auto simp: authenticate_def split: if_splits)
    qed
  qed
qed

definition hasCredentials :: "string \<Rightarrow> string \<Rightarrow> bool" where
  "hasCredentials username password \<longleftrightarrow> username \<noteq> [] \<or> password \<noteq> []"

text \<open>What the client sends and consumes in each of the two successful negotiations.\<close>

definition negotiated :: "string \<Rightarrow> string \<Rightarrow> byte list \<Rightarrow> byte list \<Rightarrow> bool" where
  "negotiated username password sent received \<longleftrightarrow>
     sent = greeting username password \<and> received = [5, 0]
     \<or> hasCredentials username password
       \<and> sent = greeting username password @ authRequest username password
       \<and> received = [5, 2, 1, 0]"

lemma handshake_result:
  assumes "handshakeWithMethodSelection c username password = (r, sel, c')"
  shows "\<exists>sent. connOut c' = connOut c @ sent \<and> connClosed c' = connClosed c
    \<and> (prefix sent (greeting username password)
       \<or> hasCredentials username password \<and> prefix [5, 2] (connIn c)
         \<and> prefix sent (greeting username password @ authRequest username password))
    \<and> (r = None \<longrightarrow> sel \<and> validateCredentials username password = None
         \<and> (\<exists>received. connIn c = received @ connIn c' \<and> negotiated username password sent received))"
proof (cases "validateCredentials username password")
  case (Some e)
  with assms show ?thesis by (auto simp: handshakeWithMethodSelection_def)
next
  case valid: None
  obtain w c1 where w: "writeFull c (greeting username password) = (w, c1)" by fastforce
  obtain rd c2 where rd: "readFull c1 2 = (rd, c2)" by fastforce
  note frame = writeFull_frame [OF w]
  show ?thesis
  proof (cases w)
    case (Some e)
    with assms w frame valid show ?thesis by (auto simp: handshakeWithMethodSelection_def)
  next
    case None
    then have out: "connOut c1 = connOut c @ greeting username password"
      "connIn c1 = connIn c" "connClosed c1 = connClosed c" using frame by auto
    show ?thesis
    proof (cases rd)
      case (Inl e)
      with assms w rd None out valid readFull_Inl [of c1 2 e c2] show ?thesis
        by (auto simp: handshakeWithMethodSelection_def)
    next
      case (Inr bs)
      with rd have c2: "connIn c1 = bs @ connIn c2" "length bs = 2" "connOut c2 = connOut c1"
        "connClosed c2 = connClosed c1" using readFull_Inr [of c1 2 bs c2] by simp_all
      show ?thesis
      proof (cases "bs ! 0 = 5 \<and> bs ! 1 = 2 \<and> hasCredentials username password")
        case True
        obtain ra c3 where auth: "authenticate c2 username password = (ra, c3)" by fastforce
        have "r = ra" "sel" "c' = c3"
          using assms w rd None valid Inr True auth
          by (auto simp: handshakeWithMethodSelection_def hasCredentials_def)
        moreover have "connIn c = [5, 2] @ connIn c2"
          using c2 out True two_bytes [of bs] by simp
        ultimately show ?thesis
          using authenticate_result [OF auth] c2 out valid True by (auto simp: negotiated_def)
      next
        case False
        then have "c' = c2 \<and> (r = None \<longrightarrow> sel \<and> bs ! 0 = 5 \<and> bs ! 1 = 0)"
          using assms w rd None valid Inr
          by (auto simp: handshakeWithMethodSelection_def hasCredentials_def split: if_splits)
        then show ?thesis
          using c2 out valid two_bytes [of bs] by (auto simp: negotiated_def)
      qed
    qed
  qed
qed

section \<open>The peer's side of the protocol\<close>

text \<open>
  What a SOCKS5 server reads, written from the RFCs and not from the client: a CONNECT request is
  the version, the command, a reserved byte, a typed address and a port.
\<close>

datatype target = TargetIP ip | TargetName string

definition stringOf :: "byte list \<Rightarrow> string" where
  "stringOf bs = map (\<lambda>b. char_of (unat b)) bs"

definition uint16 :: "byte \<Rightarrow> byte \<Rightarrow> int" where
  "uint16 hi lo = 256 * uint hi + uint lo"

definition decodeTail :: "nat \<Rightarrow> (byte list \<Rightarrow> target) \<Rightarrow> byte list \<Rightarrow> (target \<times> int) option" where
  "decodeTail n mk bs =
     (if length bs = n + 2 then Some (mk (take n bs), uint16 (bs ! n) (bs ! (n + 1))) else None)"

fun decodeRequest :: "byte list \<Rightarrow> (target \<times> int) option" where
  "decodeRequest (ver # cmd # rsv # atyp # bs) =
     (if ver \<noteq> 5 \<or> cmd \<noteq> 1 \<or> rsv \<noteq> 0 then None
      else if atyp = 1 then decodeTail 4 TargetIP bs
      else if atyp = 4 then decodeTail 16 TargetIP bs
      else if atyp = 3 \<and> bs \<noteq> [] then
        decodeTail (unat (hd bs)) (\<lambda>n. TargetName (stringOf n)) (tl bs)
      else None)"
| "decodeRequest _ = None"

text \<open>The RFC 1929 request: version 1 and two length-prefixed strings.\<close>

definition decodeAuth :: "byte list \<Rightarrow> (string \<times> string) option" where
  "decodeAuth bs =
     (case bs of
        ver # ulen # rest \<Rightarrow>
          (let u = take (unat ulen) rest; rest' = drop (unat ulen) rest in
           case rest' of
             plen # p \<Rightarrow> if ver = 1 \<and> length u = unat ulen \<and> length p = unat plen
                          then Some (stringOf u, stringOf p) else None
           | [] \<Rightarrow> None)
      | _ \<Rightarrow> None)"

text \<open>The address a host text stands for: a literal in its shortest form, or a name.\<close>

definition targetOf :: "string \<Rightarrow> target" where
  "targetOf host =
     (case ParseIP host of
        None \<Rightarrow> TargetName host
      | Some a \<Rightarrow> TargetIP (case To4 a of Some q \<Rightarrow> q | None \<Rightarrow> a))"

definition successReply :: "byte list \<Rightarrow> bool" where
  "successReply bs \<longleftrightarrow>
     take 3 bs = [5, 0, 0] \<and>
     (let rest = drop 4 bs in
      4 \<le> length bs \<and>
      (bs ! 3 = 1 \<and> length rest = 6 \<or> bs ! 3 = 4 \<and> length rest = 18
       \<or> bs ! 3 = 3 \<and> rest \<noteq> [] \<and> hd rest \<noteq> 0 \<and> length rest = unat (hd rest) + 3))"

lemma ParseIP_length: "ParseIP s = Some a \<Longrightarrow> length a = 16"
  by (auto simp: ParseIP_def To16_def bind_eq_Some_conv split: if_splits)

lemma To4_length: "To4 a = Some q \<Longrightarrow> length q = 4"
  by (auto simp: To4_def split: if_splits)

lemma unat_of_char: "unat (of_char c :: byte) = of_char c"
proof -
  have "(of_char c :: byte) = word_of_nat (of_char c)" by (simp add: of_nat_of_char)
  then show ?thesis by (simp only:) (simp add: unsigned_of_nat take_bit_nat_eq_self_iff)
qed

lemma bytesOf_inverse [simp]: "stringOf (bytesOf s) = s"
  by (induction s) (auto simp: bytesOf_def stringOf_def unat_of_char)

lemma length_bytesOf [simp]: "length (bytesOf s) = length s"
  by (simp add: bytesOf_def)

lemma unat_byte_of_nat: "n < 256 \<Longrightarrow> unat (word_of_nat n :: byte) = n"
  by (subst unsigned_of_nat) (simp add: take_bit_nat_eq_self_iff)

lemma putUint16_uint16:
  "0 \<le> port \<Longrightarrow> port \<le> 65535 \<Longrightarrow> uint16 (putUint16 port ! 0) (putUint16 port ! 1) = port"
  using div_mult_mod_eq [of port 256] zdiv_mono1 [of port 65535 256]
  by (simp add: putUint16_def uint16_def unsigned_of_int take_bit_eq_mod
      pos_imp_zdiv_nonneg_iff)

lemma length_putUint16 [simp]: "length (putUint16 port) = 2"
  by (simp add: putUint16_def)

lemma decodeTail_append:
  assumes "length a = n" and "0 \<le> port" and "port \<le> 65535"
  shows "decodeTail n mk (a @ putUint16 port) = Some (mk a, port)"
  using assms putUint16_uint16 [of port] by (simp add: decodeTail_def nth_append)

lemma connectRequest_decodes:
  assumes "connectRequest host port = Inr req" and "0 \<le> port" and "port \<le> 65535"
  shows "decodeRequest req = Some (targetOf host, port)"
proof (cases "ParseIP host")
  case None
  with assms(1) have len: "length host \<le> 255"
    and req: "req = [5, 1, 0, 3, word_of_nat (length host)] @ bytesOf host @ putUint16 port"
    by (auto simp: connectRequest_def split: if_splits)
  from len have "unat (word_of_nat (length host) :: byte) = length host"
    by (intro unat_byte_of_nat) simp
  with None assms(2,3) show ?thesis
    by (simp add: req targetOf_def decodeTail_append)
next
  case (Some a)
  then show ?thesis
    using assms ParseIP_length [OF Some] To4_length [of a]
    by (auto simp: connectRequest_def targetOf_def decodeTail_append split: option.splits)
qed

lemma authRequest_decodes:
  assumes "validateCredentials username password = None"
  shows "decodeAuth (authRequest username password) = Some (username, password)"
proof -
  have "length username < 256" "length password < 256"
    using assms by (auto simp: validateCredentials_def split: if_splits)
  then show ?thesis
    by (simp add: decodeAuth_def authRequest_def unat_byte_of_nat Let_def)
qed

section \<open>The CONNECT exchange\<close>

lemma readBoundAddress_result:
  assumes "readBoundAddress c atyp = (r, c')"
  shows "connOut c' = connOut c \<and> connClosed c' = connClosed c
    \<and> (r = None \<longrightarrow> (\<exists>bs. connIn c = bs @ connIn c' \<and> successReply ([5, 0, 0, atyp] @ bs)))"
proof -
  obtain r4 c4 where d4: "discardN c 6 = (r4, c4)" by fastforce
  obtain r6 c6 where d6: "discardN c 18 = (r6, c6)" by fastforce
  obtain rl cl where l: "readFull c 1 = (rl, cl)" by fastforce
  obtain rn cn where n: "discardN cl (unat (projr rl ! 0) + 2) = (rn, cn)" by fastforce
  consider "atyp = 1" | "atyp = 4" | err where "atyp = 3" "rl = Inl err"
    | bs where "atyp = 3" "rl = Inr bs" | "atyp \<noteq> 1" "atyp \<noteq> 3" "atyp \<noteq> 4"
    by (cases rl) blast+
  then show ?thesis
  proof cases
    case 1
    then show ?thesis
      using assms d4 discardN_out [OF d4] discardN_None [of c 6 c4]
      by (auto simp: readBoundAddress_def successReply_def split: option.splits)
  next
    case 2
    then show ?thesis
      using assms d6 discardN_out [OF d6] discardN_None [of c 18 c6]
      by (auto simp: readBoundAddress_def successReply_def split: option.splits)
  next
    case 3
    then show ?thesis
      using assms l readFull_Inl [of c 1 err cl] by (auto simp: readBoundAddress_def)
  next
    case 4
    then obtain n0 where bs: "bs = [n0]" and b: "connIn c = n0 # connIn cl" "connOut cl = connOut c"
      "connClosed cl = connClosed c"
      using l readFull_Inr [of c 1 bs cl] by (auto simp: length_Suc_conv)
    have d: "discardN cl (unat n0 + 2) = (rn, cn)" using n 4 bs by simp
    have res: "(r, c') = (if n0 = 0 then (Some (ErrSocks socksStageConnect
          ''invalid empty SOCKS5 bound hostname'' None), cl)
        else case discardN cl (unat n0 + 2) of
            (Some err, c) \<Rightarrow>
              (Some (ErrSocks socksStageConnect ''read SOCKS5 bound address'' (Some err)), c)
          | (None, c) \<Rightarrow> (None, c))"
      using assms l 4 bs by (cases "n0 = 0") (auto simp: readBoundAddress_def)
    show ?thesis
    proof (cases "n0 = 0 \<or> rn \<noteq> None")
      case True
      then show ?thesis
        using res b d discardN_out [OF d] by (auto split: if_splits)
    next
      case False
      then obtain bs' where bs': "connIn cl = bs' @ connIn cn" "length bs' = unat n0 + 2"
        using d discardN_None [of cl "unat n0 + 2" cn] by auto
      have "r = None" "c' = cn" using res d False by auto
      moreover have "successReply ([5, 0, 0, atyp] @ (n0 # bs'))"
        using False bs' 4 by (simp add: successReply_def)
      ultimately show ?thesis
        using b bs' discardN_out [OF d] by (metis append_Cons)
    qed
  next
    case 5
    then show ?thesis using assms by (auto simp: readBoundAddress_def)
  qed
qed

text \<open>The host and port that a target text names.\<close>

definition names_target :: "string \<Rightarrow> target \<Rightarrow> int \<Rightarrow> bool" where
  "names_target target t port \<longleftrightarrow>
     (\<exists>host portText. splitAddress target = Inr (host, portText) \<and> Atoi portText = Some port
        \<and> t = targetOf host)"

lemma names_target_range: "names_target target t port \<Longrightarrow> 1 \<le> port \<and> port \<le> 65535"
  by (auto simp: names_target_def dest!: splitAddress_Inr)

lemma connectTarget_result:
  assumes "connectTarget c target = (r, c')"
  shows "connClosed c' = connClosed c \<and> (\<exists>sent. connOut c' = connOut c @ sent
    \<and> (r = None \<longrightarrow> (\<exists>t port reply. names_target target t port \<and> decodeRequest sent = Some (t, port)
          \<and> connIn c = reply @ connIn c' \<and> successReply reply)))"
proof -
  consider (bad) "c' = c" "r \<noteq> None"
    | (go) host portText port req where "splitAddress target = Inr (host, portText)"
        "Atoi portText = Some port" "connectRequest host port = Inr req"
    using assms by (auto simp: connectTarget_def split: sum.splits option.splits prod.splits)
  then show ?thesis
  proof cases
    case bad
    then show ?thesis by simp
  next
    case go
    have named: "names_target target (targetOf host) port" using go by (auto simp: names_target_def)
    then have dec: "decodeRequest req = Some (targetOf host, port)"
      using connectRequest_decodes [OF go(3)] names_target_range by fastforce
    obtain w c1 where w: "writeFull c req = (w, c1)" by fastforce
    obtain rd c2 where rd: "readFull c1 4 = (rd, c2)" by fastforce
    obtain ra c3 where ra: "readBoundAddress c2 (projr rd ! 3) = (ra, c3)" by fastforce
    note frame = writeFull_frame [OF w]
    show ?thesis
    proof (cases "w = None \<and> \<not> isl rd")
      case False
      then have "r \<noteq> None \<and> (w \<noteq> None \<and> c' = c1 \<or> (\<exists>e. w = None \<and> rd = Inl e \<and> c' = c2))"
        using assms go w rd by (cases w; cases rd) (auto simp: connectTarget_def)
      then show ?thesis using frame rd readFull_Inl [of c1 4 _ c2] by auto
    next
      case True
      then obtain hd' where h: "w = None" "rd = Inr hd'" by (cases rd) auto
      then have c1: "connOut c1 = connOut c @ req" "connIn c1 = connIn c" "connClosed c1 = connClosed c"
        using frame by auto
      have c2: "connIn c1 = hd' @ connIn c2" "length hd' = 4" "connOut c2 = connOut c1"
        "connClosed c2 = connClosed c1" using rd h readFull_Inr [of c1 4 hd' c2] by simp_all
      show ?thesis
      proof (cases "hd' ! 0 = 5 \<and> hd' ! 1 = 0 \<and> hd' ! 2 = 0")
        case False
        then have "r \<noteq> None \<and> c' = c2" using assms go w rd h by (auto simp: connectTarget_def split: if_splits)
        then show ?thesis using c1 c2 by auto
      next
        case True
        then have "hd' = [5, 0, 0, hd' ! 3]" using c2(2) four_bytes [of hd'] by simp
        moreover have "r = ra" "c' = c3"
          using assms go w rd h ra True by (simp_all add: connectTarget_def)
        moreover have "readBoundAddress c2 (hd' ! 3) = (r, c')"
          using calculation ra h by simp
        ultimately show ?thesis
          using readBoundAddress_result [of c2 "hd' ! 3" r c'] c1 c2 named dec
          by (metis append.assoc)
      qed
    qed
  qed
qed

section \<open>Properties\<close>

text \<open>
  C34. Credentials leave the machine only when there are any and the server asked for them: whatever
  the server answers and however writes are cut short, the bytes sent during the negotiation are a
  prefix of the greeting (which carries no credentials), unless the server's first two bytes
  selected user name and password authentication and credentials are configured.
\<close>

theorem credentials_only_when_selected:
  assumes "handshakeWithMethodSelection c username password = (r, sel, c')"
  shows "\<exists>sent. connOut c' = connOut c @ sent \<and>
    (prefix sent (greeting username password)
     \<or> hasCredentials username password \<and> prefix [5, 2] (connIn c)
       \<and> prefix sent (greeting username password @ authRequest username password))"
  using handshake_result [OF assms] by blast

theorem credentials_only_when_selected_witness:
  "\<exists>sent. connOut (snd (snd (handshakeWithMethodSelection
       \<lparr>connIn = [5, 0], connEnd = ErrEOF, connOut = [], connWrites = [(1, None)], connClosed = False\<rparr>
       ''user'' ''pw''))) = [] @ sent \<and> prefix sent (greeting ''user'' ''pw'')"
proof -
  let ?c = "\<lparr>connIn = [5, 0], connEnd = ErrEOF, connOut = [], connWrites = [(1, None)],
    connClosed = False\<rparr> :: conn"
  let ?res = "handshakeWithMethodSelection ?c ''user'' ''pw''"
  have "?res = (fst ?res, fst (snd ?res), snd (snd ?res))" by simp
  from credentials_only_when_selected [OF this] show ?thesis by simp
qed

text \<open>
  C35. The request means the target: a server that follows the RFC decodes the bytes of the CONNECT
  request to the very host and port of the target text, for IPv4, IPv6 and named targets, and the
  authentication request to the configured user name and password.
\<close>

theorem socks_requests_decode:
  assumes "splitAddress target = Inr (host, portText)" and "Atoi portText = Some port"
    and "connectRequest host port = Inr req" and "validateCredentials username password = None"
  shows "decodeRequest req = Some (targetOf host, port)
    \<and> decodeAuth (authRequest username password) = Some (username, password)"
  using assms names_target_range [of target "targetOf host" port]
  by (auto simp: authRequest_decodes names_target_def intro!: connectRequest_decodes)

theorem socks_requests_decode_witness:
  "decodeRequest (projr (connectRequest ''a.example'' 443)) = Some (TargetName ''a.example'', 443)
   \<and> decodeAuth (authRequest ''u'' ''secret'') = Some (''u'', ''secret'')"
proof -
  have "splitAddress ''a.example:443'' = Inr (''a.example'', ''443'')" by code_simp
  moreover have "Atoi ''443'' = Some 443" by code_simp
  moreover have "connectRequest ''a.example'' 443 = Inr (projr (connectRequest ''a.example'' 443))"
    by code_simp
  moreover have "validateCredentials ''u'' ''secret'' = None" by code_simp
  ultimately have "decodeRequest (projr (connectRequest ''a.example'' 443)) = Some (targetOf ''a.example'', 443)
     \<and> decodeAuth (authRequest ''u'' ''secret'') = Some (''u'', ''secret'')"
    by (rule socks_requests_decode)
  moreover have "targetOf ''a.example'' = TargetName ''a.example''" by code_simp
  ultimately show ?thesis by simp
qed

text \<open>
  A successful \<open>ConnectSOCKS5\<close> leaves a clean tunnel to the target: it sent exactly one of the
  two negotiations followed by a request that decodes to the target, it consumed exactly the
  server's negotiation and one success reply (every later byte of the peer is still to be read),
  and the connection is open.
\<close>

theorem socks_success_clean_tunnel:
  assumes "ConnectSOCKS5 ctx deadlineErr (Some c) target username password = (None, mc)"
  shows "\<exists>c' neg received req t port reply. mc = Some c' \<and> connClosed c' = connClosed c
    \<and> connOut c' = connOut c @ neg @ req \<and> connIn c = received @ reply @ connIn c'
    \<and> negotiated username password neg received
    \<and> names_target target t port \<and> decodeRequest req = Some (t, port) \<and> successReply reply"
proof -
  obtain h c1 where h: "handshake c username password = (h, c1)" by fastforce
  obtain r c2 where t: "connectTarget c1 target = (r, c2)" by fastforce
  have ok: "h = None" "r = None" "mc = Some c2"
    using assms h t by (auto simp: ConnectSOCKS5_def split: if_splits option.splits)
  obtain sel where "handshakeWithMethodSelection c username password = (None, sel, c1)"
    using h ok by (auto simp: handshake_def split: prod.splits)
  from handshake_result [OF this] connectTarget_result [OF t] ok show ?thesis
    by (metis append.assoc)
qed

theorem socks_success_clean_tunnel_witness:
  "\<exists>c'. ConnectSOCKS5 (\<lambda>_. None) None (Some \<lparr>connIn = [5, 0, 5, 0, 0, 1, 0, 0, 0, 0, 0, 0, 42],
      connEnd = ErrEOF, connOut = [], connWrites = [(1, None)], connClosed = False\<rparr>)
      ''198.51.100.7:443'' [] [] = (None, Some c')
    \<and> (\<exists>neg received req t port reply. connOut c' = neg @ req
        \<and> [5, 0, 5, 0, 0, 1, 0, 0, 0, 0, 0, 0, 42] = received @ reply @ connIn c'
        \<and> negotiated [] [] neg received \<and> decodeRequest req = Some (t, port) \<and> successReply reply)"
proof -
  let ?c = "\<lparr>connIn = [5, 0, 5, 0, 0, 1, 0, 0, 0, 0, 0, 0, 42],
      connEnd = ErrEOF, connOut = [], connWrites = [(1, None)], connClosed = False\<rparr> :: conn"
  let ?run = "ConnectSOCKS5 (\<lambda>_. None) None (Some ?c) ''198.51.100.7:443'' [] []"
  have "fst ?run = None \<and> snd ?run \<noteq> None" by code_simp
  then obtain c' where run: "?run = (None, Some c')" by (metis option.collapse prod.collapse)
  from socks_success_clean_tunnel [OF run] show ?thesis
    using run by (auto simp del: append_assoc) blast
qed

lemma handshake_completes:
  assumes "validateCredentials username password = None" and "connWrites c = []"
    and "negotiated username password sent received" and "connIn c = received @ rest"
  shows "handshake c username password
    = (None, c\<lparr>connIn := rest, connOut := connOut c @ sent\<rparr>)"
  using assms
  by (auto simp: handshake_def handshakeWithMethodSelection_def negotiated_def authenticate_def
      readFull_def hasCredentials_def)

lemma connectTarget_completes:
  assumes "names_target target t port" and "isl (connectRequest (fst (projr (splitAddress target))) port) = False"
    and "connWrites c = []" and "successReply reply" and "connIn c = reply @ rest"
  shows "\<exists>req. connectTarget c target = (None, c\<lparr>connIn := rest, connOut := connOut c @ req\<rparr>)"
proof -
  obtain host portText req where t: "splitAddress target = Inr (host, portText)"
    "Atoi portText = Some port" "connectRequest host port = Inr req"
    using assms(1,2) by (cases "connectRequest (fst (projr (splitAddress target))) port")
      (auto simp: names_target_def)
  have len: "4 \<le> length reply" and head: "take 3 reply = [5, 0, 0]"
    using assms(4) by (auto simp: successReply_def Let_def)
  from len obtain x y z a bs where "reply = x # y # z # a # bs"
    by (auto simp: numeral_eq_Suc Suc_le_length_iff)
  with head have reply: "reply = [5, 0, 0, a] @ bs" by simp
  have bound: "readBoundAddress (c\<lparr>connOut := connOut c @ req, connIn := bs @ rest\<rparr>) a
      = (None, c\<lparr>connIn := rest, connOut := connOut c @ req\<rparr>)"
    using assms(4) unfolding reply
    by (auto simp: successReply_def readBoundAddress_def discardN_def readFull_def neq_Nil_conv)
  have "connectTarget c target = (None, c\<lparr>connIn := rest, connOut := connOut c @ req\<rparr>)"
    using t assms(3,5) bound by (simp add: connectTarget_def reply readFull_def)
  then show ?thesis by blast
qed

text \<open>
  C20. Conversely the client gets through to every server that follows the protocol: with a live
  context, a valid target and valid credentials, a peer that answers the greeting (and the
  credentials, if it asks for them) and then sends any well-formed success reply makes
  \<open>ConnectSOCKS5\<close> succeed, whatever it sends afterwards.
\<close>

theorem socks_compliant_server_succeeds:
  assumes "\<forall>i. ctx i = None" and "names_target target t port"
    and "\<not> isl (connectRequest (fst (projr (splitAddress target))) port)"
    and "validateCredentials username password = None" and "connWrites c = []"
    and "negotiated username password neg received" and "successReply reply"
    and "connIn c = received @ reply @ rest"
  shows "\<exists>req. ConnectSOCKS5 ctx None (Some c) target username password
      = (None, Some (c\<lparr>connIn := rest, connOut := connOut c @ neg @ req\<rparr>))"
proof -
  let ?c1 = "c\<lparr>connIn := reply @ rest, connOut := connOut c @ neg\<rparr>"
  have h: "handshake c username password = (None, ?c1)"
    using assms by (intro handshake_completes) auto
  obtain req where "connectTarget ?c1 target
      = (None, ?c1\<lparr>connIn := rest, connOut := connOut ?c1 @ req\<rparr>)"
    using connectTarget_completes [of target t port ?c1 reply rest] assms by auto
  with h assms(1) show ?thesis by (auto simp: ConnectSOCKS5_def bindConnContext_def)
qed

theorem socks_compliant_server_succeeds_witness:
  "\<exists>req. ConnectSOCKS5 (\<lambda>_. None) None (Some \<lparr>connIn = [5, 2, 1, 0] @ [5, 0, 0, 3, 1, 120, 0, 80] @ [42],
       connEnd = ErrEOF, connOut = [], connWrites = [], connClosed = False\<rparr>)
       ''b.test:80'' ''u'' ''p''
     = (None, Some \<lparr>connIn = [42], connEnd = ErrEOF,
          connOut = [5, 2, 0, 2, 1, 1, 117, 1, 112] @ req, connWrites = [], connClosed = False\<rparr>)"
proof -
  let ?c = "\<lparr>connIn = [5, 2, 1, 0] @ [5, 0, 0, 3, 1, 120, 0, 80] @ [42], connEnd = ErrEOF,
    connOut = [], connWrites = [], connClosed = False\<rparr> :: conn"
  have split: "splitAddress ''b.test:80'' = Inr (''b.test'', ''80'')" by code_simp
  moreover have "Atoi ''80'' = Some 80" by code_simp
  ultimately have named: "names_target ''b.test:80'' (targetOf ''b.test'') 80"
    by (simp add: names_target_def)
  have req: "\<not> isl (connectRequest (fst (projr (splitAddress ''b.test:80''))) 80)" by code_simp
  have valid: "validateCredentials ''u'' ''p'' = None" by code_simp
  have neg: "negotiated ''u'' ''p'' [5, 2, 0, 2, 1, 1, 117, 1, 112] [5, 2, 1, 0]" by code_simp
  have reply: "successReply [5, 0, 0, 3, 1, 120, 0, 80]" by code_simp
  show ?thesis
    using socks_compliant_server_succeeds [of "\<lambda>_. None" _ _ _ _ _ ?c, OF _ named req valid _ neg reply]
    by simp
qed

end
