(* ===== verification/Config.thy ===== *)
theory Config
  imports GoNet
begin

text \<open>
  internal/config/config.go: the configuration records, their defaults and their validation. Field
  names carry the initials of their struct, since records of one theory share a name space. Reading
  the file, decoding JSON and parsing URLs are arguments.
\<close>

section \<open>The records\<close>

record FrontProxy =
  fpEnabled :: bool
  fpProtocol :: string
  fpAddress :: string
  fpUsername :: string
  fpPassword :: string
  fpFailOpen :: bool

record ProxyAPI =
  paEnabled :: bool
  paURL :: string
  paCountryParam :: string
  paDurationParam :: string

record APIConfig =
  apiListen :: string
  apiClientKey :: string
  apiAdminKey :: string
  apiTrustProxy :: bool
  apiGeoIPDBPath :: string

record GatewayConfig =
  gwListen :: string
  gwTransparentProxy :: bool
  gwBlockedPorts :: "string list"
  gwDialTimeout :: duration
  gwIdleTimeout :: duration

record DNSConfig =
  dnsListen :: string
  dnsFakeIPCIDR :: string
  dnsUpstream :: string
  dnsBlockedQTyp :: "string list"

record RoutingRule =
  ruleType :: string
  ruleValue :: string
  ruleAction :: string

record RoutingConfig =
  rtEnabled :: bool
  rtGeositePath :: string
  rtDefaultAction :: string
  rtDirectDomains :: "string list"
  rtProxyDomains :: "string list"
  rtBlockDomains :: "string list"
  rtRules :: "RoutingRule list"

record HealthCheck =
  hcEnabled :: bool
  hcInterval :: duration
  hcTimeout :: duration
  hcConcurrency :: int
  hcTargetHost :: string
  hcTargetPort :: int
  hcExitIPURL :: string
  hcFailureThreshold :: int
  hcSuccessThreshold :: int

record ProxyConfig =
  pcID :: string
  pcAddress :: string
  pcUsername :: string
  pcPassword :: string

record Config =
  DBPath :: string
  LeaseTTL :: duration
  cfgHealthCheck :: HealthCheck
  cfgAPI :: APIConfig
  cfgGateway :: GatewayConfig
  cfgFrontProxy :: FrontProxy
  cfgProxyAPI :: ProxyAPI
  cfgDNS :: DNSConfig
  cfgRouting :: RoutingConfig
  cfgProxies :: "ProxyConfig list"

section \<open>Defaults\<close>

abbreviation orElse :: "'a \<Rightarrow> 'a \<Rightarrow> 'a \<Rightarrow> 'a" where
  "orElse zero d v \<equiv> (if v = zero then d else v)"

definition setDefaults :: "Config \<Rightarrow> Config" where
  "setDefaults cfg = cfg
     \<lparr>DBPath := orElse [] ''sock5gw.db'' (DBPath cfg),
      LeaseTTL := orElse 0 (24 * Hour) (LeaseTTL cfg),
      cfgAPI := (cfgAPI cfg)\<lparr>apiListen := orElse [] ''127.0.0.1:8080'' (apiListen (cfgAPI cfg))\<rparr>,
      cfgGateway := (cfgGateway cfg)
        \<lparr>gwListen := orElse [] ''0.0.0.0:15001'' (gwListen (cfgGateway cfg)),
         gwDialTimeout := orElse 0 (10 * Second) (gwDialTimeout (cfgGateway cfg)),
         gwIdleTimeout := orElse 0 (2 * Minute) (gwIdleTimeout (cfgGateway cfg))\<rparr>,
      cfgFrontProxy := (cfgFrontProxy cfg)
        \<lparr>fpProtocol := (if fpEnabled (cfgFrontProxy cfg) \<and> fpProtocol (cfgFrontProxy cfg) = []
                       then ''socks5'' else fpProtocol (cfgFrontProxy cfg))\<rparr>,
      cfgProxyAPI := (cfgProxyAPI cfg)
        \<lparr>paCountryParam := orElse [] ''region'' (paCountryParam (cfgProxyAPI cfg)),
         paDurationParam := orElse [] ''time'' (paDurationParam (cfgProxyAPI cfg))\<rparr>,
      cfgDNS := (cfgDNS cfg)
        \<lparr>dnsListen := orElse [] ''0.0.0.0:5353'' (dnsListen (cfgDNS cfg)),
         dnsFakeIPCIDR := orElse [] ''198.18.0.0/15'' (dnsFakeIPCIDR (cfgDNS cfg)),
         dnsUpstream := orElse [] ''1.1.1.1:53'' (dnsUpstream (cfgDNS cfg))\<rparr>,
      cfgRouting := (cfgRouting cfg)
        \<lparr>rtDefaultAction := orElse [] ''proxy'' (rtDefaultAction (cfgRouting cfg))\<rparr>,
      cfgHealthCheck := (cfgHealthCheck cfg)
        \<lparr>hcInterval := orElse 0 (30 * Second) (hcInterval (cfgHealthCheck cfg)),
         hcTimeout := orElse 0 (5 * Second) (hcTimeout (cfgHealthCheck cfg)),
         hcConcurrency := orElse 0 50 (hcConcurrency (cfgHealthCheck cfg)),
         hcTargetHost := orElse [] ''example.com'' (hcTargetHost (cfgHealthCheck cfg)),
         hcTargetPort := orElse 0 80 (hcTargetPort (cfgHealthCheck cfg)),
         hcExitIPURL := orElse [] ''http://api.ipify.org/'' (hcExitIPURL (cfgHealthCheck cfg)),
         hcFailureThreshold := orElse 0 3 (hcFailureThreshold (cfgHealthCheck cfg)),
         hcSuccessThreshold := orElse 0 2 (hcSuccessThreshold (cfgHealthCheck cfg))\<rparr>\<rparr>"

section \<open>Validation\<close>

definition validateRoutingAction :: "string \<Rightarrow> string \<Rightarrow> goError option" where
  "validateRoutingAction name action =
     (if action \<in> {[], ''direct'', ''proxy'', ''block''} then None
      else Some (ErrString (name @ '' must be direct, proxy, or block'')))"

definition validateFrontProxy :: "FrontProxy \<Rightarrow> goError option" where
  "validateFrontProxy front =
     (if fpFailOpen front then Some (ErrString ''front_proxy.fail_open must be false'')
      else if \<not> fpEnabled front then None
      else if fpProtocol front \<noteq> ''socks5''
        then Some (ErrString ''front_proxy.protocol must be socks5'')
      else case SplitHostPort (fpAddress front) of
        Inl err \<Rightarrow> Some (ErrWrap ''front_proxy.address'' err)
      | Inr (host, portText) \<Rightarrow>
          if host = [] \<or> ContainsAny host [CHR '' '', CHR 0x09, CHR 0x0D, CHR 0x0A]
          then Some (ErrString ''front_proxy.address host is required and must not contain whitespace'')
          else case Atoi portText of
            None \<Rightarrow> Some (ErrString ''front_proxy.address port must be an integer between 1 and 65535'')
          | Some port \<Rightarrow>
              if port < 1 \<or> port > 65535
              then Some (ErrString ''front_proxy.address port must be an integer between 1 and 65535'')
              else if length (fpUsername front) > 255
                then Some (ErrString ''front_proxy.username must not exceed 255 bytes'')
              else if length (fpPassword front) > 255
                then Some (ErrString ''front_proxy.password must not exceed 255 bytes'')
              else None)"

definition ValidateProxyAPI :: "(string \<Rightarrow> URL option) \<Rightarrow> ProxyAPI \<Rightarrow> goError option" where
  "ValidateProxyAPI parseURL proxyAPI =
     (let url = TrimSpace (paURL proxyAPI); country = TrimSpace (paCountryParam proxyAPI);
          dur = TrimSpace (paDurationParam proxyAPI) in
      if country = [] then Some (ErrString ''proxy_api.country_param is required'')
      else if dur = [] then Some (ErrString ''proxy_api.duration_param is required'')
      else if country = dur
        then Some (ErrString ''proxy_api country and duration parameters must differ'')
      else if ContainsAny (country @ dur) [CHR 0x0D, CHR 0x0A]
        then Some (ErrString ''proxy_api parameter names must not contain newlines'')
      else if url = [] then
        (if paEnabled proxyAPI then Some (ErrString ''proxy_api.url is required when enabled'')
         else None)
      else case parseURL url of
        None \<Rightarrow> Some (ErrString ''proxy_api.url must be a valid absolute URL'')
      | Some parsed \<Rightarrow>
          if urlOpaque parsed \<noteq> [] \<or> Hostname parsed = []
            then Some (ErrString ''proxy_api.url must be a valid absolute URL'')
          else if ToLower (urlScheme parsed) \<noteq> ''https''
            then Some (ErrString ''proxy_api.url must use https://'')
          else if urlUser parsed \<noteq> None
            then Some (ErrString ''proxy_api.url must not contain user info'')
          else if urlFragment parsed \<noteq> []
            then Some (ErrString ''proxy_api.url must not contain a fragment'')
          else None)"

text \<open>The loops over the routing rules and over the proxies, with the identifiers seen so far.\<close>

fun validateRules :: "nat \<Rightarrow> RoutingRule list \<Rightarrow> goError option" where
  "validateRules i [] = None"
| "validateRules i (rule # rules) =
     (case validateRoutingAction (''routing.rules['' @ Itoa_nat i @ ''].action'') (ruleAction rule) of
        Some err \<Rightarrow> Some err
      | None \<Rightarrow> validateRules (Suc i) rules)"

fun validateProxies :: "string list \<Rightarrow> ProxyConfig list \<Rightarrow> goError option" where
  "validateProxies seen [] = None"
| "validateProxies seen (p # ps) =
     (if pcID p = [] then Some (ErrString ''proxy id is required'')
      else if pcID p \<in> set seen then Some (ErrString (''duplicate proxy id '' @ Quote (pcID p)))
      else case SplitHostPort (pcAddress p) of
        Inl err \<Rightarrow> Some (ErrWrap (''proxy '' @ pcID p @ '' address'') err)
      | Inr _ \<Rightarrow> validateProxies (pcID p # seen) ps)"

definition firstError :: "goError option list \<Rightarrow> goError option" where
  "firstError es = Option.bind (List.find (\<lambda>e. e \<noteq> None) es) id"

definition validate :: "(string \<Rightarrow> URL option) \<Rightarrow> Config \<Rightarrow> goError option" where
  "validate parseURL cfg = firstError
     [if apiClientKey (cfgAPI cfg) = [] then Some (ErrString ''api.client_key is required'') else None,
      if apiAdminKey (cfgAPI cfg) = [] then Some (ErrString ''api.admin_key is required'') else None,
      case ParseCIDR (dnsFakeIPCIDR (cfgDNS cfg)) of
        Inl err \<Rightarrow> Some (ErrWrap ''dns.fake_ip_cidr'' err) | Inr _ \<Rightarrow> None,
      validateFrontProxy (cfgFrontProxy cfg),
      ValidateProxyAPI parseURL (cfgProxyAPI cfg),
      validateRoutingAction ''routing.default_action'' (rtDefaultAction (cfgRouting cfg)),
      validateRules 0 (rtRules (cfgRouting cfg)),
      validateProxies [] (cfgProxies cfg)]"

definition Load :: "(string \<Rightarrow> goError + string) \<Rightarrow> (string \<Rightarrow> goError + Config) \<Rightarrow>
    (string \<Rightarrow> URL option) \<Rightarrow> string \<Rightarrow> goError + Config" where
  "Load readFile unmarshal parseURL path =
     (case readFile path of
        Inl err \<Rightarrow> Inl err
      | Inr data \<Rightarrow>
        (case unmarshal data of
           Inl err \<Rightarrow> Inl err
         | Inr cfg \<Rightarrow>
             let cfg = setDefaults cfg in
             case validate parseURL cfg of Some err \<Rightarrow> Inl err | None \<Rightarrow> Inr cfg))"

section \<open>What a valid configuration is\<close>

definition action_ok :: "string \<Rightarrow> bool" where
  "action_ok a \<longleftrightarrow> a = [] \<or> a = ''direct'' \<or> a = ''proxy'' \<or> a = ''block''"

definition front_ok :: "FrontProxy \<Rightarrow> bool" where
  "front_ok front \<longleftrightarrow> \<not> fpFailOpen front \<and>
     (fpEnabled front \<longrightarrow> fpProtocol front = ''socks5''
        \<and> (\<exists>host portText port. SplitHostPort (fpAddress front) = Inr (host, portText)
             \<and> host \<noteq> [] \<and> set host \<inter> {CHR '' '', CHR 0x09, CHR 0x0D, CHR 0x0A} = {}
             \<and> Atoi portText = Some port \<and> 1 \<le> port \<and> port \<le> 65535)
        \<and> length (fpUsername front) \<le> 255 \<and> length (fpPassword front) \<le> 255)"

definition provider_ok :: "(string \<Rightarrow> URL option) \<Rightarrow> ProxyAPI \<Rightarrow> bool" where
  "provider_ok parseURL pa \<longleftrightarrow>
     TrimSpace (paCountryParam pa) \<noteq> [] \<and> TrimSpace (paDurationParam pa) \<noteq> []
     \<and> TrimSpace (paCountryParam pa) \<noteq> TrimSpace (paDurationParam pa)
     \<and> set (TrimSpace (paCountryParam pa) @ TrimSpace (paDurationParam pa)) \<inter> {CHR 0x0D, CHR 0x0A} = {}
     \<and> (if TrimSpace (paURL pa) = [] then \<not> paEnabled pa
        else \<exists>u. parseURL (TrimSpace (paURL pa)) = Some u \<and> urlOpaque u = [] \<and> Hostname u \<noteq> []
               \<and> ToLower (urlScheme u) = ''https'' \<and> urlUser u = None \<and> urlFragment u = [])"

definition proxies_ok :: "ProxyConfig list \<Rightarrow> bool" where
  "proxies_ok ps \<longleftrightarrow> distinct (map pcID ps)
     \<and> (\<forall>p\<in>set ps. pcID p \<noteq> [] \<and> (\<exists>hp. SplitHostPort (pcAddress p) = Inr hp))"

definition config_ok :: "(string \<Rightarrow> URL option) \<Rightarrow> Config \<Rightarrow> bool" where
  "config_ok parseURL cfg \<longleftrightarrow>
     apiClientKey (cfgAPI cfg) \<noteq> [] \<and> apiAdminKey (cfgAPI cfg) \<noteq> []
     \<and> (\<exists>r. ParseCIDR (dnsFakeIPCIDR (cfgDNS cfg)) = Inr r)
     \<and> front_ok (cfgFrontProxy cfg) \<and> provider_ok parseURL (cfgProxyAPI cfg)
     \<and> action_ok (rtDefaultAction (cfgRouting cfg))
     \<and> (\<forall>r\<in>set (rtRules (cfgRouting cfg)). action_ok (ruleAction r))
     \<and> proxies_ok (cfgProxies cfg)"

lemma validateRoutingAction_iff [simp]: "validateRoutingAction n a = None \<longleftrightarrow> action_ok a"
  by (auto simp: validateRoutingAction_def action_ok_def)

lemma ContainsAny_iff: "ContainsAny s cs \<longleftrightarrow> set s \<inter> set cs \<noteq> {}"
  by (auto simp: ContainsAny_def list_ex_iff)

lemma validateFrontProxy_iff: "validateFrontProxy f = None \<longleftrightarrow> front_ok f"
  by (auto simp: validateFrontProxy_def front_ok_def ContainsAny_iff split: sum.splits option.splits)

lemma ValidateProxyAPI_iff: "ValidateProxyAPI parseURL pa = None \<longleftrightarrow> provider_ok parseURL pa"
  by (auto simp: ValidateProxyAPI_def provider_ok_def ContainsAny_iff Let_def split: option.splits)
    (metis option.exhaust surj_pair)

lemma validateRules_iff: "validateRules i rs = None \<longleftrightarrow> (\<forall>r\<in>set rs. action_ok (ruleAction r))"
  by (induction rs arbitrary: i) simp_all

lemma validateProxies_iff:
  "validateProxies seen ps = None \<longleftrightarrow> proxies_ok ps \<and> set (map pcID ps) \<inter> set seen = {}"
  by (induction ps arbitrary: seen) (auto simp: proxies_ok_def split: sum.splits)

lemma firstError_None: "firstError es = None \<longleftrightarrow> (\<forall>e\<in>set es. e = None)"
  by (induction es) (auto simp: firstError_def)

lemma validate_iff: "validate parseURL cfg = None \<longleftrightarrow> config_ok parseURL cfg"
  by (auto simp: validate_def config_ok_def firstError_None validateFrontProxy_iff
      ValidateProxyAPI_iff validateRules_iff validateProxies_iff split: sum.splits)

lemma setDefaults_idem: "setDefaults (setDefaults cfg) = setDefaults cfg"
  by (simp add: setDefaults_def)

interpretation defaults: normaliser setDefaults
  by unfold_locales (rule setDefaults_idem)

text \<open>
  \<open>Load\<close> succeeds with \<open>cfg\<close> just when the file can be read and decoded, \<open>cfg\<close> is the decoded value with
  its defaults, and it is valid in the sense above; defaulting it again changes nothing.
\<close>

lemma Load_Inr_iff:
  "Load readFile unmarshal parseURL path = Inr cfg \<longleftrightarrow>
     (\<exists>data raw. readFile path = Inr data \<and> unmarshal data = Inr raw
        \<and> cfg = setDefaults raw \<and> setDefaults cfg = cfg \<and> config_ok parseURL cfg)"
  using validate_iff [of parseURL cfg]
  by (auto simp: Load_def Let_def setDefaults_idem split: sum.splits option.splits)

text \<open>The configuration of a file that holds nothing but the two keys, field by field.\<close>

definition onlyKeys :: Config where
  "onlyKeys =
     \<lparr>DBPath = [], LeaseTTL = 0,
      cfgHealthCheck = \<lparr>hcEnabled = False, hcInterval = 0, hcTimeout = 0, hcConcurrency = 0, hcTargetHost = [], hcTargetPort = 0,
        hcExitIPURL = [], hcFailureThreshold = 0, hcSuccessThreshold = 0\<rparr>,
      cfgAPI = \<lparr>apiListen = [], apiClientKey = ''c'', apiAdminKey = ''a'', apiTrustProxy = False, apiGeoIPDBPath = []\<rparr>,
      cfgGateway = \<lparr>gwListen = [], gwTransparentProxy = False, gwBlockedPorts = [], gwDialTimeout = 0, gwIdleTimeout = 0\<rparr>,
      cfgFrontProxy = \<lparr>fpEnabled = False, fpProtocol = [], fpAddress = [], fpUsername = [], fpPassword = [], fpFailOpen = False\<rparr>,
      cfgProxyAPI = \<lparr>paEnabled = False, paURL = [], paCountryParam = [], paDurationParam = []\<rparr>,
      cfgDNS = \<lparr>dnsListen = [], dnsFakeIPCIDR = [], dnsUpstream = [], dnsBlockedQTyp = []\<rparr>,
      cfgRouting = \<lparr>rtEnabled = False, rtGeositePath = [], rtDefaultAction = [], rtDirectDomains = [], rtProxyDomains = [],
        rtBlockDomains = [], rtRules = []\<rparr>,
      cfgProxies = []\<rparr>"

lemma only_keys_loads:
  "Load (\<lambda>_. Inr []) (\<lambda>_. Inr onlyKeys) parseURL path = Inr
     \<lparr>DBPath = ''sock5gw.db'', LeaseTTL = 86400000000000,
      cfgHealthCheck = \<lparr>hcEnabled = False, hcInterval = 30000000000, hcTimeout = 5000000000, hcConcurrency = 50,
        hcTargetHost = ''example.com'', hcTargetPort = 80, hcExitIPURL = ''http://api.ipify.org/'', hcFailureThreshold = 3,
        hcSuccessThreshold = 2\<rparr>,
      cfgAPI = \<lparr>apiListen = ''127.0.0.1:8080'', apiClientKey = ''c'', apiAdminKey = ''a'', apiTrustProxy = False, apiGeoIPDBPath = []\<rparr>,
      cfgGateway = \<lparr>gwListen = ''0.0.0.0:15001'', gwTransparentProxy = False, gwBlockedPorts = [], gwDialTimeout = 10000000000,
        gwIdleTimeout = 120000000000\<rparr>,
      cfgFrontProxy = \<lparr>fpEnabled = False, fpProtocol = [], fpAddress = [], fpUsername = [], fpPassword = [], fpFailOpen = False\<rparr>,
      cfgProxyAPI = \<lparr>paEnabled = False, paURL = [], paCountryParam = ''region'', paDurationParam = ''time''\<rparr>,
      cfgDNS = \<lparr>dnsListen = ''0.0.0.0:5353'', dnsFakeIPCIDR = ''198.18.0.0/15'', dnsUpstream = ''1.1.1.1:53'', dnsBlockedQTyp = []\<rparr>,
      cfgRouting = \<lparr>rtEnabled = False, rtGeositePath = [], rtDefaultAction = ''proxy'', rtDirectDomains = [], rtProxyDomains = [],
        rtBlockDomains = [], rtRules = []\<rparr>,
      cfgProxies = []\<rparr>"
  by code_simp

end
