(* ===== verification/Routing.thy ===== *)
theory Routing
  imports Config
begin

text \<open>
  internal/routing/routing.go: compilation of the routing configuration into an ordered rule list,
  and the decision for a target. Regular expressions, the file system and the protobuf decoder of
  geosite files are arguments: \<open>compileRegex\<close> gives the language of a pattern or an error,
  \<open>readFile\<close> the bytes of a file, \<open>unmarshal\<close> the site list they encode.
\<close>

section \<open>Rules\<close>

abbreviation ActionDirect :: string where "ActionDirect \<equiv> ''direct''"
abbreviation ActionProxy :: string where "ActionProxy \<equiv> ''proxy''"
abbreviation ActionBlock :: string where "ActionBlock \<equiv> ''block''"

type_synonym regexCompiler = "string \<Rightarrow> goError + (string \<Rightarrow> bool)"

datatype domainMatch =
    suffixMatch string
  | exactMatch string
  | keywordMatch string
  | regexMatch "string \<Rightarrow> bool"

record compiledRule =
  crAction :: string
  crMatch :: domainMatch

record Matcher =
  mEnabled :: bool
  mDef :: string
  mRules :: "compiledRule list"

fun Match :: "domainMatch \<Rightarrow> string \<Rightarrow> bool" where
  "Match (suffixMatch s) domain \<longleftrightarrow> domain = s \<or> HasSuffix domain (CHR ''.'' # s)"
| "Match (exactMatch s) domain \<longleftrightarrow> domain = s"
| "Match (keywordMatch s) domain \<longleftrightarrow> Contains domain s"
| "Match (regexMatch re) domain \<longleftrightarrow> re domain"

definition normalizeAction :: "string \<Rightarrow> string" where
  "normalizeAction action =
     (let action = ToLower (TrimSpace action) in if action = [] then ActionProxy else action)"

definition normalizeRuleType :: "string \<Rightarrow> string" where
  "normalizeRuleType typ =
     (let typ = ToLower (TrimSpace typ) in
      if typ \<in> {[], ''suffix'', ''domain'', ''domain_suffix''} then ''domain_suffix''
      else if typ \<in> {''full'', ''exact'', ''domain_exact''} then ''domain_exact''
      else typ)"

definition ruleText :: "string \<Rightarrow> string" where
  "ruleText value = TrimPrefix (ToLower (TrimSpace value)) ''.''"

definition compileRule :: "regexCompiler \<Rightarrow> string \<Rightarrow> string \<Rightarrow> string \<Rightarrow> goError + compiledRule" where
  "compileRule compileRegex action typ value =
     (let value = ruleText value; t = normalizeRuleType typ in
      if value = [] then Inl (ErrString ''routing rule value is required'')
      else if t = ''domain_suffix'' then Inr \<lparr>crAction = action, crMatch = suffixMatch value\<rparr>
      else if t = ''domain_exact'' then Inr \<lparr>crAction = action, crMatch = exactMatch value\<rparr>
      else if t = ''keyword'' then Inr \<lparr>crAction = action, crMatch = keywordMatch value\<rparr>
      else if t = ''regex'' then
        (case compileRegex value of
           Inl err \<Rightarrow> Inl err
         | Inr re \<Rightarrow> Inr \<lparr>crAction = action, crMatch = regexMatch re\<rparr>)
      else Inl (ErrString (''unsupported routing rule type '' @ Quote typ)))"

text \<open>The closure \<open>add\<close> of \<open>New\<close>, and its calls over a list of (action, type, value).\<close>

definition addRule :: "regexCompiler \<Rightarrow> string \<times> string \<times> string \<Rightarrow> goError + compiledRule" where
  "addRule compileRegex = (\<lambda>(action, typ, value).
     let action = normalizeAction action in
     if action = [] then Inl (ErrString ''routing action is required'')
     else compileRule compileRegex action typ value)"

fun addRules :: "regexCompiler \<Rightarrow> (string \<times> string \<times> string) list \<Rightarrow> goError + compiledRule list" where
  "addRules compileRegex [] = Inr []"
| "addRules compileRegex (r # rs) =
     (case addRule compileRegex r of
        Inl err \<Rightarrow> Inl err
      | Inr c \<Rightarrow> (case addRules compileRegex rs of Inl err \<Rightarrow> Inl err | Inr cs \<Rightarrow> Inr (c # cs)))"

section \<open>Geosite lists\<close>

datatype geoType = Domain_Plain | Domain_Regex | Domain_RootDomain | Domain_Full | Domain_Other int

record GeoDomain =
  geoKind :: geoType
  geoValue :: string

record GeoSite =
  geoCountryCode :: string
  geoCode :: string
  geoDomains :: "GeoDomain list"

definition geositeCode :: "string \<Rightarrow> string" where
  "geositeCode value =
     (let value = TrimPrefix (ToLower (TrimSpace value)) ''geosite:'' in
      if value = [] \<or> Contains value ''.'' then [] else value)"

definition isGeositeRule :: "RoutingRule \<Rightarrow> bool" where
  "isGeositeRule rule \<longleftrightarrow> EqualFold (TrimSpace (ruleType rule)) ''geosite''
     \<or> HasPrefix (ToLower (TrimSpace (ruleValue rule))) ''geosite:''"

fun collectGeositeActions :: "string table \<Rightarrow> string list \<Rightarrow> string \<Rightarrow> string table" where
  "collectGeositeActions dst [] action = dst"
| "collectGeositeActions dst (value # values) action =
     (let code = geositeCode value in
      collectGeositeActions (if code \<noteq> [] then put code action dst else dst) values action)"

fun collectRuleActions :: "string table \<Rightarrow> RoutingRule list \<Rightarrow> string table" where
  "collectRuleActions dst [] = dst"
| "collectRuleActions dst (rule # rules) =
     (if isGeositeRule rule then
        let code = geositeCode (ruleValue rule);
            code = (if code = [] then geositeCode (ruleType rule) else code)
        in collectRuleActions
             (if code \<noteq> [] then put code (normalizeAction (ruleAction rule)) dst else dst) rules
      else collectRuleActions dst rules)"

definition geositeActions :: "RoutingConfig \<Rightarrow> string table" where
  "geositeActions cfg =
     collectRuleActions
       (collectGeositeActions
         (collectGeositeActions
           (collectGeositeActions [] (rtDirectDomains cfg) ActionDirect)
           (rtProxyDomains cfg) ActionProxy)
         (rtBlockDomains cfg) ActionBlock)
       (rtRules cfg)"

definition geositeDomainRule :: "regexCompiler \<Rightarrow> string \<Rightarrow> GeoDomain \<Rightarrow> goError + compiledRule" where
  "geositeDomainRule compileRegex action d =
     (let value = ToLower (TrimSpace (geoValue d)) in
      if value = [] then Inl (ErrString ''empty geosite domain'')
      else case geoKind d of
        Domain_Full \<Rightarrow> Inr \<lparr>crAction = action, crMatch = exactMatch value\<rparr>
      | Domain_RootDomain \<Rightarrow> Inr \<lparr>crAction = action, crMatch = suffixMatch value\<rparr>
      | Domain_Plain \<Rightarrow> Inr \<lparr>crAction = action, crMatch = keywordMatch value\<rparr>
      | Domain_Regex \<Rightarrow>
          (case compileRegex value of
             Inl err \<Rightarrow> Inl err
           | Inr re \<Rightarrow> Inr \<lparr>crAction = action, crMatch = regexMatch re\<rparr>)
      | Domain_Other _ \<Rightarrow> Inl (ErrString ''unknown geosite domain type''))"

definition siteCode :: "GeoSite \<Rightarrow> string" where
  "siteCode site = ToLower (if geoCode site \<noteq> [] then geoCode site else geoCountryCode site)"

text \<open>A domain that does not compile is skipped; a code without an action skips its site.\<close>

definition siteRules :: "regexCompiler \<Rightarrow> string table \<Rightarrow> GeoSite \<Rightarrow> compiledRule list" where
  "siteRules compileRegex actions site =
     (case get actions (siteCode site) of
        None \<Rightarrow> []
      | Some action \<Rightarrow>
          if action = [] then []
          else List.map_filter (\<lambda>d. case geositeDomainRule compileRegex action d of
                 Inl _ \<Rightarrow> None | Inr rule \<Rightarrow> Some rule) (geoDomains site))"

definition loadGeositeRules :: "regexCompiler \<Rightarrow> (string \<Rightarrow> goError + byte list) \<Rightarrow>
    (byte list \<Rightarrow> goError + GeoSite list) \<Rightarrow> RoutingConfig \<Rightarrow> Matcher \<Rightarrow> goError + Matcher" where
  "loadGeositeRules compileRegex readFile unmarshal cfg m =
     (case readFile (rtGeositePath cfg) of
        Inl err \<Rightarrow> Inl err
      | Inr data \<Rightarrow>
        (case unmarshal data of
           Inl err \<Rightarrow> Inl err
         | Inr sites \<Rightarrow>
             let actions = geositeActions cfg in
             if actions = [] then Inr m
             else Inr (m\<lparr>mRules := mRules m @ concat (map (siteRules compileRegex actions) sites)\<rparr>)))"

section \<open>Construction and decision\<close>

definition plainRules :: "string \<Rightarrow> string list \<Rightarrow> (string \<times> string \<times> string) list" where
  "plainRules action values =
     map (\<lambda>v. (action, ''domain_suffix'', v)) (filter (\<lambda>v. geositeCode v = []) values)"

definition configuredRules :: "RoutingConfig \<Rightarrow> (string \<times> string \<times> string) list" where
  "configuredRules cfg =
     plainRules ActionDirect (rtDirectDomains cfg) @ plainRules ActionProxy (rtProxyDomains cfg)
     @ plainRules ActionBlock (rtBlockDomains cfg)
     @ map (\<lambda>r. (ruleAction r, ruleType r, ruleValue r))
         (filter (\<lambda>r. \<not> isGeositeRule r) (rtRules cfg))"

definition newMatcher :: "regexCompiler \<Rightarrow> (string \<Rightarrow> goError + byte list) \<Rightarrow>
    (byte list \<Rightarrow> goError + GeoSite list) \<Rightarrow> RoutingConfig \<Rightarrow> goError + Matcher" where
  "newMatcher compileRegex readFile unmarshal cfg =
     (let action = normalizeAction (rtDefaultAction cfg);
          m = \<lparr>mEnabled = rtEnabled cfg, mDef = (if action = [] then ActionProxy else action),
               mRules = []\<rparr> in
      if \<not> rtEnabled cfg then Inr m
      else case addRules compileRegex (configuredRules cfg) of
        Inl err \<Rightarrow> Inl err
      | Inr rules \<Rightarrow>
          let m = m\<lparr>mRules := rules\<rparr> in
          if rtGeositePath cfg \<noteq> [] then loadGeositeRules compileRegex readFile unmarshal cfg m
          else Inr m)"

definition targetDomain :: "string \<Rightarrow> string" where
  "targetDomain target =
     (let host = (case SplitHostPort target of Inl _ \<Rightarrow> target | Inr (host, _) \<Rightarrow> host);
          host = TrimSuffix (ToLower (TrimSpace host)) ''.'' in
      if host = [] \<or> ParseIP host \<noteq> None then [] else host)"

definition ActionFor :: "Matcher option \<Rightarrow> string \<Rightarrow> string" where
  "ActionFor mm target =
     (case mm of
        None \<Rightarrow> ActionProxy
      | Some m \<Rightarrow>
          if \<not> mEnabled m then ActionProxy
          else let domain = targetDomain target in
               if domain = [] then mDef m
               else case List.find (\<lambda>rule. Match (crMatch rule) domain) (mRules m) of
                      Some rule \<Rightarrow> crAction rule
                    | None \<Rightarrow> mDef m)"

section \<open>Suffix rules and labels\<close>

lemma Split_append: "Split (t @ sep # s) sep = Split t sep @ Split s sep"
  by (induction t sep rule: Split.induct) (auto simp: neq_Nil_conv split: list.splits)

lemma Join_append:
  "xs \<noteq> [] \<Longrightarrow> ys \<noteq> [] \<Longrightarrow> Join (xs @ ys) sep = Join xs sep @ sep # Join ys sep"
  by (induction xs sep rule: Join.induct) (auto simp: neq_Nil_conv)

lemma HasSuffix_dot_labels:
  "d = s \<or> HasSuffix d (sep # s) \<longleftrightarrow> suffix (Split s sep) (Split d sep)"
proof
  assume "d = s \<or> HasSuffix d (sep # s)"
  then show "suffix (Split s sep) (Split d sep)"
    by (auto simp: HasSuffix_iff Split_append suffix_def)
next
  assume "suffix (Split s sep) (Split d sep)"
  then obtain xs where xs: "Split d sep = xs @ Split s sep" by (auto elim: suffixE)
  show "d = s \<or> HasSuffix d (sep # s)"
  proof (cases "xs = []")
    case True
    with xs show ?thesis by (metis Join_Split append_Nil)
  next
    case False
    with xs have "d = Join xs sep @ sep # s" by (metis Join_Split Join_append Split_not_Nil)
    then show ?thesis by (auto simp: HasSuffix_iff)
  qed
qed

text \<open>
  A suffix rule respects label boundaries: \<open>example.com\<close> covers a domain exactly when the labels
  of the rule are the last labels of the domain, so \<open>notexample.com\<close> is not covered.
\<close>

theorem suffix_rule_matches_labels:
  "Match (suffixMatch s) domain \<longleftrightarrow> suffix (Split s (CHR ''.'')) (Split domain (CHR ''.''))"
  by (simp add: HasSuffix_dot_labels)

section \<open>The decision in terms of the configuration\<close>

definition covers :: "string \<Rightarrow> string \<Rightarrow> bool" where
  "covers value domain \<longleftrightarrow> suffix (Split (ruleText value) (CHR ''.'')) (Split domain (CHR ''.''))"

definition listed :: "string list \<Rightarrow> string \<Rightarrow> bool" where
  "listed values domain \<longleftrightarrow> (\<exists>v\<in>set values. geositeCode v = [] \<and> covers v domain)"

definition ruleCovers :: "regexCompiler \<Rightarrow> string \<Rightarrow> string \<Rightarrow> string \<Rightarrow> bool" where
  "ruleCovers compileRegex typ value domain \<longleftrightarrow>
     (let t = normalizeRuleType typ; v = ruleText value in
      t = ''domain_suffix'' \<and> covers value domain
      \<or> t = ''domain_exact'' \<and> domain = v
      \<or> t = ''keyword'' \<and> Contains domain v
      \<or> t = ''regex'' \<and> (case compileRegex v of Inl _ \<Rightarrow> False | Inr re \<Rightarrow> re domain))"

fun geoCovers :: "regexCompiler \<Rightarrow> GeoDomain \<Rightarrow> string \<Rightarrow> bool" where
  "geoCovers compileRegex d domain \<longleftrightarrow>
     (let v = ToLower (TrimSpace (geoValue d)) in v \<noteq> [] \<and>
      (case geoKind d of
         Domain_Full \<Rightarrow> domain = v
       | Domain_RootDomain \<Rightarrow> suffix (Split v (CHR ''.'')) (Split domain (CHR ''.''))
       | Domain_Plain \<Rightarrow> Contains domain v
       | Domain_Regex \<Rightarrow> (case compileRegex v of Inl _ \<Rightarrow> False | Inr re \<Rightarrow> re domain)
       | Domain_Other _ \<Rightarrow> False))"

definition geoEntries :: "string table \<Rightarrow> GeoSite list \<Rightarrow> (string \<times> GeoDomain) list" where
  "geoEntries actions sites =
     concat (map (\<lambda>site. case get actions (siteCode site) of
       None \<Rightarrow> [] | Some a \<Rightarrow> if a = [] then [] else map (Pair a) (geoDomains site)) sites)"

definition geoDecision :: "regexCompiler \<Rightarrow> RoutingConfig \<Rightarrow> GeoSite list \<Rightarrow> string \<Rightarrow> string option" where
  "geoDecision compileRegex cfg sites domain =
     map_option fst (List.find (\<lambda>(a, d). geoCovers compileRegex d domain)
       (geoEntries (geositeActions cfg) sites))"

definition decision :: "regexCompiler \<Rightarrow> RoutingConfig \<Rightarrow> GeoSite list \<Rightarrow> string \<Rightarrow> string" where
  "decision compileRegex cfg sites domain =
     (if domain = [] then normalizeAction (rtDefaultAction cfg)
      else if listed (rtDirectDomains cfg) domain then ActionDirect
      else if listed (rtProxyDomains cfg) domain then ActionProxy
      else if listed (rtBlockDomains cfg) domain then ActionBlock
      else case List.find (\<lambda>r. \<not> isGeositeRule r
                 \<and> ruleCovers compileRegex (ruleType r) (ruleValue r) domain) (rtRules cfg) of
        Some r \<Rightarrow> normalizeAction (ruleAction r)
      | None \<Rightarrow>
          (case geoDecision compileRegex cfg sites domain of
             Some a \<Rightarrow> a
           | None \<Rightarrow> normalizeAction (rtDefaultAction cfg)))"

lemma find_append:
  "List.find P (xs @ ys) = (case List.find P xs of Some x \<Rightarrow> Some x | None \<Rightarrow> List.find P ys)"
  by (induction xs) auto

lemma find_map: "List.find P (map f xs) = map_option f (List.find (P \<circ> f) xs)"
  by (induction xs) auto

lemma find_filter: "List.find P (filter Q xs) = List.find (\<lambda>x. Q x \<and> P x) xs"
  by (induction xs) auto

lemma normalizeAction_not_Nil [simp]: "normalizeAction a \<noteq> []"
  by (simp add: normalizeAction_def Let_def)

abbreviation hit :: "string \<Rightarrow> compiledRule \<Rightarrow> bool" where
  "hit domain rule \<equiv> Match (crMatch rule) domain"

lemma compileRule_hit:
  "compileRule compileRegex action typ value = Inr rule \<Longrightarrow>
     crAction rule = action \<and> (hit domain rule \<longleftrightarrow> ruleCovers compileRegex typ value domain)"
  by (auto simp: compileRule_def ruleCovers_def covers_def Let_def HasSuffix_dot_labels
      split: if_splits sum.splits)

lemma addRules_decision:
  "addRules compileRegex rs = Inr rules \<Longrightarrow>
     map_option crAction (List.find (hit domain) rules)
     = map_option (\<lambda>(a, t, v). normalizeAction a)
         (List.find (\<lambda>(a, t, v). ruleCovers compileRegex t v domain) rs)"
proof (induction rs arbitrary: rules)
  case Nil
  then show ?case by simp
next
  case (Cons r rs)
  obtain a t v where r: "r = (a, t, v)" by (cases r) auto
  from Cons.prems obtain c cs where "addRule compileRegex r = Inr c"
    "addRules compileRegex rs = Inr cs" "rules = c # cs"
    by (auto split: sum.splits)
  moreover have "compileRule compileRegex (normalizeAction a) t v = Inr c"
    using calculation(1) by (simp add: addRule_def r)
  ultimately show ?case using Cons.IH compileRule_hit [of compileRegex _ t v c domain] r by auto
qed

lemma normalizeRuleType_suffix [simp]: "normalizeRuleType ''domain_suffix'' = ''domain_suffix''"
  by code_simp

lemma ruleCovers_suffix [simp]:
  "ruleCovers compileRegex ''domain_suffix'' value domain \<longleftrightarrow> covers value domain"
  by (simp add: ruleCovers_def)

lemma find_const:
  "map_option (\<lambda>_. c) (List.find P xs) = (if \<exists>x\<in>set xs. P x then Some c else None)"
  using find_None_iff [of P xs] by (cases "List.find P xs") auto

lemma find_plainRules:
  "map_option (\<lambda>(a, t, v). normalizeAction a)
     (List.find (\<lambda>(a, t, v). ruleCovers compileRegex t v domain) (plainRules action values))
   = (if listed values domain then Some (normalizeAction action) else None)"
  by (simp add: plainRules_def find_map find_filter option.map_comp comp_def find_const listed_def)

lemma siteRules_decision:
  "map_option crAction (List.find (hit domain) (siteRules compileRegex actions site))
   = map_option fst (List.find (\<lambda>(a, d). geoCovers compileRegex d domain) (geoEntries actions [site]))"
proof (cases "get actions (siteCode site)")
  case (Some a)
  have "map_option crAction (List.find (hit domain) (List.map_filter (\<lambda>d.
      case geositeDomainRule compileRegex a d of Inl _ \<Rightarrow> None | Inr rule \<Rightarrow> Some rule) ds))
    = map_option fst (List.find (\<lambda>(a, d). geoCovers compileRegex d domain) (map (Pair a) ds))" for ds
  proof (induction ds)
    case (Cons d ds)
    then show ?case
      by (cases "geoKind d"; cases "compileRegex (ToLower (TrimSpace (geoValue d)))")
        (auto simp: geositeDomainRule_def HasSuffix_dot_labels Let_def)
  qed (simp add: List.map_filter_simps)
  with Some show ?thesis by (simp add: siteRules_def geoEntries_def)
qed (simp add: siteRules_def geoEntries_def)

lemma geoEntries_Cons: "geoEntries actions (site # sites) = geoEntries actions [site] @ geoEntries actions sites"
  by (simp add: geoEntries_def)

lemma sites_decision:
  "map_option crAction (List.find (hit domain) (concat (map (siteRules compileRegex actions) sites)))
   = map_option fst (List.find (\<lambda>(a, d). geoCovers compileRegex d domain) (geoEntries actions sites))"
proof (induction sites)
  case Nil
  then show ?case by (simp add: geoEntries_def)
next
  case (Cons site sites)
  then show ?case
    using siteRules_decision [of domain compileRegex actions site]
    by (subst geoEntries_Cons)
      (auto simp: find_append simp del: find_Some_iff split: option.splits)
qed

lemma geoEntries_Nil: "geoEntries [] sites = []"
  by (induction sites) (simp_all add: geoEntries_def)

text \<open>The sites that \<open>New\<close> consults: none without a path.\<close>

definition consulted :: "(string \<Rightarrow> goError + byte list) \<Rightarrow> (byte list \<Rightarrow> goError + GeoSite list) \<Rightarrow>
    RoutingConfig \<Rightarrow> GeoSite list \<Rightarrow> bool" where
  "consulted readFile unmarshal cfg sites \<longleftrightarrow>
     (if rtGeositePath cfg = [] then sites = []
      else \<exists>data. readFile (rtGeositePath cfg) = Inr data \<and> unmarshal data = Inr sites)"

lemma newMatcher_rules:
  assumes "newMatcher compileRegex readFile unmarshal cfg = Inr m" and "rtEnabled cfg"
  obtains rules sites where "addRules compileRegex (configuredRules cfg) = Inr rules"
    "consulted readFile unmarshal cfg sites" "mEnabled m"
    "mDef m = normalizeAction (rtDefaultAction cfg)"
    "mRules m = rules @ concat (map (siteRules compileRegex (geositeActions cfg)) sites)"
proof -
  from assms obtain rules where rules: "addRules compileRegex (configuredRules cfg) = Inr rules"
    by (auto simp: newMatcher_def Let_def split: sum.splits)
  have skip: "siteRules compileRegex [] site = []" for site by (simp add: siteRules_def)
  show ?thesis
  proof (cases "rtGeositePath cfg = []")
    case True
    then show ?thesis
      using assms rules by (intro that [of rules "[]"])
        (auto simp: newMatcher_def consulted_def Let_def)
  next
    case False
    then obtain data sites where "readFile (rtGeositePath cfg) = Inr data" "unmarshal data = Inr sites"
      using assms rules
      by (auto simp: newMatcher_def loadGeositeRules_def Let_def split: sum.splits)
    then show ?thesis
      using False assms rules by (intro that [of rules sites])
        (auto simp: newMatcher_def loadGeositeRules_def consulted_def Let_def skip split: if_splits)
  qed
qed

lemma newMatcher_decision:
  assumes "newMatcher compileRegex readFile unmarshal cfg = Inr m" and "rtEnabled cfg"
  shows "\<exists>sites. consulted readFile unmarshal cfg sites
    \<and> (\<forall>target. ActionFor (Some m) target = decision compileRegex cfg sites (targetDomain target))"
proof -
  obtain rules sites where m: "addRules compileRegex (configuredRules cfg) = Inr rules"
    "consulted readFile unmarshal cfg sites" "mEnabled m"
    "mDef m = normalizeAction (rtDefaultAction cfg)"
    "mRules m = rules @ concat (map (siteRules compileRegex (geositeActions cfg)) sites)"
    using newMatcher_rules [OF assms] by blast
  have norm: "normalizeAction ActionDirect = ActionDirect" "normalizeAction ActionProxy = ActionProxy"
    "normalizeAction ActionBlock = ActionBlock" by code_simp+
  have "ActionFor (Some m) target = decision compileRegex cfg sites (targetDomain target)" for target
  proof -
    let ?d = "targetDomain target"
    let ?P = "\<lambda>(a, t, v). ruleCovers compileRegex t v ?d" and ?f = "\<lambda>(a, t, v). normalizeAction a"
    have plain: "map_option ?f (List.find ?P (plainRules a vs))
        = (if listed vs ?d then Some (normalizeAction a) else None)" for a vs
      by (rule find_plainRules)
    have "map_option crAction (List.find (hit ?d) (mRules m))
      = (case map_option ?f (List.find ?P (configuredRules cfg)) of
           Some a \<Rightarrow> Some a | None \<Rightarrow> geoDecision compileRegex cfg sites ?d)"
      using addRules_decision [OF m(1), of ?d] sites_decision [of ?d compileRegex _ sites]
      by (auto simp: m(5) find_append geoDecision_def split: option.splits)
    then show ?thesis
      using plain [of ActionDirect "rtDirectDomains cfg"] plain [of ActionProxy "rtProxyDomains cfg"]
        plain [of ActionBlock "rtBlockDomains cfg"] m(3,4)
      by (auto simp: ActionFor_def decision_def configuredRules_def find_append find_map find_filter
          norm Let_def comp_def split: option.splits if_splits)
  qed
  with m(2) show ?thesis by blast
qed

text \<open>
  C19. The compiled matcher decides as the configuration reads. For an enabled configuration that
  compiles, the answer for any target is: the default for an IP literal or an empty host;
  otherwise \<open>direct\<close> if a plain entry of the direct list covers the domain, else \<open>proxy\<close> by the proxy
  list, else \<open>block\<close> by the block list, else the first rule that covers it, else the first covering
  geosite domain of a site with an action, else the default.
\<close>

theorem matcher_decides_as_configured:
  assumes "newMatcher compileRegex readFile unmarshal cfg = Inr m" and "rtEnabled cfg"
  shows "\<exists>sites. consulted readFile unmarshal cfg sites
    \<and> (\<forall>target. ActionFor (Some m) target = decision compileRegex cfg sites (targetDomain target))"
  using assms by (rule newMatcher_decision)

theorem matcher_decides_as_configured_witness:
  "\<exists>m. newMatcher (\<lambda>_. Inl ErrEOF) (\<lambda>_. Inr [7]) (\<lambda>_. Inr
        [\<lparr>geoCountryCode = ''CN'', geoCode = [], geoDomains =
           [\<lparr>geoKind = Domain_RootDomain, geoValue = ''Site.cn''\<rparr>]\<rparr>])
      \<lparr>rtEnabled = True, rtGeositePath = ''geo.dat'', rtDefaultAction = [],
       rtDirectDomains = [''cn'', ''.Example.com''], rtProxyDomains = [], rtBlockDomains = [''a.example.com'', ''b.net''],
       rtRules = []\<rparr> = Inr m
    \<and> ActionFor (Some m) ''a.EXAMPLE.com.:443'' = ActionDirect
    \<and> ActionFor (Some m) ''x.b.net'' = ActionBlock \<and> ActionFor (Some m) ''www.site.cn:80'' = ActionDirect
    \<and> ActionFor (Some m) ''notexample.com:1'' = ActionProxy"
proof -
  let ?site = "\<lparr>geoCountryCode = ''CN'', geoCode = [], geoDomains =
    [\<lparr>geoKind = Domain_RootDomain, geoValue = ''Site.cn''\<rparr>]\<rparr>"
  let ?cfg = "\<lparr>rtEnabled = True, rtGeositePath = ''geo.dat'', rtDefaultAction = [],
     rtDirectDomains = [''cn'', ''.Example.com''], rtProxyDomains = [], rtBlockDomains = [''a.example.com'', ''b.net''],
     rtRules = []\<rparr>"
  let ?re = "\<lambda>_. Inl ErrEOF" and ?read = "\<lambda>_. Inr [7]" and ?un = "\<lambda>_. Inr [?site]"
  have "\<not> isl (newMatcher ?re ?read ?un ?cfg)" by code_simp
  then obtain m where m: "newMatcher ?re ?read ?un ?cfg = Inr m"
    by (cases "newMatcher ?re ?read ?un ?cfg") auto
  have "rtEnabled ?cfg" by simp
  from matcher_decides_as_configured [OF m this] obtain sites where
    sites: "consulted ?read ?un ?cfg sites"
    and dec: "\<And>target. ActionFor (Some m) target = decision ?re ?cfg sites (targetDomain target)"
    by blast
  have "sites = [?site]" using sites by (simp add: consulted_def)
  moreover have "decision ?re ?cfg [?site] (targetDomain ''a.EXAMPLE.com.:443'') = ActionDirect" by code_simp
  moreover have "decision ?re ?cfg [?site] (targetDomain ''x.b.net'') = ActionBlock" by code_simp
  moreover have "decision ?re ?cfg [?site] (targetDomain ''www.site.cn:80'') = ActionDirect" by code_simp
  moreover have "decision ?re ?cfg [?site] (targetDomain ''notexample.com:1'') = ActionProxy" by code_simp
  ultimately show ?thesis using m by (intro exI [of _ m] conjI) (simp_all only: dec)
qed

section \<open>The action is one of three\<close>

definition known_action :: "string \<Rightarrow> bool" where
  "known_action a \<longleftrightarrow> a \<in> {ActionDirect, ActionProxy, ActionBlock}"

lemma normalizeAction_known: "action_ok a \<Longrightarrow> known_action (normalizeAction a)"
proof -
  have "normalizeAction [] = ActionProxy" "normalizeAction ActionDirect = ActionDirect"
    "normalizeAction ActionProxy = ActionProxy" "normalizeAction ActionBlock = ActionBlock"
    by code_simp+
  then show "action_ok a \<Longrightarrow> known_action (normalizeAction a)"
    by (auto simp: action_ok_def known_action_def)
qed

lemma known_action_simps [simp]:
  "known_action ActionDirect" "known_action ActionProxy" "known_action ActionBlock"
  by (simp_all add: known_action_def)

definition known_actions :: "string table \<Rightarrow> bool" where
  "known_actions t \<longleftrightarrow> (\<forall>k a. get t k = Some a \<longrightarrow> known_action a)"

lemma known_actions_Nil [simp]: "known_actions []"
  by (simp add: known_actions_def)

lemma known_actions_put [simp]: "known_actions t \<Longrightarrow> known_action a \<Longrightarrow> known_actions (put k a t)"
  by (simp add: known_actions_def)

lemma collectGeositeActions_known:
  "known_actions dst \<Longrightarrow> known_action action \<Longrightarrow> known_actions (collectGeositeActions dst vs action)"
  by (induction vs arbitrary: dst) (simp_all add: Let_def)

lemma collectRuleActions_known:
  "known_actions dst \<Longrightarrow> \<forall>r\<in>set rules. action_ok (ruleAction r) \<Longrightarrow>
     known_actions (collectRuleActions dst rules)"
  by (induction rules arbitrary: dst) (simp_all add: Let_def normalizeAction_known)

lemma geositeActions_known:
  "\<forall>r\<in>set (rtRules cfg). action_ok (ruleAction r) \<Longrightarrow> known_actions (geositeActions cfg)"
  unfolding geositeActions_def
  by (intro collectRuleActions_known collectGeositeActions_known) simp_all

lemma find_SomeD: "List.find P xs = Some x \<Longrightarrow> x \<in> set xs \<and> P x"
  by (auto simp: find_Some_iff)

lemma geoEntries_known:
  assumes "known_actions actions" and "(a, d) \<in> set (geoEntries actions sites)"
  shows "known_action a"
  using assms by (auto simp: geoEntries_def known_actions_def split: option.splits if_splits)

lemma geoDecision_known:
  assumes "\<forall>r\<in>set (rtRules cfg). action_ok (ruleAction r)"
    and "geoDecision compileRegex cfg sites domain = Some a"
  shows "known_action a"
  using assms(2) geoEntries_known [OF geositeActions_known [OF assms(1)]]
  by (auto simp: geoDecision_def dest!: find_SomeD)

lemma decision_known:
  assumes "action_ok (rtDefaultAction cfg)" and "\<forall>r\<in>set (rtRules cfg). action_ok (ruleAction r)"
  shows "known_action (decision compileRegex cfg sites domain)"
proof -
  have rule: "known_action (normalizeAction (ruleAction r))"
    if "List.find P (rtRules cfg) = Some r" for P r
    using that assms(2) normalizeAction_known by (auto dest!: find_SomeD)
  show ?thesis
    using assms(1) geoDecision_known [OF assms(2)] rule normalizeAction_known [of "rtDefaultAction cfg"]
    by (simp add: decision_def split: option.split)
qed

text \<open>
  C36. The gateway and the DNS server only ever see one of the three actions: whatever target they
  ask about, the matcher built from a configuration that \<open>Load\<close> accepted answers direct, proxy or
  block.
\<close>

theorem routing_action_is_known:
  assumes "Load readFile unmarshal parseURL path = Inr cfg"
    and "newMatcher compileRegex readGeo unmarshalGeo (cfgRouting cfg) = Inr m"
  shows "ActionFor (Some m) target \<in> {ActionDirect, ActionProxy, ActionBlock}"
proof (cases "rtEnabled (cfgRouting cfg)")
  case False
  with assms(2) show ?thesis by (auto simp: newMatcher_def ActionFor_def Let_def)
next
  case True
  have "validate parseURL cfg = None"
    using assms(1) by (auto simp: Load_def Let_def split: sum.splits option.splits)
  then have "config_ok parseURL cfg" by (simp add: validate_iff)
  moreover obtain sites where
    "ActionFor (Some m) target = decision compileRegex (cfgRouting cfg) sites (targetDomain target)"
    using newMatcher_decision [OF assms(2) True] by blast
  ultimately have "known_action (ActionFor (Some m) target)"
    by (simp add: config_ok_def decision_known)
  then show ?thesis by (simp add: known_action_def)
qed

theorem routing_action_is_known_witness:
  "\<exists>cfg m. Load (\<lambda>_. Inr ''{}'') (\<lambda>_. Inr
       \<lparr>DBPath = [], LeaseTTL = 0, cfgHealthCheck = \<lparr>hcEnabled = False, hcInterval = 0, hcTimeout = 0,
          hcConcurrency = 0, hcTargetHost = [], hcTargetPort = 0, hcExitIPURL = [],
          hcFailureThreshold = 0, hcSuccessThreshold = 0\<rparr>,
        cfgAPI = \<lparr>apiListen = [], apiClientKey = ''c'', apiAdminKey = ''a'', apiTrustProxy = False,
          apiGeoIPDBPath = []\<rparr>,
        cfgGateway = \<lparr>gwListen = [], gwTransparentProxy = True, gwBlockedPorts = [],
          gwDialTimeout = 0, gwIdleTimeout = 0\<rparr>,
        cfgFrontProxy = \<lparr>fpEnabled = False, fpProtocol = [], fpAddress = [], fpUsername = [],
          fpPassword = [], fpFailOpen = False\<rparr>,
        cfgProxyAPI = \<lparr>paEnabled = False, paURL = [], paCountryParam = [], paDurationParam = []\<rparr>,
        cfgDNS = \<lparr>dnsListen = [], dnsFakeIPCIDR = [], dnsUpstream = [], dnsBlockedQTyp = []\<rparr>,
        cfgRouting = \<lparr>rtEnabled = True, rtGeositePath = [], rtDefaultAction = ''block'',
          rtDirectDomains = [''a.b''], rtProxyDomains = [], rtBlockDomains = [], rtRules = []\<rparr>,
        cfgProxies = []\<rparr>) (\<lambda>_. None) ''cfg.json'' = Inr cfg
     \<and> newMatcher (\<lambda>_. Inl ErrEOF) (\<lambda>_. Inl ErrEOF) (\<lambda>_. Inl ErrEOF) (cfgRouting cfg) = Inr m
     \<and> ActionFor (Some m) ''a.b:80'' \<in> {ActionDirect, ActionProxy, ActionBlock}"
  (is "\<exists>cfg m. Load ?read ?un ?url ?path = Inr cfg \<and> newMatcher ?re ?geo ?ungeo _ = Inr m \<and> _ m")
proof -
  have "\<not> isl (Load ?read ?un ?url ?path)" by code_simp
  then obtain cfg where cfg: "Load ?read ?un ?url ?path = Inr cfg"
    by (cases "Load ?read ?un ?url ?path") auto
  have "\<not> isl (newMatcher ?re ?geo ?ungeo (cfgRouting (projr (Load ?read ?un ?url ?path))))" by code_simp
  then obtain m where m: "newMatcher ?re ?geo ?ungeo (cfgRouting cfg) = Inr m"
    unfolding cfg by (cases "newMatcher ?re ?geo ?ungeo (cfgRouting cfg)") auto
  show ?thesis using routing_action_is_known [OF cfg m] cfg m by blast
qed

text \<open>
  Rule values are lower-cased and lose a leading dot before the type is looked at. For a regular
  expression this changes the language: the complement class \<open>\D\<close> becomes the class \<open>\d\<close>, and
  \<open>.+x\<close>, a valid pattern, becomes \<open>+x\<close>, which is not one.
\<close>

lemma regex_rule_value_rewritten:
  "compileRule compileRegex a ''regex'' [CHR 0x5C, CHR ''D''] =
     compileRule compileRegex a ''regex'' [CHR 0x5C, CHR ''d'']
   \<and> compileRule compileRegex a ''regex'' ''.+x'' = compileRule compileRegex a ''regex'' ''+x''"
proof -
  have "ruleText [CHR 0x5C, CHR ''D''] = ruleText [CHR 0x5C, CHR ''d'']"
    "ruleText ''.+x'' = ruleText ''+x''" by code_simp+
  then show ?thesis by (simp add: compileRule_def)
qed

end
