(* ===== verification/Connector.thy ===== *)
theory Connector
  imports Config Socks5 "HOL-Library.Multiset"
begin

text \<open>
  internal/outbound/connector.go: the outbound connector. One shared front proxy is guarded by a
  circuit breaker that several attempts use at once; an attempt begins, runs network operations and
  is resolved by one of the recording functions. The first part models those functions, each an
  atomic section under \<open>c.mu\<close>; the second the attempts themselves; the third the circuit as a state
  machine over any interleaving of sections.

  The counters \<open>generation\<close> and \<open>resolutionSeq\<close> are \<open>uint64\<close> in the source and advance once per
  network exchange; they are natural numbers here.
\<close>

section \<open>State\<close>

record Endpoint =
  Address :: string
  Username :: string
  Password :: string

record FrontStatus =
  fsEnabled :: bool
  fsProtocol :: string
  fsAddress :: string
  fsStatus :: string
  fsLastError :: string
  fsLastCheckedAt :: time
  fsCircuitOpenUntil :: time

record FrontEvidence =
  feExitAddress :: string
  feGeneration :: nat
  feSequence :: nat
  feAt :: time

datatype frontResolution =
    frontResolutionNone | frontResolutionShared | frontResolutionAmbiguous | frontResolutionEstablished

record frontAttempt =
  atGeneration :: nat
  atHalfOpen :: bool
  atStarted :: nat

record Connector =
  front :: FrontProxy
  dnsUpstreamAddr :: string
  status :: FrontStatus
  openUntil :: time
  halfOpenInFlight :: bool
  generation :: nat
  resolutionSeq :: nat
  lastResolution :: frontResolution
  recentEvidence :: FrontEvidence
  circuitBackoff :: duration

definition defaultCircuitBackoff :: duration where
  "defaultCircuitBackoff = 5 * Second"

definition halfOpenRetryDelay :: duration where
  "halfOpenRetryDelay = 100 * Millisecond"

definition noEvidence :: FrontEvidence where
  "noEvidence = \<lparr>feExitAddress = [], feGeneration = 0, feSequence = 0, feAt = 0\<rparr>"

section \<open>Construction\<close>

definition normalizeDNSUpstream :: "string \<Rightarrow> goError + string" where
  "normalizeDNSUpstream address =
     (if \<not> isl (SplitHostPort address) then
        (case validateAddress address of
           Some err \<Rightarrow> Inl (ErrWrap ''dns upstream'' err)
         | None \<Rightarrow> Inr address)
      else if ParseIP address \<noteq> None then Inr (JoinHostPort address ''53'')
      else if Contains address '':''
        then Inl (ErrString (''dns upstream: invalid address '' @ Quote address))
      else let address = JoinHostPort address ''53'' in
        (case validateAddress address of
           Some err \<Rightarrow> Inl (ErrWrap ''dns upstream'' err)
         | None \<Rightarrow> Inr address))"

definition normalizeFront :: "FrontProxy \<Rightarrow> FrontProxy" where
  "normalizeFront f =
     (let protocol = ToLower (TrimSpace (fpProtocol f)) in
      f\<lparr>fpProtocol := (if fpEnabled f \<and> protocol = [] then ''socks5'' else protocol),
        fpAddress := TrimSpace (fpAddress f)\<rparr>)"

definition checkFront :: "FrontProxy \<Rightarrow> goError option" where
  "checkFront f =
     (if fpFailOpen f then Some (ErrString ''front proxy fail-open mode is not supported'')
      else if \<not> fpEnabled f then None
      else if fpProtocol f \<noteq> ''socks5''
        then Some (ErrString (''unsupported front proxy protocol '' @ Quote (fpProtocol f)))
      else case validateAddress (fpAddress f) of
        Some err \<Rightarrow> Some (ErrWrap ''front proxy address'' err)
      | None \<Rightarrow>
          (case validateCredentials (fpUsername f) (fpPassword f) of
             Some err \<Rightarrow> Some (ErrWrap ''front proxy credentials'' err)
           | None \<Rightarrow> None))"

definition newConnector :: "FrontProxy \<Rightarrow> string \<Rightarrow> goError + Connector" where
  "newConnector f upstream =
     (let f = normalizeFront f; upstream = TrimSpace upstream in
      case checkFront f of
        Some err \<Rightarrow> Inl err
      | None \<Rightarrow>
        (case (if upstream = [] then Inr [] else normalizeDNSUpstream upstream) of
           Inl err \<Rightarrow> Inl err
         | Inr upstream \<Rightarrow> Inr
             \<lparr>front = f, dnsUpstreamAddr = upstream,
              status = \<lparr>fsEnabled = fpEnabled f,
                        fsProtocol = (if fpEnabled f then fpProtocol f else []),
                        fsAddress = (if fpEnabled f then fpAddress f else []),
                        fsStatus = (if fpEnabled f then ''unknown'' else ''disabled''),
                        fsLastError = [], fsLastCheckedAt = 0, fsCircuitOpenUntil = 0\<rparr>,
              openUntil = 0, halfOpenInFlight = False, generation = 0, resolutionSeq = 0,
              lastResolution = frontResolutionNone, recentEvidence = noEvidence,
              circuitBackoff = defaultCircuitBackoff\<rparr>))"

section \<open>Queries\<close>

text \<open>The receivers may be nil.\<close>

definition FrontEnabled :: "Connector option \<Rightarrow> bool" where
  "FrontEnabled mc = (case mc of None \<Rightarrow> False | Some c \<Rightarrow> fpEnabled (front c))"

definition FrontStatusOf :: "Connector option \<Rightarrow> FrontStatus" where
  "FrontStatusOf mc =
     (case mc of
        None \<Rightarrow> \<lparr>fsEnabled = False, fsProtocol = [], fsAddress = [], fsStatus = ''disabled'',
                 fsLastError = [], fsLastCheckedAt = 0, fsCircuitOpenUntil = 0\<rparr>
      | Some c \<Rightarrow> if fpEnabled (front c) \<and> halfOpenInFlight c
                  then (status c)\<lparr>fsStatus := ''half_open''\<rparr> else status c)"

definition FrontRetryAfter :: "time \<Rightarrow> Connector option \<Rightarrow> duration" where
  "FrontRetryAfter now mc =
     (case mc of
        None \<Rightarrow> 0
      | Some c \<Rightarrow> if \<not> fpEnabled (front c) then 0
                  else if halfOpenInFlight c then halfOpenRetryDelay
                  else max 0 (openUntil c - now))"

definition RecentFrontEvidence :: "Connector option \<Rightarrow> FrontEvidence option" where
  "RecentFrontEvidence mc =
     (case mc of
        None \<Rightarrow> None
      | Some c \<Rightarrow> if \<not> fpEnabled (front c) then None
                  else if feSequence (recentEvidence c) = 0
                          \<or> feGeneration (recentEvidence c) \<noteq> generation c then None
                  else Some (recentEvidence c))"

section \<open>The atomic sections\<close>

definition publicFrontError :: "phase \<Rightarrow> string" where
  "publicFrontError p =
     (case p of
        PhaseFrontDial \<Rightarrow> ''front proxy dial failed''
      | PhaseFrontAuth \<Rightarrow> ''front proxy authentication failed''
      | PhaseFrontHandshake \<Rightarrow> ''front proxy handshake failed''
      | PhaseFrontConnectExit \<Rightarrow> ''front proxy could not connect to exit''
      | PhaseFrontConnectTarget \<Rightarrow> ''front proxy could not reach test target''
      | _ \<Rightarrow> ''front proxy failed'')"

definition circuitError :: "string \<Rightarrow> goError" where
  "circuitError s = newPhaseError PhaseFrontCircuit (ErrString s)"

definition beginFrontAttempt :: "time \<Rightarrow> Connector \<Rightarrow> (goError + frontAttempt) \<times> Connector" where
  "beginFrontAttempt now c =
     (if now < openUntil c then (Inl (circuitError ''front proxy circuit is open''), c)
      else if openUntil c \<noteq> 0 then
        (if halfOpenInFlight c
         then (Inl (circuitError ''front proxy recovery probe is already running''), c)
         else (Inr \<lparr>atGeneration = generation c, atHalfOpen = True, atStarted = resolutionSeq c\<rparr>,
               c\<lparr>halfOpenInFlight := True, status := (status c)\<lparr>fsStatus := ''half_open''\<rparr>\<rparr>))
      else (Inr \<lparr>atGeneration = generation c, atHalfOpen = False, atStarted = resolutionSeq c\<rparr>, c))"

definition openCircuit :: "time \<Rightarrow> string \<Rightarrow> Connector \<Rightarrow> Connector" where
  "openCircuit now lastError c =
     c\<lparr>generation := generation c + 1, resolutionSeq := resolutionSeq c + 1,
       lastResolution := frontResolutionShared, openUntil := now + circuitBackoff c,
       halfOpenInFlight := False,
       status := (status c)\<lparr>fsStatus := ''unhealthy'', fsLastCheckedAt := now,
                            fsCircuitOpenUntil := now + circuitBackoff c, fsLastError := lastError\<rparr>\<rparr>"

definition recordFrontFailure :: "time \<Rightarrow> frontAttempt \<Rightarrow> phase \<Rightarrow> Connector \<Rightarrow> Connector" where
  "recordFrontFailure now a p c =
     (if atGeneration a \<noteq> generation c then c else openCircuit now (publicFrontError p) c)"

definition recordFrontSuccess ::
    "time \<Rightarrow> frontAttempt \<Rightarrow> string \<Rightarrow> Connector \<Rightarrow> FrontToken option \<times> Connector" where
  "recordFrontSuccess now a exitAddress c =
     (if atGeneration a \<noteq> generation c then (None, c)
      else let s = resolutionSeq c + 1; token = \<lparr>Generation = generation c, Sequence = s\<rparr> in
        (Some token,
         c\<lparr>resolutionSeq := s, lastResolution := frontResolutionEstablished,
           recentEvidence := \<lparr>feExitAddress = exitAddress, feGeneration = generation c,
                              feSequence = s, feAt = now\<rparr>,
           openUntil := 0, halfOpenInFlight := False,
           status := (status c)\<lparr>fsStatus := ''healthy'', fsLastCheckedAt := now,
                                fsCircuitOpenUntil := 0, fsLastError := []\<rparr>\<rparr>))"

definition recordFrontAmbiguous ::
    "time \<Rightarrow> frontAttempt \<Rightarrow> Connector \<Rightarrow> FrontToken option \<times> Connector" where
  "recordFrontAmbiguous now a c =
     (if atGeneration a \<noteq> generation c then (None, c)
      else if feGeneration (recentEvidence c) = atGeneration a
              \<and> feSequence (recentEvidence c) > atStarted a then (None, c)
      else let s = resolutionSeq c + 1; token = \<lparr>Generation = generation c, Sequence = s\<rparr> in
        (Some token,
         c\<lparr>resolutionSeq := s, lastResolution := frontResolutionAmbiguous,
           openUntil := 0, halfOpenInFlight := False,
           status := (status c)\<lparr>fsStatus := ''unknown'', fsLastCheckedAt := now,
             fsCircuitOpenUntil := 0, fsLastError := publicFrontError PhaseFrontConnectExit\<rparr>\<rparr>))"

definition RecordAmbiguousBatchFailure ::
    "time \<Rightarrow> FrontToken \<Rightarrow> FrontToken \<Rightarrow> Connector \<Rightarrow> bool \<times> Connector" where
  "RecordAmbiguousBatchFailure now first final c =
     (if \<not> fpEnabled (front c) then (False, c)
      else if Sequence first = 0 \<or> Sequence final = 0 \<or> Generation first \<noteq> Generation final
              \<or> Generation first \<noteq> generation c \<or> Sequence first > Sequence final
              \<or> Sequence final \<noteq> resolutionSeq c \<or> lastResolution c \<noteq> frontResolutionAmbiguous
        then (False, c)
      else if feGeneration (recentEvidence c) = generation c
              \<and> feSequence (recentEvidence c) > Sequence first then (False, c)
      else (True, openCircuit now ''front proxy could not connect to any candidate exit'' c))"

definition abandonFrontAttempt :: "time \<Rightarrow> frontAttempt \<Rightarrow> Connector \<Rightarrow> Connector" where
  "abandonFrontAttempt now a c =
     (if \<not> atHalfOpen a then c
      else if atGeneration a \<noteq> generation c \<or> \<not> halfOpenInFlight c then c
      else c\<lparr>halfOpenInFlight := False, openUntil := now + circuitBackoff c,
             status := (status c)\<lparr>fsStatus := ''unhealthy'',
                                  fsCircuitOpenUntil := now + circuitBackoff c\<rparr>\<rparr>)"

lemmas [section_defs] = beginFrontAttempt_def openCircuit_def recordFrontFailure_def
  recordFrontSuccess_def recordFrontAmbiguous_def RecordAmbiguousBatchFailure_def
  abandonFrontAttempt_def Let_def

section \<open>Network operations\<close>

text \<open>
  One call of \<open>Connect\<close> or \<open>ConnectFront\<close> is a run over its environment: what \<open>ctx.Err()\<close> returns at
  each of the places that ask (a finished context need not be finished earlier), the outcomes of
  name resolution (through the configured upstream) and of the dials, whether the deadline can be
  set, the instants at which the attempt begins and is resolved, and what other goroutines do to the
  connector in between. A dialled connection is a script of the peer, as in \<open>Socks5\<close>.
\<close>

datatype stage = StDial | StBind | StFrontHandshake | StFrontConnect | StExitHandshake | StExitConnect

datatype ctxPoint = Entry | DialLoop nat | BindCheck | CancelCheck stage | Cause stage

record connectEnv =
  ctxErr :: "ctxPoint \<Rightarrow> goError option"
  resolveHost :: "string \<Rightarrow> string \<Rightarrow> goError + ip list"
  dial :: "nat \<Rightarrow> string \<Rightarrow> goError + conn"
  deadlineErr :: "goError option"
  beginAt :: time
  resolveAt :: time
  others :: "Connector \<Rightarrow> Connector"

definition cancelled :: "connectEnv \<Rightarrow> stage \<Rightarrow> bool" where
  "cancelled env st \<longleftrightarrow> ctxErr env (CancelCheck st) = Some ErrCanceled"

definition contextCause :: "connectEnv \<Rightarrow> stage \<Rightarrow> goError \<Rightarrow> goError" where
  "contextCause env st fallback = (case ctxErr env (Cause st) of Some err \<Rightarrow> err | None \<Rightarrow> fallback)"

fun dialResolved :: "connectEnv \<Rightarrow> string \<Rightarrow> string \<Rightarrow> nat \<Rightarrow> ip list \<Rightarrow> goError option \<Rightarrow> goError + conn" where
  "dialResolved env host port k [] lastErr =
     (case lastErr of Some err \<Rightarrow> Inl err
      | None \<Rightarrow> Inl (ErrString (''no usable addresses for '' @ host)))"
| "dialResolved env host port k (a # as) lastErr =
     (case ctxErr env (DialLoop k) of
        Some err \<Rightarrow> Inl err
      | None \<Rightarrow>
        (case To4 a of
           None \<Rightarrow> dialResolved env host port (Suc k) as lastErr
         | Some ip4 \<Rightarrow>
           (case dial env k (JoinHostPort (ipString ip4) port) of
              Inr conn \<Rightarrow> Inr conn
            | Inl err \<Rightarrow> dialResolved env host port (Suc k) as (Some err))))"

definition dialAddress :: "connectEnv \<Rightarrow> Connector \<Rightarrow> string \<Rightarrow> goError + conn" where
  "dialAddress env c address =
     (case splitAddress address of
        Inl err \<Rightarrow> Inl err
      | Inr (host, port) \<Rightarrow>
          if ParseIP host \<noteq> None \<or> dnsUpstreamAddr c = [] then dial env 0 address
          else case resolveHost env (dnsUpstreamAddr c) host of
            Inl err \<Rightarrow> Inl (ErrWrap (''resolve '' @ host) err)
          | Inr addresses \<Rightarrow> dialResolved env host port 0 addresses None)"

definition frontHandshakePhase :: "goError \<Rightarrow> phase" where
  "frontHandshakePhase err = (if isSOCKSAuthError err then PhaseFrontAuth else PhaseFrontHandshake)"

definition exitHandshakePhase :: "goError \<Rightarrow> phase" where
  "exitHandshakePhase err = (if isSOCKSAuthError err then PhaseExitAuth else PhaseExitHandshake)"

text \<open>
  A run returns the connection or an error, the connector and the connection it opened, if any,
  in its final state.
\<close>

type_synonym run = "(goError + conn) \<times> Connector \<times> conn option"

definition bindResult :: "connectEnv \<Rightarrow> goError option" where
  "bindResult env = bindConnContext (ctxErr env BindCheck) (deadlineErr env)"

definition connectDirect :: "connectEnv \<Rightarrow> Connector \<Rightarrow> Endpoint \<Rightarrow> string \<Rightarrow> run" where
  "connectDirect env c exit target =
     (let fails = (\<lambda>st p err opened.
            (if cancelled env st then Inl ErrCanceled else Inl (newPhaseError p (contextCause env st err)),
             c, opened)) in
      case dialAddress env c (Address exit) of
        Inl err \<Rightarrow> fails StDial PhaseExitDial err None
      | Inr conn \<Rightarrow>
        (case bindResult env of
           Some err \<Rightarrow> fails StBind PhaseExitHandshake err (Some (closeConn conn))
         | None \<Rightarrow>
           (case handshake conn (Username exit) (Password exit) of
              (Some err, conn) \<Rightarrow>
                fails StExitHandshake (exitHandshakePhase err) err (Some (closeConn conn))
            | (None, conn) \<Rightarrow>
              (case connectTarget conn target of
                 (Some err, conn) \<Rightarrow> fails StExitConnect PhaseExitConnect err (Some (closeConn conn))
               | (None, conn) \<Rightarrow> (Inr conn, c, Some conn)))))"

text \<open>The ways an attempt through the front ends before the exit has answered.\<close>

definition frontFails :: "connectEnv \<Rightarrow> Connector \<Rightarrow> frontAttempt \<Rightarrow> stage \<Rightarrow> phase \<Rightarrow> goError
    \<Rightarrow> conn option \<Rightarrow> run" where
  "frontFails env c a st p err opened =
     (if cancelled env st
      then (Inl ErrCanceled, abandonFrontAttempt (resolveAt env) a c, opened)
      else (Inl (newPhaseError p (contextCause env st err)),
            recordFrontFailure (resolveAt env) a p c, opened))"

definition frontAmbiguous :: "connectEnv \<Rightarrow> Connector \<Rightarrow> frontAttempt \<Rightarrow> stage \<Rightarrow> goError
    \<Rightarrow> conn option \<Rightarrow> run" where
  "frontAmbiguous env c a st err opened =
     (if cancelled env st
      then (Inl ErrCanceled, abandonFrontAttempt (resolveAt env) a c, opened)
      else case recordFrontAmbiguous (resolveAt env) a c of
        (token, c) \<Rightarrow>
          (Inl (ErrPhase PhaseFrontConnectExit (scopeForPhase PhaseFrontConnectExit) False
             (case token of Some t \<Rightarrow> t | None \<Rightarrow> noToken) (Some (contextCause env st err))),
           c, opened))"

text \<open>Once the exit has selected a method, later failures belong to the exit.\<close>

definition exitFails :: "connectEnv \<Rightarrow> Connector \<Rightarrow> FrontToken \<Rightarrow> stage \<Rightarrow> phase \<Rightarrow> goError
    \<Rightarrow> conn option \<Rightarrow> run" where
  "exitFails env c token st p err opened =
     (if cancelled env st then (Inl ErrCanceled, c, opened)
      else (Inl (newEstablishedPhaseError p token (contextCause env st err)), c, opened))"

definition connectThroughFront :: "connectEnv \<Rightarrow> Connector \<Rightarrow> Endpoint \<Rightarrow> string \<Rightarrow> run" where
  "connectThroughFront env c exit target =
     (case beginFrontAttempt (beginAt env) c of
        (Inl err, c) \<Rightarrow> (Inl err, c, None)
      | (Inr a, c) \<Rightarrow>
        (let c = others env c in
         case dialAddress env c (fpAddress (front c)) of
           Inl err \<Rightarrow> frontFails env c a StDial PhaseFrontDial err None
         | Inr conn \<Rightarrow>
           (case bindResult env of
              Some err \<Rightarrow> frontFails env c a StBind PhaseFrontHandshake err (Some (closeConn conn))
            | None \<Rightarrow>
              (case handshake conn (fpUsername (front c)) (fpPassword (front c)) of
                 (Some err, conn) \<Rightarrow>
                   frontFails env c a StFrontHandshake (frontHandshakePhase err) err (Some (closeConn conn))
               | (None, conn) \<Rightarrow>
                 (case connectTarget conn (Address exit) of
                    (Some err, conn) \<Rightarrow>
                      frontAmbiguous env c a StFrontConnect err (Some (closeConn conn))
                  | (None, conn) \<Rightarrow>
                    (case handshakeWithMethodSelection conn (Username exit) (Password exit) of
                       (Some err, False, conn) \<Rightarrow>
                         frontAmbiguous env c a StExitHandshake err (Some (closeConn conn))
                     | (r, _, conn) \<Rightarrow>
                       (case recordFrontSuccess (resolveAt env) a (Address exit) c of
                          (mtoken, c) \<Rightarrow>
                            let token = (case mtoken of Some t \<Rightarrow> t | None \<Rightarrow> noToken) in
                            (case r of
                               Some err \<Rightarrow> exitFails env c token StExitHandshake
                                 (exitHandshakePhase err) err (Some (closeConn conn))
                             | None \<Rightarrow>
                               (case connectTarget conn target of
                                  (Some err, conn) \<Rightarrow> exitFails env c token StExitConnect
                                    PhaseExitConnect err (Some (closeConn conn))
                                | (None, conn) \<Rightarrow> (Inr conn, c, Some conn))))))))))"

definition Connect :: "connectEnv \<Rightarrow> Connector option \<Rightarrow> Endpoint \<Rightarrow> string
    \<Rightarrow> (goError + conn) \<times> Connector option \<times> conn option" where
  "Connect env mc exit target =
     (case mc of
        None \<Rightarrow> (Inl (ErrString ''nil outbound connector''), None, None)
      | Some c \<Rightarrow>
          let refuse = (\<lambda>err. (Inl err, Some c, None)) in
          case ctxErr env Entry of
            Some err \<Rightarrow> refuse err
          | None \<Rightarrow>
            (case validateAddress (Address exit) of
               Some err \<Rightarrow> refuse (newPhaseError PhaseExitDial err)
             | None \<Rightarrow>
               (case validateCredentials (Username exit) (Password exit) of
                  Some err \<Rightarrow> refuse (newPhaseError PhaseExitAuth err)
                | None \<Rightarrow>
                  (case validateAddress target of
                     Some err \<Rightarrow> refuse (newPhaseError PhaseExitConnect err)
                   | None \<Rightarrow>
                     (case (if fpEnabled (front c) then connectThroughFront env c exit target
                            else connectDirect env c exit target) of
                        (r, c, opened) \<Rightarrow> (r, Some c, opened))))))"

definition ConnectFront :: "connectEnv \<Rightarrow> Connector option \<Rightarrow> string
    \<Rightarrow> (goError + conn) \<times> Connector option \<times> conn option" where
  "ConnectFront env mc target =
     (case mc of
        None \<Rightarrow> (Inl (ErrString ''nil outbound connector''), None, None)
      | Some c \<Rightarrow>
          let refuse = (\<lambda>err. (Inl err, Some c, None)); run = (\<lambda>(r, c, opened). (r, Some c, opened)) in
          case ctxErr env Entry of
            Some err \<Rightarrow> refuse err
          | None \<Rightarrow>
            if \<not> fpEnabled (front c) then refuse (ErrString ''front proxy is disabled'')
            else case validateAddress target of
              Some err \<Rightarrow> refuse (newPhaseError PhaseFrontConnectTarget err)
            | None \<Rightarrow>
              (case beginFrontAttempt (beginAt env) c of
                 (Inl err, c) \<Rightarrow> (Inl err, Some c, None)
               | (Inr a, c) \<Rightarrow>
                 (let c = others env c in
                  case dialAddress env c (fpAddress (front c)) of
                    Inl err \<Rightarrow> run (frontFails env c a StDial PhaseFrontDial err None)
                  | Inr conn \<Rightarrow>
                    (case bindResult env of
                       Some err \<Rightarrow> run (frontFails env c a StBind PhaseFrontHandshake err
                                          (Some (closeConn conn)))
                     | None \<Rightarrow>
                       (case handshake conn (fpUsername (front c)) (fpPassword (front c)) of
                          (Some err, conn) \<Rightarrow> run (frontFails env c a StFrontHandshake
                            (frontHandshakePhase err) err (Some (closeConn conn)))
                        | (None, conn) \<Rightarrow>
                          (case connectTarget conn target of
                             (Some err, conn) \<Rightarrow> run (frontFails env c a StFrontConnect
                               PhaseFrontConnectTarget err (Some (closeConn conn)))
                           | (None, conn) \<Rightarrow>
                             (case recordFrontSuccess (resolveAt env) a target c of
                                (None, c) \<Rightarrow>
                                  (Inl (circuitError ''front proxy probe was superseded''), Some c,
                                   Some (closeConn conn))
                              | (Some _, c) \<Rightarrow> (Inr conn, Some c, Some conn))))))))"

section \<open>The circuit as a state machine\<close>

text \<open>
  Any number of goroutines run attempts at once, so the sections interleave arbitrarily. A state is
  the connector, the attempts that have begun and are not resolved, and a clock that never goes
  back.
\<close>

record circState =
  cConn :: Connector
  cFlights :: "frontAttempt multiset"
  cClock :: time

inductive circ_step :: "circState \<Rightarrow> circState \<Rightarrow> bool" where
  begin_ok:
    "cClock s \<le> now \<Longrightarrow> beginFrontAttempt now (cConn s) = (Inr a, c) \<Longrightarrow>
     circ_step s \<lparr>cConn = c, cFlights = add_mset a (cFlights s), cClock = now\<rparr>"
| begin_refused:
    "cClock s \<le> now \<Longrightarrow> beginFrontAttempt now (cConn s) = (Inl err, c) \<Longrightarrow>
     circ_step s \<lparr>cConn = c, cFlights = cFlights s, cClock = now\<rparr>"
| failure:
    "cClock s \<le> now \<Longrightarrow> a \<in># cFlights s \<Longrightarrow>
     circ_step s \<lparr>cConn = recordFrontFailure now a p (cConn s),
                  cFlights = cFlights s - {#a#}, cClock = now\<rparr>"
| success:
    "cClock s \<le> now \<Longrightarrow> a \<in># cFlights s \<Longrightarrow>
     circ_step s \<lparr>cConn = snd (recordFrontSuccess now a exit (cConn s)),
                  cFlights = cFlights s - {#a#}, cClock = now\<rparr>"
| ambiguous:
    "cClock s \<le> now \<Longrightarrow> a \<in># cFlights s \<Longrightarrow>
     circ_step s \<lparr>cConn = snd (recordFrontAmbiguous now a (cConn s)),
                  cFlights = cFlights s - {#a#}, cClock = now\<rparr>"
| abandon:
    "cClock s \<le> now \<Longrightarrow> a \<in># cFlights s \<Longrightarrow>
     circ_step s \<lparr>cConn = abandonFrontAttempt now a (cConn s),
                  cFlights = cFlights s - {#a#}, cClock = now\<rparr>"
| batch:
    "cClock s \<le> now \<Longrightarrow>
     circ_step s \<lparr>cConn = snd (RecordAmbiguousBatchFailure now first final (cConn s)),
                  cFlights = cFlights s, cClock = now\<rparr>"

inductive_cases circ_stepE: "circ_step s t"

definition circ_start :: "circState \<Rightarrow> bool" where
  "circ_start s \<longleftrightarrow> (\<exists>f upstream. newConnector f upstream = Inr (cConn s)) \<and> cFlights s = {#} \<and> 0 < cClock s"

text \<open>The half-open attempts of the current generation.\<close>

definition openProbes :: "Connector \<Rightarrow> frontAttempt multiset \<Rightarrow> frontAttempt multiset" where
  "openProbes c fl = filter_mset (\<lambda>a. atGeneration a = generation c \<and> atHalfOpen a) fl"

text \<open>
  The invariant: counters bound what they have handed out; the probe flag is set exactly while one
  half-open attempt of the current generation is unresolved; while the circuit is open no other
  attempt of the generation is, and no evidence is newer than that probe's start.
\<close>

definition circ_inv :: "circState \<Rightarrow> bool" where
  "circ_inv s \<longleftrightarrow>
     (let c = cConn s in
      0 < cClock s \<and> 0 \<le> circuitBackoff c
      \<and> (\<forall>a\<in>#cFlights s. atGeneration a \<le> generation c \<and> atStarted a \<le> resolutionSeq c)
      \<and> size (openProbes c (cFlights s)) = (if halfOpenInFlight c then 1 else 0)
      \<and> (halfOpenInFlight c \<longrightarrow> openUntil c \<noteq> 0)
      \<and> (openUntil c \<noteq> 0 \<longrightarrow> lastResolution c = frontResolutionShared
           \<and> (\<forall>a\<in>#cFlights s. atGeneration a = generation c \<longrightarrow>
                atHalfOpen a \<and> atStarted a = resolutionSeq c))
      \<and> 0 \<le> openUntil c
      \<and> feSequence (recentEvidence c) \<le> resolutionSeq c
      \<and> fsCircuitOpenUntil (status c) = openUntil c)"

lemma newConnector_fields:
  "newConnector f upstream = Inr c \<Longrightarrow>
     openUntil c = 0 \<and> \<not> halfOpenInFlight c \<and> circuitBackoff c = 5 * Second
     \<and> recentEvidence c = noEvidence \<and> fsCircuitOpenUntil (status c) = 0"
  by (auto simp: newConnector_def defaultCircuitBackoff_def Let_def
      split: option.splits sum.splits if_splits)

lemma circ_start_inv: "circ_start s \<Longrightarrow> circ_inv s"
  using newConnector_fields [of _ _ "cConn s"]
  by (fastforce simp: circ_start_def circ_inv_def openProbes_def noEvidence_def Let_def)

lemma filter_mset_none: "filter_mset P M = {#} \<longleftrightarrow> (\<forall>x\<in>#M. \<not> P x)"
  by (induction M) auto

lemma probes_newer: "\<forall>a\<in>#fl. atGeneration a \<le> g \<Longrightarrow> generation c = g + 1 \<Longrightarrow> openProbes c fl = {#}"
  by (auto simp: openProbes_def filter_mset_none)

lemma openCircuit_inv:
  assumes "circ_inv s" and "cClock s \<le> now" and "fl \<subseteq># cFlights s"
  shows "circ_inv \<lparr>cConn = openCircuit now e (cConn s), cFlights = fl, cClock = now\<rparr>"
proof -
  have "\<forall>a\<in>#fl. atGeneration a \<le> generation (cConn s) \<and> atStarted a \<le> resolutionSeq (cConn s)"
    using assms by (auto simp: circ_inv_def Let_def dest: mset_subset_eqD)
  moreover have "openProbes (openCircuit now e (cConn s)) fl = {#}"
    using calculation by (intro probes_newer [where g = "generation (cConn s)"])
      (auto simp: openCircuit_def)
  ultimately show ?thesis
    using assms(1,2) by (fastforce simp: circ_inv_def openCircuit_def Let_def)
qed

text \<open>An attempt that ends without touching the connector is stale or not a probe.\<close>

lemma drop_stale_inv:
  assumes "circ_inv s" and "cClock s \<le> now" and "a \<in># cFlights s"
    and "atGeneration a \<noteq> generation (cConn s) \<or> \<not> atHalfOpen a"
  shows "circ_inv \<lparr>cConn = cConn s, cFlights = cFlights s - {#a#}, cClock = now\<rparr>"
proof -
  have "openProbes (cConn s) (cFlights s - {#a#}) = openProbes (cConn s) (cFlights s)"
    using assms(4) by (auto simp: openProbes_def)
  then show ?thesis
    using assms(1,2) by (auto simp: circ_inv_def Let_def dest: in_diffD)
qed

text \<open>Resolving an attempt of the current generation leaves no probe behind.\<close>

lemma probes_resolved:
  assumes "circ_inv s" and "a \<in># cFlights s" and "atGeneration a = generation (cConn s)"
  shows "openProbes (cConn s) (cFlights s - {#a#}) = {#}"
proof (cases "halfOpenInFlight (cConn s)")
  case True
  with assms have half: "atHalfOpen a" by (auto simp: circ_inv_def Let_def)
  with True assms have "a \<in># openProbes (cConn s) (cFlights s)" "size (openProbes (cConn s) (cFlights s)) = 1"
    by (auto simp: circ_inv_def openProbes_def Let_def)
  then have "openProbes (cConn s) (cFlights s) = {#a#}"
    by (metis One_nat_def add_mset_eq_single insert_DiffM size_1_singleton_mset)
  with half assms show ?thesis by (auto simp: openProbes_def)
next
  case False
  with assms show ?thesis by (auto simp: circ_inv_def openProbes_def Let_def filter_mset_none dest: in_diffD)
qed

lemma begin_inv:
  assumes "circ_inv s" and "cClock s \<le> now" and "beginFrontAttempt now (cConn s) = (Inr a, c)"
  shows "circ_inv \<lparr>cConn = c, cFlights = add_mset a (cFlights s), cClock = now\<rparr>"
  using assms
  by (auto simp: circ_inv_def beginFrontAttempt_def openProbes_def Let_def split: if_splits)

lemma probes_cong: "generation c = generation d \<Longrightarrow> openProbes c fl = openProbes d fl"
  by (simp add: openProbes_def)

text \<open>A resolution that closes the circuit.\<close>

lemma closing_inv:
  assumes inv: "circ_inv s" and "cClock s \<le> now" and "a \<in># cFlights s"
    and "atGeneration a = generation (cConn s)"
    and c: "generation c = generation (cConn s)" "resolutionSeq c = resolutionSeq (cConn s) + 1"
      "openUntil c = 0" "\<not> halfOpenInFlight c" "circuitBackoff c = circuitBackoff (cConn s)"
      "feSequence (recentEvidence c) \<le> resolutionSeq c" "fsCircuitOpenUntil (status c) = 0"
  shows "circ_inv \<lparr>cConn = c, cFlights = cFlights s - {#a#}, cClock = now\<rparr>"
proof -
  have "openProbes c (cFlights s - {#a#}) = {#}"
    using probes_resolved [OF inv assms(3,4)] probes_cong [OF c(1)] by simp
  moreover have "\<forall>b\<in>#cFlights s - {#a#}. atGeneration b \<le> generation c \<and> atStarted b \<le> resolutionSeq c"
    using inv c(1,2) by (auto simp: circ_inv_def Let_def le_SucI dest!: in_diffD)
  ultimately show ?thesis
    using inv assms(2) c by (auto simp: circ_inv_def Let_def)
qed

lemma success_inv:
  assumes "circ_inv s" and "cClock s \<le> now" and "a \<in># cFlights s"
  shows "circ_inv \<lparr>cConn = snd (recordFrontSuccess now a exit (cConn s)),
    cFlights = cFlights s - {#a#}, cClock = now\<rparr>"
proof (cases "atGeneration a = generation (cConn s)")
  case True
  then show ?thesis
    by (intro closing_inv [OF assms]) (simp_all add: recordFrontSuccess_def Let_def)
next
  case False
  then show ?thesis
    using drop_stale_inv [OF assms] by (simp add: recordFrontSuccess_def)
qed

text \<open>
  An ambiguous end is ignored when newer evidence exists; the attempt is then no probe, because a
  probe is the only attempt of its generation that can produce evidence.
\<close>

lemma ambiguous_inv:
  assumes "circ_inv s" and "cClock s \<le> now" and "a \<in># cFlights s"
  shows "circ_inv \<lparr>cConn = snd (recordFrontAmbiguous now a (cConn s)),
    cFlights = cFlights s - {#a#}, cClock = now\<rparr>"
proof -
  let ?c = "cConn s"
  consider "atGeneration a \<noteq> generation ?c"
    | "atGeneration a = generation ?c" "feGeneration (recentEvidence ?c) = atGeneration a"
      "feSequence (recentEvidence ?c) > atStarted a"
    | "atGeneration a = generation ?c"
      "\<not> (feGeneration (recentEvidence ?c) = atGeneration a \<and> feSequence (recentEvidence ?c) > atStarted a)"
    by blast
  then show ?thesis
  proof cases
    case 1
    then show ?thesis using drop_stale_inv [OF assms] by (simp add: recordFrontAmbiguous_def)
  next
    case 2
    then have closed: "openUntil ?c = 0" using assms(1,3) by (auto simp: circ_inv_def Let_def)
    then have "size (openProbes ?c (cFlights s)) = 0" using assms(1) by (auto simp: circ_inv_def Let_def)
    then have "\<not> atHalfOpen a" using assms(3) 2(1) by (auto simp: openProbes_def filter_mset_none)
    then show ?thesis using drop_stale_inv [OF assms] 2 by (simp add: recordFrontAmbiguous_def)
  next
    case 3
    then have "recordFrontAmbiguous now a ?c =
        (Some \<lparr>Generation = generation ?c, Sequence = resolutionSeq ?c + 1\<rparr>,
         snd (recordFrontAmbiguous now a ?c))"
      by (simp add: recordFrontAmbiguous_def Let_def)
    show ?thesis
      using 3 assms(1) by (intro closing_inv [OF assms])
        (auto simp: recordFrontAmbiguous_def circ_inv_def Let_def)
  qed
qed

lemma abandon_inv:
  assumes "circ_inv s" and "cClock s \<le> now" and "a \<in># cFlights s"
  shows "circ_inv \<lparr>cConn = abandonFrontAttempt now a (cConn s),
    cFlights = cFlights s - {#a#}, cClock = now\<rparr>"
proof (cases "atGeneration a = generation (cConn s) \<and> atHalfOpen a")
  case False
  then show ?thesis using drop_stale_inv [OF assms] by (auto simp: abandonFrontAttempt_def)
next
  case True
  let ?c = "abandonFrontAttempt now a (cConn s)"
  have "a \<in># openProbes (cConn s) (cFlights s)" using True assms(3) by (simp add: openProbes_def)
  then have flag: "halfOpenInFlight (cConn s)"
    using assms(1) by (fastforce simp: circ_inv_def Let_def split: if_splits)
  have none: "openProbes (cConn s) (cFlights s - {#a#}) = {#}"
    using probes_resolved [OF assms(1,3)] True by blast
  then have "openProbes ?c (cFlights s - {#a#}) = {#}"
    using probes_cong [of ?c "cConn s"] by (simp add: abandonFrontAttempt_def)
  moreover have "atGeneration b \<noteq> generation (cConn s)" if "b \<in># cFlights s - {#a#}" for b
  proof
    assume gen: "atGeneration b = generation (cConn s)"
    have "b \<in># cFlights s" using that by (rule in_diffD)
    with gen flag assms(1) have "atHalfOpen b" by (auto simp: circ_inv_def Let_def)
    with gen that have "b \<in># openProbes (cConn s) (cFlights s - {#a#})"
      unfolding openProbes_def set_mset_filter by blast
    with none show False by simp
  qed
  ultimately show ?thesis
    using assms(1,2) True flag
    by (auto simp: circ_inv_def abandonFrontAttempt_def Let_def dest: in_diffD)
qed

lemma same_conn_inv:
  "circ_inv s \<Longrightarrow> cClock s \<le> now \<Longrightarrow> circ_inv \<lparr>cConn = cConn s, cFlights = cFlights s, cClock = now\<rparr>"
  by (auto simp: circ_inv_def Let_def)

lemma circ_step_inv:
  assumes "circ_inv s" and "circ_step s t"
  shows "circ_inv t"
  using assms(2)
proof (cases rule: circ_step.cases)
  case (begin_ok now a c)
  with assms(1) show ?thesis by (simp add: begin_inv)
next
  case (begin_refused now err c)
  then have "c = cConn s" by (auto simp: beginFrontAttempt_def split: if_splits)
  with begin_refused assms(1) show ?thesis by (simp add: same_conn_inv)
next
  case (failure now a p)
  with assms(1) show ?thesis
    using drop_stale_inv [of s now a] openCircuit_inv [of s now "cFlights s - {#a#}" "publicFrontError p"]
    by (simp add: recordFrontFailure_def)
next
  case (batch now first final)
  with assms(1) show ?thesis
    using openCircuit_inv [of s now "cFlights s"] same_conn_inv [of s now]
    by (simp add: RecordAmbiguousBatchFailure_def)
qed (simp_all add: assms(1) success_inv ambiguous_inv abandon_inv)

interpretation circuit: step_system circ_start circ_step circ_inv
  by unfold_locales (rule circ_start_inv, assumption, rule circ_step_inv)

section \<open>Properties of the circuit\<close>

lemma reachable_inv: "circ_start s0 \<Longrightarrow> circ_step\<^sup>*\<^sup>* s0 s \<Longrightarrow> circ_inv s"
  by (rule circuit.inv_reachable)

text \<open>
  What the circuit promises, without generations, sequences or attempts: closed, open until an
  instant, or half-open. It opens for one back-off, is probed only once that has passed, and leaves
  the half-open state by the probe's outcome alone.
\<close>

datatype breaker = Closed | Open time | HalfOpen

inductive breaker_step :: "time \<Rightarrow> duration \<Rightarrow> breaker \<Rightarrow> breaker \<Rightarrow> bool" where
  stutter: "breaker_step now d b b"
| trip: "breaker_step now d Closed (Open (now + d))"
| probe: "u \<le> now \<Longrightarrow> breaker_step now d (Open u) HalfOpen"
| reopen: "breaker_step now d HalfOpen (Open (now + d))"
| recover: "breaker_step now d HalfOpen Closed"

definition breakerOf :: "Connector \<Rightarrow> breaker" where
  "breakerOf c = (if openUntil c = 0 then Closed else if halfOpenInFlight c then HalfOpen
                  else Open (openUntil c))"

lemma current_is_probe:
  assumes "circ_inv s" and "a \<in># cFlights s" and "atGeneration a = generation (cConn s)"
    and "openUntil (cConn s) \<noteq> 0"
  shows "halfOpenInFlight (cConn s) \<and> atHalfOpen a \<and> atStarted a = resolutionSeq (cConn s)"
proof -
  have half: "atHalfOpen a \<and> atStarted a = resolutionSeq (cConn s)"
    using assms by (auto simp: circ_inv_def Let_def)
  then have "a \<in># openProbes (cConn s) (cFlights s)" using assms by (simp add: openProbes_def)
  with assms(1) half show ?thesis by (fastforce simp: circ_inv_def Let_def split: if_splits)
qed

lemma breakerOf_openCircuit:
  "0 < now \<Longrightarrow> 0 \<le> circuitBackoff c \<Longrightarrow> breakerOf (openCircuit now e c) = Open (now + circuitBackoff c)"
  by (simp add: breakerOf_def openCircuit_def)

lemma resolving_breaker:
  assumes "circ_inv s" and "a \<in># cFlights s" and "atGeneration a = generation (cConn s)"
  shows "breakerOf (cConn s) \<in> {Closed, HalfOpen}"
  using current_is_probe [OF assms] by (auto simp: breakerOf_def)

lemma breaker_to_open:
  "b \<in> {Closed, HalfOpen} \<Longrightarrow> breaker_step now d b (Open (now + d))"
  by (auto intro: breaker_step.intros)

lemma breaker_to_closed: "b \<in> {Closed, HalfOpen} \<Longrightarrow> breaker_step now d b Closed"
  by (auto intro: breaker_step.intros)

lemma circ_step_breaker:
  assumes inv: "circ_inv s" and step: "circ_step s t"
  shows "breaker_step (cClock t) (circuitBackoff (cConn s)) (breakerOf (cConn s)) (breakerOf (cConn t))"
proof -
  have pos: "0 < cClock s" "0 \<le> circuitBackoff (cConn s)"
    "halfOpenInFlight (cConn s) \<Longrightarrow> openUntil (cConn s) \<noteq> 0" "0 \<le> openUntil (cConn s)"
    "openUntil (cConn s) \<noteq> 0 \<Longrightarrow> lastResolution (cConn s) = frontResolutionShared"
    using inv by (auto simp: circ_inv_def Let_def)
  from step show ?thesis
  proof (cases rule: circ_step.cases)
    case (begin_ok now a c)
    then show ?thesis
      by (auto simp: beginFrontAttempt_def breakerOf_def split: if_splits intro: breaker_step.intros)
  next
    case (begin_refused now err c)
    then show ?thesis
      by (auto simp: beginFrontAttempt_def split: if_splits intro: breaker_step.intros)
  next
    case (failure now a p)
    then show ?thesis
      using resolving_breaker [OF inv, of a] pos breakerOf_openCircuit [of now "cConn s"]
      by (auto simp: recordFrontFailure_def intro: breaker_step.stutter breaker_to_open)
  next
    case (success now a exit)
    then show ?thesis
      using resolving_breaker [OF inv, of a]
      by (auto simp: recordFrontSuccess_def breakerOf_def Let_def
          intro: breaker_step.intros split: if_splits)
  next
    case (ambiguous now a)
    then show ?thesis
      using resolving_breaker [OF inv, of a]
      by (auto simp: recordFrontAmbiguous_def breakerOf_def Let_def
          intro: breaker_step.intros split: if_splits)
  next
    case (abandon now a)
    then show ?thesis
      using pos by (auto simp: abandonFrontAttempt_def breakerOf_def
          intro: breaker_step.intros split: if_splits)
  next
    case (batch now first final)
    show ?thesis
    proof (cases "fst (RecordAmbiguousBatchFailure now first final (cConn s))")
      case True
      then have "openUntil (cConn s) = 0" "cConn t = openCircuit now
          ''front proxy could not connect to any candidate exit'' (cConn s)"
        using pos(5) batch(1) by (auto simp: RecordAmbiguousBatchFailure_def split: if_splits)
      then show ?thesis
        using pos batch breakerOf_openCircuit [of now "cConn s"]
        by (auto simp: breakerOf_def [of "cConn s"] intro: breaker_step.trip)
    next
      case False
      then have "cConn t = cConn s"
        using batch(1) by (auto simp: RecordAmbiguousBatchFailure_def split: if_splits)
      then show ?thesis by (simp add: breaker_step.stutter)
    qed
  qed
qed

text \<open>The breaker with its clock and its back-off, as the connector shows them.\<close>

fun breaker_moves :: "time \<times> duration \<times> breaker \<Rightarrow> time \<times> duration \<times> breaker \<Rightarrow> bool" where
  "breaker_moves (_, d, b) (now, _, b') = breaker_step now d b b'"

definition circuitView :: "circState \<Rightarrow> time \<times> duration \<times> breaker" where
  "circuitView s = (cClock s, circuitBackoff (cConn s), breakerOf (cConn s))"

interpretation breaker: step_refinement circ_start circ_step circ_inv breaker_moves circuitView
  by unfold_locales (simp add: circuitView_def circ_step_breaker)

text \<open>
  C14. Refinement: under every interleaving of any number of attempts, each atomic section of the
  connector is a step of the three-state breaker. In particular an open circuit never closes
  without a probe, and stale or late results of earlier attempts never extend or close it.
\<close>

theorem circuit_refines_breaker:
  assumes "circ_start s0" and "circ_step\<^sup>*\<^sup>* s0 s" and "circ_step s t"
  shows "breaker_step (cClock t) (circuitBackoff (cConn s)) (breakerOf (cConn s)) (breakerOf (cConn t))"
  using breaker.reachable_refines [OF assms] by (simp add: circuitView_def)

text \<open>A front proxy and the first steps of its circuit, for the examples.\<close>

definition exampleFront :: FrontProxy where
  "exampleFront = \<lparr>fpEnabled = True, fpProtocol = [], fpAddress = ''10.0.0.1:1080'', fpUsername = [],
     fpPassword = [], fpFailOpen = False\<rparr>"

definition exampleConnector :: Connector where
  "exampleConnector = projr (newConnector exampleFront [])"

definition exampleAttempt :: frontAttempt where
  "exampleAttempt = \<lparr>atGeneration = 0, atHalfOpen = False, atStarted = 0\<rparr>"

definition exampleStart :: circState where
  "exampleStart = \<lparr>cConn = exampleConnector, cFlights = {#}, cClock = 1\<rparr>"

definition exampleFlight :: "nat \<Rightarrow> circState" where
  "exampleFlight n = exampleStart\<lparr>cFlights := replicate_mset n exampleAttempt\<rparr>"

lemma exampleStart_ok: "circ_start exampleStart"
proof -
  have "\<not> isl (newConnector exampleFront [])" by code_simp
  then have "newConnector exampleFront [] = Inr exampleConnector"
    by (simp add: exampleConnector_def)
  then show ?thesis by (auto simp: circ_start_def exampleStart_def)
qed

lemma exampleFlight_step: "circ_step (exampleFlight n) (exampleFlight (Suc n))"
proof -
  have "beginFrontAttempt 1 exampleConnector = (Inr exampleAttempt, exampleConnector)" by code_simp
  from circ_step.begin_ok [of "exampleFlight n" 1 _ exampleConnector] this
  show ?thesis by (simp add: exampleFlight_def exampleStart_def)
qed

lemma exampleFlight_reachable: "circ_step\<^sup>*\<^sup>* exampleStart (exampleFlight n)"
proof (induction n)
  case 0
  then show ?case by (simp add: exampleFlight_def exampleStart_def)
next
  case (Suc n)
  then show ?case using exampleFlight_step by (rule rtranclp.rtrancl_into_rtrancl)
qed

theorem circuit_refines_breaker_witness:
  "breaker_step 7 (5 * Second) Closed
     (breakerOf (recordFrontFailure 7 exampleAttempt PhaseFrontDial exampleConnector))
   \<and> breakerOf (recordFrontFailure 7 exampleAttempt PhaseFrontDial exampleConnector) = Open 5000000007"
proof -
  let ?c = "recordFrontFailure 7 exampleAttempt PhaseFrontDial exampleConnector"
  have "circ_step (exampleFlight 1) \<lparr>cConn = ?c, cFlights = {#}, cClock = 7\<rparr>"
    using circ_step.failure [of "exampleFlight 1" 7 exampleAttempt PhaseFrontDial]
    by (simp add: exampleFlight_def exampleStart_def)
  from circuit_refines_breaker [OF exampleStart_ok exampleFlight_reachable this]
  have "breaker_step 7 (circuitBackoff exampleConnector) (breakerOf exampleConnector) (breakerOf ?c)"
    by (simp add: exampleFlight_def exampleStart_def)
  moreover have "circuitBackoff exampleConnector = 5 * Second" by code_simp
  moreover have "breakerOf exampleConnector = Closed" by code_simp
  moreover have "breakerOf ?c = Open 5000000007" by code_simp
  ultimately show ?thesis by simp
qed

text \<open>
  C30. The circuit is never stuck half-open. In every reachable state, if the probe flag is set then
  exactly one unresolved attempt is the probe, every way in which it can end (failure, success,
  ambiguous end, cancellation) clears the flag, and when no attempt is left and the back-off has
  passed the next attempt is let through.
\<close>

theorem circuit_probe_never_lost:
  assumes "circ_start s0" and "circ_step\<^sup>*\<^sup>* s0 s"
  shows "(halfOpenInFlight (cConn s) \<longrightarrow>
            (\<exists>a. openProbes (cConn s) (cFlights s) = {#a#} \<and>
               \<not> halfOpenInFlight (recordFrontFailure now a p (cConn s)) \<and>
               \<not> halfOpenInFlight (snd (recordFrontSuccess now a exit (cConn s))) \<and>
               \<not> halfOpenInFlight (snd (recordFrontAmbiguous now a (cConn s))) \<and>
               \<not> halfOpenInFlight (abandonFrontAttempt now a (cConn s))))
       \<and> (cFlights s = {#} \<and> openUntil (cConn s) \<le> now \<longrightarrow>
            (\<exists>a. fst (beginFrontAttempt now (cConn s)) = Inr a))"
proof (intro conjI impI)
  have inv: "circ_inv s" by (rule reachable_inv [OF assms])
  {
    assume flag: "halfOpenInFlight (cConn s)"
    with inv have "size (openProbes (cConn s) (cFlights s)) = 1" by (simp add: circ_inv_def Let_def)
    then obtain a where a: "openProbes (cConn s) (cFlights s) = {#a#}"
      by (auto simp: size_eq_Suc_imp_eq_union dest: size_mset_SucE)
    then have "a \<in># openProbes (cConn s) (cFlights s)" by simp
    then have in_flight: "a \<in># cFlights s" "atGeneration a = generation (cConn s)"
      by (auto simp: openProbes_def)
    have "atHalfOpen a \<and> atStarted a = resolutionSeq (cConn s)"
      using current_is_probe [OF inv in_flight] flag inv by (auto simp: circ_inv_def Let_def)
    moreover have "feSequence (recentEvidence (cConn s)) \<le> resolutionSeq (cConn s)"
      using inv by (simp add: circ_inv_def Let_def)
    ultimately show "\<exists>a. openProbes (cConn s) (cFlights s) = {#a#} \<and>
        \<not> halfOpenInFlight (recordFrontFailure now a p (cConn s)) \<and>
        \<not> halfOpenInFlight (snd (recordFrontSuccess now a exit (cConn s))) \<and>
        \<not> halfOpenInFlight (snd (recordFrontAmbiguous now a (cConn s))) \<and>
        \<not> halfOpenInFlight (abandonFrontAttempt now a (cConn s))"
      using a in_flight flag by (intro exI [of _ a]) (simp add: section_defs)
  }
  assume "cFlights s = {#} \<and> openUntil (cConn s) \<le> now"
  moreover from this inv have "\<not> halfOpenInFlight (cConn s)"
    by (auto simp: circ_inv_def openProbes_def Let_def split: if_splits)
  ultimately show "\<exists>a. fst (beginFrontAttempt now (cConn s)) = Inr a"
    by (simp add: beginFrontAttempt_def)
qed

definition exampleOpen :: Connector where
  "exampleOpen = recordFrontFailure 7 exampleAttempt PhaseFrontDial exampleConnector"

definition exampleProbing :: Connector where
  "exampleProbing = snd (beginFrontAttempt 5000000007 exampleOpen)"

definition exampleProbe :: frontAttempt where
  "exampleProbe = \<lparr>atGeneration = 1, atHalfOpen = True, atStarted = 1\<rparr>"

lemma exampleOpen_reachable:
  "circ_step\<^sup>*\<^sup>* exampleStart
     \<lparr>cConn = exampleOpen, cFlights = replicate_mset n exampleAttempt, cClock = 7\<rparr>"
proof -
  have "circ_step (exampleFlight (Suc n))
      \<lparr>cConn = exampleOpen, cFlights = replicate_mset n exampleAttempt, cClock = 7\<rparr>"
    using circ_step.failure [of "exampleFlight (Suc n)" 7 exampleAttempt PhaseFrontDial]
    by (simp add: exampleFlight_def exampleStart_def exampleOpen_def)
  with exampleFlight_reachable show ?thesis by (rule rtranclp.rtrancl_into_rtrancl)
qed

lemma exampleProbing_reachable:
  "circ_step\<^sup>*\<^sup>* exampleStart \<lparr>cConn = exampleProbing, cFlights = {#exampleProbe#}, cClock = 5000000007\<rparr>"
proof -
  have "beginFrontAttempt 5000000007 exampleOpen = (Inr exampleProbe, exampleProbing)" by code_simp
  then have "circ_step \<lparr>cConn = exampleOpen, cFlights = replicate_mset 0 exampleAttempt, cClock = 7\<rparr>
      \<lparr>cConn = exampleProbing, cFlights = {#exampleProbe#}, cClock = 5000000007\<rparr>"
    using circ_step.begin_ok [of "\<lparr>cConn = exampleOpen, cFlights = {#}, cClock = 7\<rparr>" 5000000007]
    by simp
  with exampleOpen_reachable [of 0] show ?thesis by (rule rtranclp.rtrancl_into_rtrancl)
qed

theorem circuit_probe_never_lost_witness:
  "halfOpenInFlight exampleProbing
   \<and> (\<exists>a. openProbes exampleProbing {#exampleProbe#} = {#a#} \<and>
        \<not> halfOpenInFlight (abandonFrontAttempt 5000000009 a exampleProbing))"
proof -
  have "halfOpenInFlight exampleProbing" by code_simp
  then show ?thesis
    using circuit_probe_never_lost [OF exampleStart_ok exampleProbing_reachable] by simp blast
qed

text \<open>
  C4. When an attempt's failure opens the circuit, every other attempt that is still running at that
  moment has become stale: whatever it reports later (success, failure, ambiguous end,
  cancellation), at any time before the generation moves on, changes nothing, so a late success of
  an old attempt cannot close the circuit and a late failure cannot prolong it.
\<close>

theorem circuit_ignores_stale_results:
  assumes "circ_start s0" and "circ_step\<^sup>*\<^sup>* s0 s"
    and "a \<in># cFlights s" and "atGeneration a = generation (cConn s)"
    and "b \<in># cFlights s" and "opened = recordFrontFailure now a p (cConn s)"
    and "generation c = generation opened"
  shows "recordFrontFailure later b q c = c \<and> recordFrontSuccess later b exit c = (None, c)
    \<and> recordFrontAmbiguous later b c = (None, c) \<and> abandonFrontAttempt later b c = c"
proof -
  have "atGeneration b \<le> generation (cConn s)"
    using reachable_inv [OF assms(1,2)] assms(5) by (auto simp: circ_inv_def Let_def)
  moreover have "generation c = generation (cConn s) + 1"
    using assms(4,6,7) by (simp add: recordFrontFailure_def openCircuit_def)
  ultimately have "atGeneration b \<noteq> generation c" by simp
  then show ?thesis by (simp add: section_defs)
qed

theorem circuit_ignores_stale_results_witness:
  "recordFrontSuccess 9 exampleAttempt ''10.0.0.2:1080'' exampleOpen = (None, exampleOpen)"
proof -
  have member: "exampleAttempt \<in># cFlights (exampleFlight 2)"
    and conn: "cConn (exampleFlight 2) = exampleConnector"
    by (simp_all add: exampleFlight_def exampleStart_def)
  have current: "atGeneration exampleAttempt = generation (cConn (exampleFlight 2))"
    unfolding conn by code_simp
  have "exampleOpen = recordFrontFailure 7 exampleAttempt PhaseFrontDial (cConn (exampleFlight 2))"
    unfolding conn by (rule exampleOpen_def)
  from circuit_ignores_stale_results [OF exampleStart_ok exampleFlight_reachable member current member this refl]
  show ?thesis by blast
qed

section \<open>What an attempt does to the circuit and to its connection\<close>

lemma frontFails_result:
  assumes "frontFails env c a st p err opened = (r, c', o')"
  shows "o' = opened \<and> (\<exists>e. r = Inl e \<and>
    (e = ErrCanceled \<and> c' = abandonFrontAttempt (resolveAt env) a c
     \<or> FailureScopeOf (Some e) = scopeForPhase p \<and> c' = recordFrontFailure (resolveAt env) a p c))"
  using assms by (auto simp: frontFails_def split: if_splits)

lemma frontAmbiguous_result:
  assumes "frontAmbiguous env c a st err opened = (r, c', o')"
  shows "o' = opened \<and> (\<exists>e. r = Inl e \<and>
    (e = ErrCanceled \<and> c' = abandonFrontAttempt (resolveAt env) a c
     \<or> FailureScopeOf (Some e) = FailureScopeAmbiguous
       \<and> c' = snd (recordFrontAmbiguous (resolveAt env) a c)
       \<and> AmbiguousFailureToken (Some e) = fst (recordFrontAmbiguous (resolveAt env) a c)))"
proof (cases "cancelled env st")
  case True
  with assms show ?thesis by (auto simp: frontAmbiguous_def)
next
  case False
  obtain t c1 where rec: "recordFrontAmbiguous (resolveAt env) a c = (t, c1)" by fastforce
  have "0 < Sequence tok" if "t = Some tok" for tok
    using rec that by (auto simp: recordFrontAmbiguous_def Let_def split: if_splits)
  with False rec assms show ?thesis
    by (cases t) (auto simp: frontAmbiguous_def FailureScopeOf_def AmbiguousFailureToken_def
        scopeForPhase_def noToken_def)
qed

lemma exitFails_result:
  assumes "exitFails env c token st p err opened = (r, c', o')"
    and "scopeForPhase p = FailureScopeExit"
  shows "o' = opened \<and> c' = c \<and> (\<exists>e. r = Inl e \<and>
    (e = ErrCanceled \<or> FailureScopeOf (Some e) = FailureScopeExit \<and> FrontEstablished (Some e)))"
  using assms by (auto simp: exitFails_def split: if_splits)

lemma handshake_phase_scopes [simp]:
  "scopeForPhase (frontHandshakePhase err) = FailureScopeShared"
  "scopeForPhase (exitHandshakePhase err) = FailureScopeExit"
  "scopeForPhase PhaseFrontDial = FailureScopeShared"
  "scopeForPhase PhaseFrontHandshake = FailureScopeShared"
  "scopeForPhase PhaseFrontConnectTarget = FailureScopeShared"
  "scopeForPhase PhaseExitConnect = FailureScopeExit"
  by (simp_all add: scopeForPhase_def frontHandshakePhase_def exitHandshakePhase_def)

text \<open>
  One run through the front, after its attempt \<open>a\<close> has begun and with the connector \<open>c\<close> as the other
  goroutines left it, ends in one of five ways, each with its effect on the connector.
\<close>

definition attempt_outcome ::
    "connectEnv \<Rightarrow> frontAttempt \<Rightarrow> string \<Rightarrow> Connector \<Rightarrow> goError + conn \<Rightarrow> Connector \<Rightarrow> bool" where
  "attempt_outcome env a exitAddress c r c' \<longleftrightarrow>
     (case r of
        Inr _ \<Rightarrow> c' = snd (recordFrontSuccess (resolveAt env) a exitAddress c)
      | Inl e \<Rightarrow>
          e = ErrCanceled \<and> (c' = abandonFrontAttempt (resolveAt env) a c
             \<or> c' = snd (recordFrontSuccess (resolveAt env) a exitAddress c))
          \<or> FailureScopeOf (Some e) = FailureScopeShared
             \<and> (\<exists>p. c' = recordFrontFailure (resolveAt env) a p c)
          \<or> FailureScopeOf (Some e) = FailureScopeAmbiguous
             \<and> c' = snd (recordFrontAmbiguous (resolveAt env) a c)
             \<and> AmbiguousFailureToken (Some e) = fst (recordFrontAmbiguous (resolveAt env) a c)
          \<or> FailureScopeOf (Some e) = FailureScopeExit \<and> FrontEstablished (Some e)
             \<and> c' = snd (recordFrontSuccess (resolveAt env) a exitAddress c))"

definition opened_ok :: "goError + conn \<Rightarrow> conn option \<Rightarrow> bool" where
  "opened_ok r opened \<longleftrightarrow>
     (case r of Inl _ \<Rightarrow> (\<forall>k. opened = Some k \<longrightarrow> connClosed k) | Inr k \<Rightarrow> opened = Some k)"

lemma frontFails_outcome:
  assumes "frontFails env c a st p err opened = (r, c', o')"
    and "scopeForPhase p = FailureScopeShared" and "\<forall>k. opened = Some k \<longrightarrow> connClosed k"
  shows "attempt_outcome env a x c r c' \<and> opened_ok r o'"
  using frontFails_result [OF assms(1)] assms(2,3)
  by (auto simp: attempt_outcome_def opened_ok_def)

lemma frontAmbiguous_outcome:
  assumes "frontAmbiguous env c a st err opened = (r, c', o')"
    and "\<forall>k. opened = Some k \<longrightarrow> connClosed k"
  shows "attempt_outcome env a x c r c' \<and> opened_ok r o'"
  using frontAmbiguous_result [OF assms(1)] assms(2)
  by (auto simp: attempt_outcome_def opened_ok_def)

lemma exitFails_outcome:
  assumes "exitFails env c1 token st p err opened = (r, c', o')"
    and "scopeForPhase p = FailureScopeExit" and "\<forall>k. opened = Some k \<longrightarrow> connClosed k"
    and "c1 = snd (recordFrontSuccess (resolveAt env) a x c)"
  shows "attempt_outcome env a x c r c' \<and> opened_ok r o'"
  using exitFails_result [OF assms(1,2)] assms(3,4)
  by (auto simp: attempt_outcome_def opened_ok_def)

lemma closeConn_closed [simp]: "connClosed (closeConn k)"
  by (simp add: closeConn_def)

lemma connectThroughFront_outcome:
  assumes run: "connectThroughFront env c0 exit target = (r, c', opened)"
    and bgn: "beginFrontAttempt (beginAt env) c0 = (Inr a, c1)" and c: "c = others env c1"
  shows "attempt_outcome env a (Address exit) c r c' \<and> opened_ok r opened"
proof (cases "dialAddress env c (fpAddress (front c))")
  case (Inl err)
  with run bgn c have "frontFails env c a StDial PhaseFrontDial err None = (r, c', opened)"
    by (simp add: connectThroughFront_def)
  then show ?thesis by (rule frontFails_outcome) simp_all
next
  case dialled: (Inr k)
  show ?thesis
  proof (cases "bindResult env")
    case (Some err)
    with run bgn c dialled
    have "frontFails env c a StBind PhaseFrontHandshake err (Some (closeConn k)) = (r, c', opened)"
      by (simp add: connectThroughFront_def)
    then show ?thesis by (rule frontFails_outcome) simp_all
  next
    case bound: None
    obtain h k1 where hs: "handshake k (fpUsername (front c)) (fpPassword (front c)) = (h, k1)"
      by fastforce
    obtain t k2 where ct: "connectTarget k1 (Address exit) = (t, k2)" by fastforce
    obtain e sel k3 where xs: "handshakeWithMethodSelection k2 (Username exit) (Password exit) = (e, sel, k3)"
      by (metis prod_cases3)
    obtain tok c2 where ok: "recordFrontSuccess (resolveAt env) a (Address exit) c = (tok, c2)"
      by fastforce
    obtain f k4 where tt: "connectTarget k3 target = (f, k4)" by fastforce
    note path = run bgn c dialled bound hs ct xs ok tt
    consider err where "h = Some err" | err where "h = None" "t = Some err"
      | err where "h = None" "t = None" "e = Some err" "\<not> sel"
      | err where "h = None" "t = None" "e = Some err" "sel"
      | err where "h = None" "t = None" "e = None" "f = Some err"
      | "h = None" "t = None" "e = None" "f = None"
      by (cases h; cases t; cases e; cases f) auto
    then show ?thesis
    proof cases
      case (1 err)
      with path have "frontFails env c a StFrontHandshake (frontHandshakePhase err) err
          (Some (closeConn k1)) = (r, c', opened)" by (simp add: connectThroughFront_def)
      then show ?thesis by (rule frontFails_outcome) simp_all
    next
      case (2 err)
      with path have "frontAmbiguous env c a StFrontConnect err (Some (closeConn k2)) = (r, c', opened)"
        by (simp add: connectThroughFront_def)
      then show ?thesis by (rule frontAmbiguous_outcome) simp
    next
      case (3 err)
      with path have "frontAmbiguous env c a StExitHandshake err (Some (closeConn k3)) = (r, c', opened)"
        by (simp add: connectThroughFront_def)
      then show ?thesis by (rule frontAmbiguous_outcome) simp
    next
      case (4 err)
      with path have "exitFails env c2 (case tok of Some t \<Rightarrow> t | None \<Rightarrow> noToken) StExitHandshake
          (exitHandshakePhase err) err (Some (closeConn k3)) = (r, c', opened)"
        by (simp add: connectThroughFront_def)
      then show ?thesis by (rule exitFails_outcome) (simp_all add: ok)
    next
      case (5 err)
      with path have "exitFails env c2 (case tok of Some t \<Rightarrow> t | None \<Rightarrow> noToken) StExitConnect
          PhaseExitConnect err (Some (closeConn k4)) = (r, c', opened)"
        by (simp add: connectThroughFront_def)
      then show ?thesis by (rule exitFails_outcome) (simp_all add: ok)
    next
      case 6
      with path have "r = Inr k4" "c' = c2" "opened = Some k4"
        by (auto simp: connectThroughFront_def split: bool.splits)
      then show ?thesis by (simp add: attempt_outcome_def opened_ok_def ok)
    qed
  qed
qed

text \<open>
  C31. Failures are charged to the hop that failed, and every attempt is resolved exactly once. When a
  run through the front has begun attempt \<open>a\<close>, its error scope and its effect on the circuit go
  together: shared errors are recorded as front failures, ambiguous ones as ambiguous with the
  recorded token, exit errors only after the front's evidence was recorded; a cancelled run hands
  the attempt back; and in all these cases the dialled connection is closed.
\<close>

theorem front_run_charges_right_hop:
  assumes "connectThroughFront env c0 exit target = (r, c', opened)"
    and "beginFrontAttempt (beginAt env) c0 = (Inr a, c1)"
  shows "attempt_outcome env a (Address exit) (others env c1) r c' \<and> opened_ok r opened"
  by (rule connectThroughFront_outcome [OF assms refl])

definition exampleEnv :: "byte list \<Rightarrow> connectEnv" where
  "exampleEnv input = \<lparr>ctxErr = (\<lambda>_. None), resolveHost = (\<lambda>_ _. Inl ErrEOF),
     dial = (\<lambda>_ _. Inr \<lparr>connIn = input, connEnd = ErrEOF, connOut = [], connWrites = [], connClosed = False\<rparr>),
     deadlineErr = None, beginAt = 5, resolveAt = 6, others = (\<lambda>c. c)\<rparr>"

definition exampleExit :: Endpoint where
  "exampleExit = \<lparr>Address = ''exit.test:1080'', Username = ''u'', Password = ''p''\<rparr>"

lemma example_simps [simp]:
  "others (exampleEnv input) c = c" "Address exampleExit = ''exit.test:1080''"
  "Username exampleExit = ''u''" "Password exampleExit = ''p''"
  by (simp_all add: exampleEnv_def exampleExit_def)

theorem front_run_charges_right_hop_witness:
  "\<exists>e c' opened. connectThroughFront (exampleEnv [5, 0, 5, 1]) exampleConnector exampleExit ''a.test:80''
       = (Inl e, c', opened)
     \<and> attempt_outcome (exampleEnv [5, 0, 5, 1]) exampleAttempt ''exit.test:1080'' exampleConnector (Inl e) c'
     \<and> FailureScopeOf (Some e) = FailureScopeAmbiguous"
proof -
  let ?run = "connectThroughFront (exampleEnv [5, 0, 5, 1]) exampleConnector exampleExit ''a.test:80''"
  have "isl (fst ?run) \<and> FailureScopeOf (Some (projl (fst ?run))) = FailureScopeAmbiguous" by code_simp
  then obtain e where e: "fst ?run = Inl e" "FailureScopeOf (Some e) = FailureScopeAmbiguous"
    by (cases "fst ?run") auto
  then have run: "?run = (Inl e, fst (snd ?run), snd (snd ?run))" by (metis prod.collapse)
  have "beginFrontAttempt (beginAt (exampleEnv [5, 0, 5, 1])) exampleConnector
      = (Inr exampleAttempt, exampleConnector)" by code_simp
  from front_run_charges_right_hop [OF run this]
  have "attempt_outcome (exampleEnv [5, 0, 5, 1]) exampleAttempt ''exit.test:1080'' exampleConnector
    (Inl e) (fst (snd ?run))" by simp
  with e(2) run show ?thesis by blast
qed

section \<open>The tunnel\<close>

text \<open>
  One SOCKS5 hop with given credentials to a given address: a negotiation and a request that
  decodes to the address were sent, the server's half and a success reply were consumed.
\<close>

definition hop :: "string \<Rightarrow> string \<Rightarrow> string \<Rightarrow> byte list \<Rightarrow> byte list \<Rightarrow> bool" where
  "hop username password address sent received \<longleftrightarrow>
     (\<exists>neg rcv req reply t port. sent = neg @ req \<and> received = rcv @ reply
        \<and> negotiated username password neg rcv \<and> names_target address t port
        \<and> decodeRequest req = Some (t, port) \<and> successReply reply)"

lemma hop_done:
  assumes "handshakeWithMethodSelection k u p = (None, sel, k1)" and "connectTarget k1 address = (None, k2)"
  shows "\<exists>sent received. connOut k2 = connOut k @ sent \<and> connIn k = received @ connIn k2
    \<and> hop u p address sent received \<and> connClosed k2 = connClosed k"
proof -
  from handshake_result [OF assms(1)] obtain neg rcv where
    h: "connOut k1 = connOut k @ neg" "connIn k = rcv @ connIn k1" "negotiated u p neg rcv"
      "connClosed k1 = connClosed k" by blast
  from connectTarget_result [OF assms(2)] obtain req reply t port where
    c: "connOut k2 = connOut k1 @ req" "connIn k1 = reply @ connIn k2" "names_target address t port"
      "decodeRequest req = Some (t, port)" "successReply reply" "connClosed k2 = connClosed k1"
    by blast
  have "hop u p address (neg @ req) (rcv @ reply)"
    unfolding hop_def using h(3) c(3-5) by blast
  then show ?thesis
    using h c by (intro exI [of _ "neg @ req"] exI [of _ "rcv @ reply"]) simp
qed

lemma handshake_None:
  "handshake k u p = (None, k1) \<Longrightarrow> \<exists>sel. handshakeWithMethodSelection k u p = (None, sel, k1)"
  by (auto simp: handshake_def split: prod.splits)

lemma connectDirect_success:
  assumes "connectDirect env c exit target = (Inr k', c', opened)"
  shows "\<exists>k. dialAddress env c (Address exit) = Inr k \<and> opened = Some k' \<and> c' = c
    \<and> (\<exists>s r. connOut k' = connOut k @ s \<and> connIn k = r @ connIn k'
         \<and> hop (Username exit) (Password exit) target s r \<and> connClosed k' = connClosed k)"
proof -
  from assms obtain k k1 where k: "dialAddress env c (Address exit) = Inr k"
    "handshake k (Username exit) (Password exit) = (None, k1)" "connectTarget k1 target = (None, k')"
    "opened = Some k'" "c' = c"
    by (auto simp: connectDirect_def Let_def split: sum.splits option.splits prod.splits if_splits)
  obtain sel where "handshakeWithMethodSelection k (Username exit) (Password exit) = (None, sel, k1)"
    using handshake_None [OF k(2)] by blast
  with hop_done [OF this k(3)] k show ?thesis by auto
qed

lemma frontFails_not_Inr [simp]: "frontFails env c a st p err o1 \<noteq> (Inr k, c', o2)"
  by (simp add: frontFails_def)

lemma exitFails_not_Inr [simp]: "exitFails env c t st p err o1 \<noteq> (Inr k, c', o2)"
  by (simp add: exitFails_def)

lemma frontAmbiguous_not_Inr [simp]: "frontAmbiguous env c a st err o1 \<noteq> (Inr k, c', o2)"
  by (simp add: frontAmbiguous_def split: prod.split)

lemma connectThroughFront_success:
  assumes "connectThroughFront env c0 exit target = (Inr k', c', opened)"
  shows "\<exists>a c1 k. beginFrontAttempt (beginAt env) c0 = (Inr a, c1)
    \<and> dialAddress env (others env c1) (fpAddress (front (others env c1))) = Inr k \<and> opened = Some k'
    \<and> (\<exists>s1 r1 s2 r2. connOut k' = connOut k @ s1 @ s2 \<and> connIn k = r1 @ r2 @ connIn k'
         \<and> hop (fpUsername (front (others env c1))) (fpPassword (front (others env c1))) (Address exit) s1 r1
         \<and> hop (Username exit) (Password exit) target s2 r2 \<and> connClosed k' = connClosed k)"
proof -
  obtain a c1 where a: "beginFrontAttempt (beginAt env) c0 = (Inr a, c1)"
    using assms by (auto simp: connectThroughFront_def split: prod.splits sum.splits)
  define c where "c = others env c1"
  from assms a obtain k k1 k2 k3 sel where k: "dialAddress env c (fpAddress (front c)) = Inr k"
    "handshake k (fpUsername (front c)) (fpPassword (front c)) = (None, k1)"
    "connectTarget k1 (Address exit) = (None, k2)"
    "handshakeWithMethodSelection k2 (Username exit) (Password exit) = (None, sel, k3)"
    "connectTarget k3 target = (None, k')" "opened = Some k'"
    by (auto simp: connectThroughFront_def c_def Let_def
        split: sum.splits option.splits prod.splits bool.splits)
  from handshake_None [OF k(2)] obtain sel' where
    "handshakeWithMethodSelection k (fpUsername (front c)) (fpPassword (front c)) = (None, sel', k1)"
    by blast
  from hop_done [OF this k(3)] hop_done [OF k(4,5)] k a show ?thesis
    unfolding c_def by (metis append.assoc)
qed

lemma beginFrontAttempt_front: "beginFrontAttempt now c = (r, c1) \<Longrightarrow> front c1 = front c"
  by (auto simp: beginFrontAttempt_def split: if_splits)

text \<open>
  C29. A connection that \<open>Connect\<close> returns is a clean tunnel to the target. Without a front it was
  dialled to the exit and went through one hop with the exit's credentials; with a front it was
  dialled to the front, went through a first hop with the front's credentials to the exit's address
  and through a second, inside the first, with the exit's credentials to the target. Nothing else
  was sent, no byte after the last reply was consumed, and the connection is the one returned, as
  open as it was dialled.
\<close>

theorem connect_returns_clean_tunnel:
  assumes "Connect env (Some c) exit target = (Inr k', mc', opened)"
    and "\<forall>d. front (others env d) = front d"
  shows "opened = Some k' \<and>
    (\<exists>d k. dialAddress env d (if fpEnabled (front c) then fpAddress (front c) else Address exit) = Inr k
      \<and> connClosed k' = connClosed k
      \<and> (if fpEnabled (front c)
         then \<exists>s1 r1 s2 r2. connOut k' = connOut k @ s1 @ s2 \<and> connIn k = r1 @ r2 @ connIn k'
                \<and> hop (fpUsername (front c)) (fpPassword (front c)) (Address exit) s1 r1
                \<and> hop (Username exit) (Password exit) target s2 r2
         else \<exists>s r. connOut k' = connOut k @ s \<and> connIn k = r @ connIn k'
                \<and> hop (Username exit) (Password exit) target s r))"
proof (cases "fpEnabled (front c)")
  case True
  with assms(1) obtain c' where "connectThroughFront env c exit target = (Inr k', c', opened)"
    by (auto simp: Connect_def Let_def split: option.splits prod.splits)
  from connectThroughFront_success [OF this] obtain a c1 k s1 r1 s2 r2 where
    begun: "beginFrontAttempt (beginAt env) c = (Inr a, c1)"
    and k: "dialAddress env (others env c1) (fpAddress (front (others env c1))) = Inr k" "opened = Some k'"
      "connOut k' = connOut k @ s1 @ s2" "connIn k = r1 @ r2 @ connIn k'"
      "hop (fpUsername (front (others env c1))) (fpPassword (front (others env c1))) (Address exit) s1 r1"
      "hop (Username exit) (Password exit) target s2 r2" "connClosed k' = connClosed k"
    by (elim exE conjE)
  have same: "front (others env c1) = front c"
    using assms(2) beginFrontAttempt_front [OF begun] by simp
  show ?thesis
    unfolding if_P [OF True]
    by (intro conjI exI [of _ "others env c1"] exI [of _ k] exI [of _ s1] exI [of _ r1]
        exI [of _ s2] exI [of _ r2]) (use k in \<open>simp_all only: same\<close>)
next
  case False
  with assms(1) obtain c' where "connectDirect env c exit target = (Inr k', c', opened)"
    by (auto simp: Connect_def Let_def split: option.splits prod.splits)
  from connectDirect_success [OF this] False show ?thesis by auto
qed

lemma dialResolved_dialled:
  "dialResolved env host port i as e = Inr k \<Longrightarrow> \<exists>j address. dial env j address = Inr k"
  by (induction env host port i as e rule: dialResolved.induct)
    (auto split: option.splits sum.splits)

lemma dialAddress_dialled: "dialAddress env c address = Inr k \<Longrightarrow> \<exists>j address. dial env j address = Inr k"
  by (auto simp: dialAddress_def split: sum.splits if_splits) (blast dest: dialResolved_dialled)+

lemma dialAddress_example: "dialAddress (exampleEnv input) c address = Inr k \<Longrightarrow> connOut k = []"
  by (auto simp: exampleEnv_def dest!: dialAddress_dialled)

theorem connect_returns_clean_tunnel_witness:
  "\<exists>k' mc'. Connect (exampleEnv ([5, 0] @ [5, 0, 0, 1, 0, 0, 0, 0, 0, 0] @ [5, 2, 1, 0]
        @ [5, 0, 0, 1, 0, 0, 0, 0, 0, 0] @ [104, 105])) (Some exampleConnector) exampleExit ''a.test:80''
      = (Inr k', mc', Some k') \<and> connIn k' = [104, 105]
    \<and> (\<exists>s1 s2 r1 r2. connOut k' = s1 @ s2 \<and> hop [] [] ''exit.test:1080'' s1 r1 \<and> hop ''u'' ''p'' ''a.test:80'' s2 r2)"
proof -
  let ?env = "exampleEnv ([5, 0] @ [5, 0, 0, 1, 0, 0, 0, 0, 0, 0] @ [5, 2, 1, 0]
        @ [5, 0, 0, 1, 0, 0, 0, 0, 0, 0] @ [104, 105])"
  let ?run = "Connect ?env (Some exampleConnector) exampleExit ''a.test:80''"
  have "\<not> isl (fst ?run) \<and> connIn (projr (fst ?run)) = [104, 105]" by code_simp
  then obtain k' where k: "fst ?run = Inr k'" "connIn k' = [104, 105]" by (cases "fst ?run") auto
  then have run: "?run = (Inr k', fst (snd ?run), snd (snd ?run))" by (metis prod.collapse)
  have "fpEnabled (front exampleConnector) \<and> fpUsername (front exampleConnector) = []
      \<and> fpPassword (front exampleConnector) = []" by code_simp
  moreover from connect_returns_clean_tunnel [OF run] calculation
  obtain d k s1 s2 r1 r2 where "snd (snd ?run) = Some k'"
    "dialAddress ?env d (fpAddress (front exampleConnector)) = Inr k" "connOut k' = connOut k @ s1 @ s2"
    "hop [] [] ''exit.test:1080'' s1 r1" "hop ''u'' ''p'' ''a.test:80'' s2 r2" by auto
  moreover from this have "connOut k = []"
    using dialAddress_example by blast
  ultimately show ?thesis using run k(2) by auto
qed

end
