(* ===== verification/Store.thy ===== *)
theory Store
  imports Errors "HOL-Library.Product_Lexorder" "HOL-Library.List_Lexorder" "HOL-Library.Char_ord"
begin

text \<open>
  internal/store/store.go: the SQLite tables and the operations on them. A table is an association
  list under its primary key. Every operation takes the fault pattern of its statements: \<open>f n\<close> tells
  whether the n-th call on the database or transaction fails; a failed statement changes nothing and
  a failed transaction is rolled back. Instants are stored as Unix seconds, so reading one back
  loses its fraction of a second.
\<close>

section \<open>Rows\<close>

datatype leaseStatus = LeaseActive | LeasePending | LeaseBlocked

definition unixEpoch :: int where
  "unixEpoch = 62135596800"

definition Unix :: "time \<Rightarrow> int" where
  "Unix t = t div Second - unixEpoch"

definition fromUnix :: "int \<Rightarrow> time" where
  "fromUnix s = (s + unixEpoch) * Second"

lemma fromUnix_Unix: "fromUnix (Unix t) = t - t mod Second"
  by (simp add: fromUnix_def Unix_def minus_mod_eq_div_mult)

lemma fromUnix_Unix_bounds: "fromUnix (Unix t) \<le> t \<and> t < fromUnix (Unix t) + Second"
  using pos_mod_bound [of Second t] pos_mod_sign [of Second t] by (simp add: fromUnix_Unix)

record StoreLease =
  slClientIP :: string
  slProxyID :: string
  slStatus :: leaseStatus
  slExpiresAt :: time
  slUpdatedAt :: time

record StoreProxy =
  spID :: string
  spAddress :: string
  spUsername :: string
  spPassword :: string
  spDisabled :: bool
  spCreatedAt :: time
  spUpdatedAt :: time

record DynamicProxy =
  dpProxyID :: string
  dpCountry :: string
  dpDurationMinutes :: int
  dpProviderExpiresAt :: time

record Event =
  evTime :: time
  evClientIP :: string
  evProxyID :: string
  evEvent :: string
  evDetail :: string

text \<open>The rows hold whole seconds.\<close>

definition wholeSeconds :: "time \<Rightarrow> time" where
  "wholeSeconds t = fromUnix (Unix t)"

definition leaseRow :: "StoreLease \<Rightarrow> StoreLease" where
  "leaseRow l = l\<lparr>slExpiresAt := wholeSeconds (slExpiresAt l), slUpdatedAt := wholeSeconds (slUpdatedAt l)\<rparr>"

definition dynamicRow :: "DynamicProxy \<Rightarrow> DynamicProxy" where
  "dynamicRow d = d\<lparr>dpProviderExpiresAt := wholeSeconds (dpProviderExpiresAt d)\<rparr>"

record DB =
  dbLeases :: "StoreLease table"
  dbProxies :: "StoreProxy table"
  dbDynamic :: "DynamicProxy table"
  dbEvents :: "Event list"

definition emptyDB :: DB where
  "emptyDB = \<lparr>dbLeases = [], dbProxies = [], dbDynamic = [], dbEvents = []\<rparr>"

type_synonym faults = "nat \<Rightarrow> bool"

definition sqlError :: goError where
  "sqlError = ErrIO ''sqlite''"

section \<open>Statements\<close>

definition insertProxy :: "time \<Rightarrow> StoreProxy \<Rightarrow> DB \<Rightarrow> DB" where
  "insertProxy now p db =
     (case get (dbProxies db) (spID p) of
        None \<Rightarrow> db\<lparr>dbProxies := put (spID p)
          (p\<lparr>spCreatedAt := wholeSeconds (if spCreatedAt p = 0 then now else spCreatedAt p),
             spUpdatedAt := wholeSeconds now\<rparr>) (dbProxies db)\<rparr>
      | Some old \<Rightarrow> db\<lparr>dbProxies := put (spID p)
          (p\<lparr>spCreatedAt := spCreatedAt old, spUpdatedAt := wholeSeconds now\<rparr>) (dbProxies db)\<rparr>)"

definition deleteDynamicRow :: "string \<Rightarrow> DB \<Rightarrow> DB" where
  "deleteDynamicRow pid db = db\<lparr>dbDynamic := del pid (dbDynamic db)\<rparr>"

definition deleteProxyRow :: "string \<Rightarrow> DB \<Rightarrow> DB" where
  "deleteProxyRow pid db = db\<lparr>dbProxies := del pid (dbProxies db)\<rparr>"

definition insertDynamic :: "DynamicProxy \<Rightarrow> DB \<Rightarrow> DB" where
  "insertDynamic d db = db\<lparr>dbDynamic := put (dpProxyID d) (dynamicRow d) (dbDynamic db)\<rparr>"

definition insertLease :: "StoreLease \<Rightarrow> DB \<Rightarrow> DB" where
  "insertLease l db = db\<lparr>dbLeases := put (slClientIP l) (leaseRow l) (dbLeases db)\<rparr>"

definition deleteLeaseRow :: "string \<Rightarrow> DB \<Rightarrow> DB" where
  "deleteLeaseRow ip db = db\<lparr>dbLeases := del ip (dbLeases db)\<rparr>"

section \<open>Operations\<close>

definition exec :: "faults \<Rightarrow> (DB \<Rightarrow> DB) \<Rightarrow> DB \<Rightarrow> goError option \<times> DB" where
  "exec f stmt db = (if f 0 then (Some sqlError, db) else (None, stmt db))"

text \<open>\<open>BEGIN\<close>, the statements in order, \<open>COMMIT\<close>; the first failure rolls everything back.\<close>

fun runStatements :: "faults \<Rightarrow> nat \<Rightarrow> (DB \<Rightarrow> DB) list \<Rightarrow> DB \<Rightarrow> DB option" where
  "runStatements f n [] db = (if f n then None else Some db)"
| "runStatements f n (stmt # stmts) db =
     (if f n then None else runStatements f (Suc n) stmts (stmt db))"

definition transact :: "faults \<Rightarrow> (DB \<Rightarrow> DB) list \<Rightarrow> DB \<Rightarrow> goError option \<times> DB" where
  "transact f stmts db =
     (if f 0 then (Some sqlError, db)
      else case runStatements f 1 stmts db of
             None \<Rightarrow> (Some sqlError, db)
           | Some db' \<Rightarrow> (None, db'))"

definition UpsertProxy :: "faults \<Rightarrow> time \<Rightarrow> StoreProxy \<Rightarrow> DB \<Rightarrow> goError option \<times> DB" where
  "UpsertProxy f now p = exec f (insertProxy now p)"

definition DBDeleteProxy :: "faults \<Rightarrow> string \<Rightarrow> DB \<Rightarrow> goError option \<times> DB" where
  "DBDeleteProxy f pid = transact f [deleteDynamicRow pid, deleteProxyRow pid]"

definition UpsertLease :: "faults \<Rightarrow> StoreLease \<Rightarrow> DB \<Rightarrow> goError option \<times> DB" where
  "UpsertLease f l = exec f (insertLease l)"

definition DeleteLease :: "faults \<Rightarrow> string \<Rightarrow> DB \<Rightarrow> goError option \<times> DB" where
  "DeleteLease f ip = exec f (deleteLeaseRow ip)"

definition AddEvent :: "faults \<Rightarrow> time \<Rightarrow> string \<Rightarrow> string \<Rightarrow> string \<Rightarrow> string \<Rightarrow> DB \<Rightarrow> DB" where
  "AddEvent f now ip pid event detail db = snd (exec f (\<lambda>db. db\<lparr>dbEvents := dbEvents db @
     [\<lparr>evTime = wholeSeconds now, evClientIP = ip, evProxyID = pid, evEvent = event, evDetail = detail\<rparr>]\<rparr>) db)"

definition ActivateDynamicLease :: "faults \<Rightarrow> time \<Rightarrow> StoreProxy \<Rightarrow> DynamicProxy \<Rightarrow> StoreLease \<Rightarrow> string
    \<Rightarrow> DB \<Rightarrow> goError option \<times> DB" where
  "ActivateDynamicLease f now p d l deleteID =
     transact f ([insertProxy now (p\<lparr>spDisabled := False, spCreatedAt := now\<rparr>), insertDynamic d, insertLease l]
       @ (if deleteID \<noteq> [] \<and> deleteID \<noteq> spID p then [deleteDynamicRow deleteID, deleteProxyRow deleteID]
          else []))"

definition DeleteLeaseAndProxy :: "faults \<Rightarrow> string \<Rightarrow> string \<Rightarrow> DB \<Rightarrow> goError option \<times> DB" where
  "DeleteLeaseAndProxy f ip pid =
     transact f (deleteLeaseRow ip # (if pid \<noteq> [] then [deleteDynamicRow pid, deleteProxyRow pid] else []))"

definition ListProxies :: "DB \<Rightarrow> StoreProxy list" where
  "ListProxies db = sort_key (\<lambda>p. (spCreatedAt p, spID p)) (map snd (dbProxies db))"

definition ListDynamicProxies :: "DB \<Rightarrow> DynamicProxy list" where
  "ListDynamicProxies db = map snd (dbDynamic db)"

definition ListLeases :: "DB \<Rightarrow> StoreLease list" where
  "ListLeases db = map snd (dbLeases db)"

section \<open>Laws\<close>

definition db_ok :: "DB \<Rightarrow> bool" where
  "db_ok db \<longleftrightarrow> keys_ok (dbLeases db) \<and> keys_ok (dbProxies db) \<and> keys_ok (dbDynamic db)
     \<and> (\<forall>k l. get (dbLeases db) k = Some l \<longrightarrow> slClientIP l = k)
     \<and> (\<forall>k p. get (dbProxies db) k = Some p \<longrightarrow> spID p = k)
     \<and> (\<forall>k d. get (dbDynamic db) k = Some d \<longrightarrow> dpProxyID d = k)"

text \<open>
  The contract of a store of rows that its clients rely on: an operation that fails leaves the store
  as it was, and all operations keep it well-formed.
\<close>

locale atomic_op =
  fixes wf :: "'db \<Rightarrow> bool"
    and perform :: "'db \<Rightarrow> 'db"
    and op :: "'db \<Rightarrow> goError option \<times> 'db"
  assumes all_or_nothing: "op db = (e, db') \<Longrightarrow> db' = (if e = None then perform db else db)"
    and wf_perform: "wf db \<Longrightarrow> wf (perform db)"
begin

lemma wf_op: "wf db \<Longrightarrow> wf (snd (op db))"
  using all_or_nothing [of db "fst (op db)" "snd (op db)"] wf_perform [of db] by simp

lemma failed_unchanged: "op db = (Some e, db') \<Longrightarrow> db' = db"
  using all_or_nothing by fastforce

lemma succeeded: "op db = (None, db') \<Longrightarrow> db' = perform db"
  using all_or_nothing by fastforce

end

lemma runStatements_Some: "runStatements f n stmts db = Some db' \<Longrightarrow> db' = fold (\<lambda>g. g) stmts db"
  by (induction stmts arbitrary: n db) (auto split: if_splits)

lemma transact_result: "transact f stmts db = (e, db') \<Longrightarrow> db' = (if e = None then fold (\<lambda>g. g) stmts db else db)"
  by (auto simp: transact_def split: if_splits option.splits dest: runStatements_Some)

lemma exec_result: "exec f stmt db = (e, db') \<Longrightarrow> db' = (if e = None then stmt db else db)"
  by (auto simp: exec_def split: if_splits)

lemma statements_ok [simp]:
  "db_ok db \<Longrightarrow> db_ok (insertProxy now p db)" "db_ok db \<Longrightarrow> db_ok (deleteDynamicRow pid db)"
  "db_ok db \<Longrightarrow> db_ok (deleteProxyRow pid db)" "db_ok db \<Longrightarrow> db_ok (insertDynamic d db)"
  "db_ok db \<Longrightarrow> db_ok (insertLease l db)" "db_ok db \<Longrightarrow> db_ok (deleteLeaseRow ip db)"
  by (auto simp: db_ok_def insertProxy_def deleteDynamicRow_def deleteProxyRow_def insertDynamic_def
      insertLease_def deleteLeaseRow_def leaseRow_def dynamicRow_def split: option.splits if_splits)

interpretation upsertProxy: atomic_op db_ok "insertProxy now p" "UpsertProxy f now p" for f now p
  by unfold_locales (auto simp: UpsertProxy_def dest: exec_result)

interpretation deleteProxy: atomic_op db_ok "\<lambda>db. deleteProxyRow pid (deleteDynamicRow pid db)"
  "DBDeleteProxy f pid" for f pid
  by unfold_locales (auto simp: DBDeleteProxy_def dest: transact_result)

interpretation upsertLease: atomic_op db_ok "insertLease l" "UpsertLease f l" for f l
  by unfold_locales (auto simp: UpsertLease_def dest: exec_result)

interpretation deleteLease: atomic_op db_ok "deleteLeaseRow ip" "DeleteLease f ip" for f ip
  by unfold_locales (auto simp: DeleteLease_def dest: exec_result)

definition activated :: "time \<Rightarrow> StoreProxy \<Rightarrow> DynamicProxy \<Rightarrow> StoreLease \<Rightarrow> string \<Rightarrow> DB \<Rightarrow> DB" where
  "activated now p d l deleteID db =
     (let db = insertLease l (insertDynamic d (insertProxy now (p\<lparr>spDisabled := False, spCreatedAt := now\<rparr>) db)) in
      if deleteID \<noteq> [] \<and> deleteID \<noteq> spID p then deleteProxyRow deleteID (deleteDynamicRow deleteID db)
      else db)"

interpretation activateDynamic: atomic_op db_ok "activated now p d l deleteID"
  "ActivateDynamicLease f now p d l deleteID" for f now p d l deleteID
  by unfold_locales (auto simp: ActivateDynamicLease_def activated_def Let_def dest: transact_result)

interpretation deleteLeaseAndProxy: atomic_op db_ok
  "\<lambda>db. (if pid = [] then deleteLeaseRow ip db
         else deleteProxyRow pid (deleteDynamicRow pid (deleteLeaseRow ip db)))"
  "DeleteLeaseAndProxy f ip pid" for f ip pid
  by unfold_locales (auto simp: DeleteLeaseAndProxy_def dest: transact_result)

section \<open>Properties\<close>

lemma get_insertProxy:
  "get (dbProxies (insertProxy now p db)) k =
     (if k = spID p then Some (p\<lparr>spCreatedAt := (case get (dbProxies db) (spID p) of
          None \<Rightarrow> wholeSeconds (if spCreatedAt p = 0 then now else spCreatedAt p)
        | Some old \<Rightarrow> spCreatedAt old), spUpdatedAt := wholeSeconds now\<rparr>)
      else get (dbProxies db) k)"
  by (simp add: insertProxy_def split: option.split)

lemma insertProxy_frame [simp]:
  "dbLeases (insertProxy now p db) = dbLeases db" "dbDynamic (insertProxy now p db) = dbDynamic db"
  "dbEvents (insertProxy now p db) = dbEvents db"
  by (simp_all add: insertProxy_def split: option.split)

text \<open>
  C21. Activating a dynamic lease is atomic. Whatever statement fails, the database is either exactly
  what it was, or holds the lease, its enabled proxy and its provider data together, with the
  replaced proxy gone and every other lease untouched; it never holds a lease without its proxy.
\<close>

theorem dynamic_activation_is_atomic:
  assumes "ActivateDynamicLease f now p d l deleteID db = (e, db')" and "db_ok db"
    and "dpProxyID d = spID p"
  shows "db_ok db' \<and> (e \<noteq> None \<longrightarrow> db' = db) \<and>
    (e = None \<longrightarrow>
       get (dbLeases db') (slClientIP l) = Some (leaseRow l)
       \<and> (\<exists>row. get (dbProxies db') (spID p) = Some row \<and> \<not> spDisabled row \<and> spAddress row = spAddress p)
       \<and> get (dbDynamic db') (spID p) = Some (dynamicRow d)
       \<and> (deleteID \<noteq> [] \<and> deleteID \<noteq> spID p \<longrightarrow>
            get (dbProxies db') deleteID = None \<and> get (dbDynamic db') deleteID = None)
       \<and> (\<forall>ip. ip \<noteq> slClientIP l \<longrightarrow> get (dbLeases db') ip = get (dbLeases db) ip))"
proof (cases e)
  case (Some err)
  with assms(1) have "db' = db" using activateDynamic.failed_unchanged by blast
  with Some assms(2) show ?thesis by simp
next
  case None
  with assms(1) have db': "db' = activated now p d l deleteID db"
    using activateDynamic.succeeded by blast
  with assms(2) have "db_ok db'" using activateDynamic.wf_perform by blast
  then show ?thesis
    using None assms(3)
    by (simp add: db' activated_def Let_def insertLease_def insertDynamic_def deleteProxyRow_def
        deleteDynamicRow_def get_insertProxy)
qed

definition exampleRow :: "string \<Rightarrow> StoreProxy" where
  "exampleRow k = \<lparr>spID = k, spAddress = ''10.0.0.9:1080'', spUsername = [], spPassword = [],
     spDisabled = False, spCreatedAt = 0, spUpdatedAt = 0\<rparr>"

definition exampleDynamic :: "string \<Rightarrow> DynamicProxy" where
  "exampleDynamic k = \<lparr>dpProxyID = k, dpCountry = ''DE'', dpDurationMinutes = 5, dpProviderExpiresAt = 7\<rparr>"

definition exampleLease :: StoreLease where
  "exampleLease = \<lparr>slClientIP = ''c'', slProxyID = ''p2'', slStatus = LeaseActive, slExpiresAt = 7, slUpdatedAt = 3\<rparr>"

theorem dynamic_activation_is_atomic_witness:
  "get (dbProxies (snd (ActivateDynamicLease (\<lambda>_. False) 5 (exampleRow ''p2'') (exampleDynamic ''p2'')
      exampleLease ''p1'' (insertProxy 1 (exampleRow ''p1'') emptyDB)))) ''p1'' = None
   \<and> snd (ActivateDynamicLease (\<lambda>n. n = 3) 5 (exampleRow ''p2'') (exampleDynamic ''p2'')
      exampleLease ''p1'' emptyDB) = emptyDB"
proof -
  have ok: "db_ok emptyDB" by (simp add: db_ok_def emptyDB_def)
  have ids: "dpProxyID (exampleDynamic ''p2'') = spID (exampleRow ''p2'')"
    by (simp add: exampleDynamic_def exampleRow_def)
  let ?db = "insertProxy 1 (exampleRow ''p1'') emptyDB"
  let ?run = "\<lambda>f. ActivateDynamicLease f 5 (exampleRow ''p2'') (exampleDynamic ''p2'') exampleLease ''p1''"
  have good: "fst (?run (\<lambda>_. False) ?db) = None" by code_simp
  have bad: "fst (?run (\<lambda>n. n = 3) emptyDB) \<noteq> None" by code_simp
  have "''p1'' \<noteq> spID (exampleRow ''p2'')" by (simp add: exampleRow_def)
  with dynamic_activation_is_atomic [OF prod.collapse [symmetric] statements_ok(1) [OF ok] ids,
      of "\<lambda>_. False" 5 exampleLease "''p1''" 1 "exampleRow ''p1''"] good
  have "get (dbProxies (snd (?run (\<lambda>_. False) ?db))) ''p1'' = None" by simp
  moreover from dynamic_activation_is_atomic [OF prod.collapse [symmetric] ok ids,
      of "\<lambda>n. n = 3" 5 exampleLease "''p1''"] bad
  have "snd (?run (\<lambda>n. n = 3) emptyDB) = emptyDB" by blast
  ultimately show ?thesis by blast
qed

text \<open>
  A lease survives a restart up to its fraction of a second: after a successful upsert exactly
  one row of \<open>ListLeases\<close> belongs to the client, with the same proxy and status and an expiry that is
  at most a second earlier and never later, so a restored lease does not outlive the granted one.
\<close>

theorem lease_roundtrip:
  assumes "UpsertLease f l db = (None, db')" and "db_ok db"
  shows "\<exists>row. row \<in> set (ListLeases db') \<and> (\<forall>r\<in>set (ListLeases db'). slClientIP r = slClientIP l \<longrightarrow> r = row)
    \<and> slClientIP row = slClientIP l \<and> slProxyID row = slProxyID l \<and> slStatus row = slStatus l
    \<and> slExpiresAt row \<le> slExpiresAt l \<and> slExpiresAt l < slExpiresAt row + Second"
proof -
  have db': "db' = insertLease l db" by (rule upsertLease.succeeded [OF assms(1)])
  then have ok: "db_ok db'" using assms(2) by simp
  have here: "get (dbLeases db') (slClientIP l) = Some (leaseRow l)" by (simp add: db' insertLease_def)
  then have "(slClientIP l, leaseRow l) \<in> set (dbLeases db')" by (rule map_of_SomeD)
  from imageI [OF this, of snd] have mem: "leaseRow l \<in> set (ListLeases db')"
    by (simp add: ListLeases_def)
  have unique: "r = leaseRow l" if "r \<in> set (ListLeases db')" "slClientIP r = slClientIP l" for r
  proof -
    from that(1) obtain k where "(k, r) \<in> set (dbLeases db')" by (auto simp: ListLeases_def)
    moreover have "keys_ok (dbLeases db')" using ok by (simp add: db_ok_def)
    ultimately have k: "get (dbLeases db') k = Some r" by (simp add: set_get)
    with ok have "slClientIP r = k" unfolding db_ok_def by blast
    with that(2) here k show ?thesis by simp
  qed
  have "slClientIP (leaseRow l) = slClientIP l \<and> slProxyID (leaseRow l) = slProxyID l
      \<and> slStatus (leaseRow l) = slStatus l \<and> slExpiresAt (leaseRow l) \<le> slExpiresAt l
      \<and> slExpiresAt l < slExpiresAt (leaseRow l) + Second"
    using fromUnix_Unix_bounds [of "slExpiresAt l"] by (simp add: leaseRow_def wholeSeconds_def)
  with mem show ?thesis
    by (intro exI [of _ "leaseRow l"] conjI ballI impI) (simp_all only:, rule unique)
qed

theorem lease_roundtrip_witness:
  "\<exists>row. row \<in> set (ListLeases (snd (UpsertLease (\<lambda>_. False) exampleLease emptyDB))) \<and> slProxyID row = ''p2''"
proof -
  have "UpsertLease (\<lambda>_. False) exampleLease emptyDB
      = (None, snd (UpsertLease (\<lambda>_. False) exampleLease emptyDB))"
    by (simp add: UpsertLease_def exec_def)
  moreover have "db_ok emptyDB" by (simp add: db_ok_def emptyDB_def)
  ultimately obtain row where "row \<in> set (ListLeases (snd (UpsertLease (\<lambda>_. False) exampleLease emptyDB)))"
    "slProxyID row = slProxyID exampleLease" using lease_roundtrip by blast
  then show ?thesis by (auto simp: exampleLease_def)
qed

end
