(* ===== verification/PoolState.thy ===== *)
theory PoolState
  imports Connector Store FakeIP
begin

text \<open>
  internal/manager/manager.go, the state of the lease manager and the helpers that run under
  \<open>m.mu\<close>. A \<open>net.Conn\<close> is a number. Database calls inside one section are numbered, and the fault
  pattern of the n-th is \<open>f n\<close>. One instant \<open>now\<close> stands for all the clock readings of a section.
\<close>

section \<open>Records\<close>

datatype proxyStatus =
  ProxyIdle | ProxyChecking | ProxyActive | ProxyDraining | ProxyUnhealthy | ProxyDisabled

datatype proxySource = ProxySourcePool | ProxySourceAPI

record Proxy =
  pID :: string
  pAddress :: string
  pUsername :: string
  pPassword :: string
  pStatus :: proxyStatus
  pClientIP :: string
  pDrainingFor :: string
  pActiveConns :: int
  pFailureCount :: int
  pSuccessCount :: int
  pLastHealthDetail :: string
  pExitIP :: string
  pDisabled :: bool
  pSource :: proxySource
  pCountry :: string
  pDurationMinutes :: int
  pProviderExpiresAt :: time

record LeaseView =
  lvClientIP :: string
  lvProxyID :: string
  lvStatus :: leaseStatus
  lvExpiresAt :: time
  lvQueuedAt :: time
  lvMode :: "proxySource option"
  lvCountry :: string
  lvDurationMinutes :: int

record Assignment =
  asClientIP :: string
  asProxyID :: string
  asStatus :: leaseStatus
  asExpiresAt :: time
  asMode :: "proxySource option"
  asCountry :: string
  asDurationMinutes :: int

record ProxyInput =
  inID :: string
  inAddress :: string
  inUsername :: string
  inPassword :: string
  inDisabled :: bool

type_synonym connID = nat

record Manager =
  mCfg :: Config
  mDB :: DB
  proxies :: "Proxy table"
  proxyOrder :: "string list"
  leases :: "LeaseView table"
  pendingNew :: "string list"
  pendingRefs :: "string list"
  conns :: "connID list table"
  closing :: "connID list"             \<comment> \<open>the connections handed to \<open>closeConnections\<close>\<close>
  connector :: Connector
  queueActive :: bool
  queueRetry :: bool
  queueTimer :: "nat option"           \<comment> \<open>the epoch that the armed timer captured\<close>
  queueEpoch :: nat
  queueBackoffUntil :: time
  queueStopped :: bool

type_synonym dbfaults = "nat \<Rightarrow> faults"

section \<open>Constructors of answers\<close>

definition assignment :: "string \<Rightarrow> string \<Rightarrow> leaseStatus \<Rightarrow> time \<Rightarrow> Assignment" where
  "assignment ip pid st expires =
     \<lparr>asClientIP = ip, asProxyID = pid, asStatus = st, asExpiresAt = expires, asMode = None,
      asCountry = [], asDurationMinutes = 0\<rparr>"

definition pendingAnswer :: "string \<Rightarrow> Assignment" where
  "pendingAnswer ip = assignment ip [] LeasePending 0"

definition assignmentFromLease :: "LeaseView \<Rightarrow> leaseStatus \<Rightarrow> Assignment" where
  "assignmentFromLease l st =
     \<lparr>asClientIP = lvClientIP l, asProxyID = lvProxyID l, asStatus = st, asExpiresAt = lvExpiresAt l,
      asMode = lvMode l, asCountry = lvCountry l, asDurationMinutes = lvDurationMinutes l\<rparr>"

section \<open>Helpers under the lock\<close>

definition modifyProxy :: "string \<Rightarrow> (Proxy \<Rightarrow> Proxy) \<Rightarrow> Manager \<Rightarrow> Manager" where
  "modifyProxy pid g m =
     (case get (proxies m) pid of None \<Rightarrow> m | Some p \<Rightarrow> m\<lparr>proxies := put pid (g p) (proxies m)\<rparr>)"

definition removeProxy :: "string \<Rightarrow> Manager \<Rightarrow> Manager" where
  "removeProxy pid m = m\<lparr>proxies := del pid (proxies m), proxyOrder := removeIP (proxyOrder m) pid\<rparr>"

definition withDB :: "(DB \<Rightarrow> 'a \<times> DB) \<Rightarrow> Manager \<Rightarrow> Manager" where
  "withDB g m = m\<lparr>mDB := snd (g (mDB m))\<rparr>"

definition addEvent :: "faults \<Rightarrow> time \<Rightarrow> string \<Rightarrow> string \<Rightarrow> string \<Rightarrow> string \<Rightarrow> Manager \<Rightarrow> Manager" where
  "addEvent f now ip pid event detail m = m\<lparr>mDB := AddEvent f now ip pid event detail (mDB m)\<rparr>"

definition holdsLease :: "time \<Rightarrow> string \<Rightarrow> LeaseView \<Rightarrow> bool" where
  "holdsLease now pid l \<longleftrightarrow> lvProxyID l = pid \<and> lvStatus l = LeaseActive \<and> now < lvExpiresAt l"

definition proxyHasActiveLease :: "time \<Rightarrow> string \<Rightarrow> Manager \<Rightarrow> bool" where
  "proxyHasActiveLease now pid m = any_entry (\<lambda>_ l. holdsLease now pid l) (leases m)"

definition markProxyIdle :: "Proxy \<Rightarrow> Proxy" where
  "markProxyIdle p =
     (let p = p\<lparr>pClientIP := [], pDrainingFor := [], pActiveConns := 0\<rparr> in
      if pStatus p = ProxyUnhealthy then p else p\<lparr>pStatus := ProxyIdle\<rparr>)"

definition disableChecked :: "Proxy \<Rightarrow> Proxy" where
  "disableChecked p = p\<lparr>pStatus := ProxyDisabled, pClientIP := [], pDrainingFor := []\<rparr>"

definition releaseProxyBinding :: "string \<Rightarrow> Proxy \<Rightarrow> Proxy" where
  "releaseProxyBinding ip p =
     (let p = p\<lparr>pClientIP := []\<rparr> in
      if pActiveConns p > 0 then
        p\<lparr>pDrainingFor := ip,
          pStatus := (if pStatus p \<noteq> ProxyUnhealthy then ProxyDraining else pStatus p)\<rparr>
      else let p = p\<lparr>pDrainingFor := []\<rparr> in
        if pStatus p = ProxyUnhealthy then p
        else p\<lparr>pStatus := (if pDisabled p then ProxyDisabled else ProxyIdle)\<rparr>)"

definition idleCandidate :: "time \<Rightarrow> Manager \<Rightarrow> string \<Rightarrow> bool" where
  "idleCandidate now m pid \<longleftrightarrow>
     (case get (proxies m) pid of
        None \<Rightarrow> False
      | Some p \<Rightarrow> pSource p \<noteq> ProxySourceAPI \<and> pStatus p = ProxyIdle \<and> \<not> pDisabled p
                  \<and> \<not> proxyHasActiveLease now (pID p) m)"

definition takeIdleProxy :: "time \<Rightarrow> Manager \<Rightarrow> string option" where
  "takeIdleProxy now m = List.find (idleCandidate now m) (proxyOrder m)"

definition hasIdleProxy :: "time \<Rightarrow> Manager \<Rightarrow> bool" where
  "hasIdleProxy now m \<longleftrightarrow> takeIdleProxy now m \<noteq> None"

definition hasQueued :: "Manager \<Rightarrow> bool" where
  "hasQueued m \<longleftrightarrow> pendingNew m \<noteq> [] \<or> pendingRefs m \<noteq> []"

definition cancelQueueRetry :: "Manager \<Rightarrow> Manager" where
  "cancelQueueRetry m =
     (if \<not> queueRetry m \<and> queueTimer m = None then m
      else m\<lparr>queueEpoch := queueEpoch m + 1, queueTimer := None, queueRetry := False\<rparr>)"

definition removeQueued :: "string \<Rightarrow> Manager \<Rightarrow> Manager" where
  "removeQueued ip m =
     (let m = m\<lparr>pendingNew := removeIP (pendingNew m) ip, pendingRefs := removeIP (pendingRefs m) ip\<rparr> in
      if \<not> hasQueued m then cancelQueueRetry (m\<lparr>queueBackoffUntil := 0\<rparr>) else m)"

definition stampQueued :: "time \<Rightarrow> string \<Rightarrow> Manager \<Rightarrow> Manager" where
  "stampQueued now ip m =
     (case get (leases m) ip of
        None \<Rightarrow> m
      | Some l \<Rightarrow> m\<lparr>leases := put ip (l\<lparr>lvQueuedAt := now\<rparr>) (leases m)\<rparr>)"

definition enqueueNew :: "time \<Rightarrow> string \<Rightarrow> Manager \<Rightarrow> Manager" where
  "enqueueNew now ip m =
     (if ip \<in> set (pendingNew m) then m
      else stampQueued now ip (m\<lparr>pendingNew := pendingNew m @ [ip]\<rparr>))"

definition enqueueRefresh :: "time \<Rightarrow> string \<Rightarrow> Manager \<Rightarrow> Manager" where
  "enqueueRefresh now ip m =
     (if ip \<in> set (pendingRefs m) then m
      else stampQueued now ip (m\<lparr>pendingRefs := pendingRefs m @ [ip]\<rparr>))"

definition deferQueueRetry :: "time \<Rightarrow> duration \<Rightarrow> Manager \<Rightarrow> Manager" where
  "deferQueueRetry now delay m =
     (if now + delay > queueBackoffUntil m then m\<lparr>queueBackoffUntil := now + delay\<rparr> else m)"

definition frontQueueRetryAfter :: "time \<Rightarrow> Manager \<Rightarrow> duration" where
  "frontQueueRetryAfter now m =
     (let r = max (FrontRetryAfter now (Some (connector m))) (queueBackoffUntil m - now) in
      if r > 0 then r
      else if fsStatus (FrontStatusOf (Some (connector m))) = ''half_open'' then halfOpenRetryDelay
      else 0)"

definition connectionSnapshot :: "string \<Rightarrow> Manager \<Rightarrow> connID list" where
  "connectionSnapshot ip m =
     concat (map (\<lambda>(k, cs). if ip \<noteq> [] \<and> k \<noteq> ip then [] else cs) (conns m))"

definition sameEndpoint :: "string \<Rightarrow> string \<Rightarrow> bool" where
  "sameEndpoint left right =
     (case (SplitHostPort left, SplitHostPort right) of
        (Inr (lh, lp), Inr (rh, rp)) \<Rightarrow>
          (let lh = TrimSuffix (ToLower lh) ''.''; rh = TrimSuffix (ToLower rh) ''.'';
               (lh, rh) = (case (ParseIP lh, ParseIP rh) of
                             (Some a, Some b) \<Rightarrow> (ipString a, ipString b) | _ \<Rightarrow> (lh, rh))
           in case (Atoi lp, Atoi rp) of (Some a, Some b) \<Rightarrow> lh = rh \<and> a = b | _ \<Rightarrow> False)
      | _ \<Rightarrow> False)"

definition frontAddressConflict :: "Manager \<Rightarrow> string \<Rightarrow> bool" where
  "frontAddressConflict m address \<longleftrightarrow>
     FrontEnabled (Some (connector m)) \<and> sameEndpoint address (fsAddress (FrontStatusOf (Some (connector m))))"

section \<open>Releasing\<close>

text \<open>The two loops of \<open>releaseLocked\<close> over the proxy order.\<close>

definition releaseDraining :: "string \<Rightarrow> string \<Rightarrow> Manager \<Rightarrow> Manager" where
  "releaseDraining ip pid m =
     (case get (proxies m) pid of
        None \<Rightarrow> m
      | Some p \<Rightarrow> if pDrainingFor p = ip then modifyProxy pid (releaseProxyBinding ip) m else m)"

fun dropDynamic :: "dbfaults \<Rightarrow> time \<Rightarrow> nat \<Rightarrow> string list \<Rightarrow> Manager \<Rightarrow> Manager" where
  "dropDynamic f now n [] m = m"
| "dropDynamic f now n (pid # pids) m =
     (case get (proxies m) pid of
        None \<Rightarrow> dropDynamic f now n pids m
      | Some p \<Rightarrow>
          if pSource p \<noteq> ProxySourceAPI \<or> pActiveConns p > 0 \<or> proxyHasActiveLease now pid m
          then dropDynamic f now n pids m
          else dropDynamic f now (Suc n) pids (withDB (DBDeleteProxy (f n) pid) (removeProxy pid m)))"

definition releaseLocked :: "dbfaults \<Rightarrow> time \<Rightarrow> string \<Rightarrow> bool \<Rightarrow> Manager \<Rightarrow> Manager" where
  "releaseLocked f now ip closeConns m =
     (case get (leases m) ip of
        None \<Rightarrow> removeQueued ip m
      | Some l \<Rightarrow>
          let m = removeQueued ip (m\<lparr>leases := del ip (leases m)\<rparr>);
              m = (if proxyHasActiveLease now (lvProxyID l) m then m
                   else modifyProxy (lvProxyID l) (releaseProxyBinding ip) m);
              m = fold (releaseDraining ip) (proxyOrder m) m;
              m = withDB (DeleteLease (f 0) ip) m;
              m = dropDynamic f now 2 (proxyOrder m) m;
              m = addEvent (f 1) now ip (lvProxyID l) ''released'' [] m
          in if closeConns then m\<lparr>closing := closing m @ connectionSnapshot ip m\<rparr> else m)"

end
