(* ===== verification/Pool.thy ===== *)
theory Pool
  imports PoolState
begin

text \<open>
  internal/manager/manager.go, the atomic sections of the lease manager: answering, connection
  accounting, reserving a proxy, the decision after a probe, the wait queues and the administration
  of the pool. The loops that run these sections one after the other are in \<open>LeaseEngine\<close>.
\<close>

section \<open>Answers and connections\<close>

definition Current :: "string \<Rightarrow> Manager \<Rightarrow> Assignment" where
  "Current ip m =
     (if ip \<in> set (pendingNew m) then pendingAnswer ip
      else case get (leases m) ip of
        None \<Rightarrow> assignment ip [] LeaseBlocked 0
      | Some l \<Rightarrow> assignmentFromLease l (if ip \<in> set (pendingRefs m) then LeasePending else lvStatus l))"

definition ErrNoLease :: goError where
  "ErrNoLease = ErrString ''no active lease''"

definition registered :: "Manager \<Rightarrow> string \<Rightarrow> connID list" where
  "registered m ip = (case get (conns m) ip of None \<Rightarrow> [] | Some cs \<Rightarrow> cs)"

definition AcquireProxyConn :: "time \<Rightarrow> string \<Rightarrow> connID option \<Rightarrow> Manager \<Rightarrow> (goError + Proxy) \<times> Manager" where
  "AcquireProxyConn now ip mconn m =
     (case mconn of
        None \<Rightarrow> (Inl (ErrString ''connection is required''), m)
      | Some c \<Rightarrow>
        (case get (leases m) ip of
           None \<Rightarrow> (Inl ErrNoLease, m)
         | Some l \<Rightarrow>
             if lvStatus l \<noteq> LeaseActive \<or> now > lvExpiresAt l then (Inl ErrNoLease, m)
             else case get (proxies m) (lvProxyID l) of
               None \<Rightarrow> (Inl ErrNoLease, m)
             | Some p \<Rightarrow>
                 if pStatus p \<noteq> ProxyActive \<or> pClientIP p \<noteq> ip then (Inl ErrNoLease, m)
                 else
                   let m = (if get (conns m) ip = None then m\<lparr>conns := put ip [] (conns m)\<rparr> else m) in
                   if c \<in> set (registered m ip)
                   then (Inl (ErrString ''connection is already registered''), m)
                   else
                     let p = p\<lparr>pActiveConns := pActiveConns p + 1\<rparr> in
                     (Inr p, m\<lparr>conns := put ip (registered m ip @ [c]) (conns m),
                               proxies := put (lvProxyID l) p (proxies m)\<rparr>)))"

text \<open>
  \<open>UnregisterConn\<close> ends with calls outside the lock: deleting the row of a dynamic proxy that just
  ended, and waking the queue; the second component tells whether it wakes it.
\<close>

definition dropConn :: "string \<Rightarrow> connID \<Rightarrow> Manager \<Rightarrow> Manager" where
  "dropConn ip c m =
     (case get (conns m) ip of
        None \<Rightarrow> m
      | Some cs \<Rightarrow>
          let cs = filter (\<lambda>x. x \<noteq> c) cs in
          m\<lparr>conns := (if cs = [] then del ip (conns m) else put ip cs (conns m))\<rparr>)"

definition UnregisterConn :: "dbfaults \<Rightarrow> time \<Rightarrow> string \<Rightarrow> string \<Rightarrow> connID \<Rightarrow> Manager \<Rightarrow> bool \<times> Manager" where
  "UnregisterConn f now ip pid c m =
     (let was = (c \<in> set (registered m ip)); m = dropConn ip c m in
      case get (proxies m) pid of
        None \<Rightarrow> (False, m)
      | Some p \<Rightarrow>
          if \<not> was \<or> pActiveConns p \<le> 0 then (False, m)
          else
            let n = pActiveConns p - 1; p = p\<lparr>pActiveConns := n\<rparr>;
                m = m\<lparr>proxies := put pid p (proxies m)\<rparr> in
            if n = 0 \<and> pSource p = ProxySourceAPI \<and> \<not> proxyHasActiveLease now (pID p) m
            then (False, withDB (DBDeleteProxy (f 0) (pID p)) (removeProxy (pID p) m))
            else if pStatus p = ProxyDraining \<and> n = 0 then
              (let p = p\<lparr>pClientIP := [], pDrainingFor := [],
                         pStatus := (if pDisabled p then ProxyDisabled else ProxyIdle)\<rparr>
               in (\<not> pDisabled p, m\<lparr>proxies := put pid p (proxies m)\<rparr>))
            else (False, m))"

definition CloseClientConnections :: "string \<Rightarrow> Manager \<Rightarrow> Manager" where
  "CloseClientConnections ip m = m\<lparr>closing := closing m @ connectionSnapshot ip m\<rparr>"

definition Release :: "dbfaults \<Rightarrow> time \<Rightarrow> string \<Rightarrow> Manager \<Rightarrow> Manager" where
  "Release f now ip m = releaseLocked f now ip True m"

text \<open>\<open>expireLeases\<close>: first the expired clients, then one locked release after the other.\<close>

definition expiredClients :: "time \<Rightarrow> Manager \<Rightarrow> string list" where
  "expiredClients now m =
     map fst (filter (\<lambda>(ip, l). lvStatus l = LeaseActive \<and> now > lvExpiresAt l) (leases m))"

fun expireEach :: "(nat \<Rightarrow> dbfaults) \<Rightarrow> (nat \<Rightarrow> time) \<Rightarrow> nat \<Rightarrow> string list \<Rightarrow> Manager \<Rightarrow> Manager" where
  "expireEach f clock n [] m = m"
| "expireEach f clock n (ip # ips) m =
     expireEach f clock (Suc n) ips (releaseLocked (f n) (clock n) ip True m)"

definition expireLeases :: "(nat \<Rightarrow> dbfaults) \<Rightarrow> (nat \<Rightarrow> time) \<Rightarrow> Manager \<Rightarrow> Manager" where
  "expireLeases f clock m = expireEach f clock 1 (expiredClients (clock 0) m) m"

section \<open>Reserving\<close>

definition enqueuePendingLease :: "dbfaults \<Rightarrow> time \<Rightarrow> string \<Rightarrow> bool \<Rightarrow> Manager \<Rightarrow> Assignment \<times> Manager" where
  "enqueuePendingLease f now ip refresh m =
     (let detail = (if refresh then ''refresh=true'' else ''refresh=false'');
          m = (if refresh then enqueueRefresh now ip m else enqueueNew now ip m);
          m' = addEvent (f 0) now ip [] ''pending'' detail m in
      case get (leases m) ip of
        Some l \<Rightarrow>
          if refresh \<and> lvStatus l = LeaseActive
          then (assignment ip (lvProxyID l) LeasePending (lvExpiresAt l), m')
          else (pendingAnswer ip, m')
      | None \<Rightarrow> (pendingAnswer ip, m'))"

definition checkFor :: "string \<Rightarrow> Proxy \<Rightarrow> Proxy" where
  "checkFor ip p = p\<lparr>pStatus := ProxyChecking, pClientIP := ip, pDrainingFor := []\<rparr>"

definition reserveIdle ::
    "dbfaults \<Rightarrow> time \<Rightarrow> string \<Rightarrow> bool \<Rightarrow> Manager \<Rightarrow> (Assignment + Proxy) \<times> Manager" where
  "reserveIdle g now ip refresh m =
     (case takeIdleProxy now m of
        None \<Rightarrow> (case enqueuePendingLease g now ip refresh m of (a, m) \<Rightarrow> (Inl a, m))
      | Some pid \<Rightarrow>
          (let p = checkFor ip (the (get (proxies m) pid))
           in (Inr p, m\<lparr>proxies := put pid p (proxies m)\<rparr>)))"

definition releaseIfExpired :: "dbfaults \<Rightarrow> time \<Rightarrow> string \<Rightarrow> Manager \<Rightarrow> Manager" where
  "releaseIfExpired f now ip m =
     (case get (leases m) ip of
        None \<Rightarrow> m
      | Some l \<Rightarrow> if lvStatus l = LeaseActive \<and> now > lvExpiresAt l then releaseLocked f now ip True m
                  else m)"

definition reserveProxyForLease ::
    "dbfaults \<Rightarrow> dbfaults \<Rightarrow> time \<Rightarrow> string \<Rightarrow> bool \<Rightarrow> Manager \<Rightarrow> (Assignment + Proxy) \<times> Manager" where
  "reserveProxyForLease f g now ip refresh m =
     (let m = releaseIfExpired f now ip m in
      case get (leases m) ip of
        None \<Rightarrow> reserveIdle g now ip refresh m
      | Some l \<Rightarrow>
          if \<not> refresh \<and> lvStatus l = LeaseActive
          then (Inl (assignment ip (lvProxyID l) LeaseActive (lvExpiresAt l)), m)
          else reserveIdle g now ip refresh m)"

section \<open>After a probe\<close>

definition markProbeFailed :: "faults \<Rightarrow> time \<Rightarrow> string \<Rightarrow> goError \<Rightarrow> Manager \<Rightarrow> Manager" where
  "markProbeFailed f now pid err m =
     addEvent f now [] pid ''proxy_unhealthy'' (errorText err)
       (modifyProxy pid (\<lambda>p. p\<lparr>pFailureCount := pFailureCount p + 1, pSuccessCount := 0,
          pLastHealthDetail := errorText err, pStatus := ProxyUnhealthy, pClientIP := [],
          pDrainingFor := []\<rparr>) m)"

record ambiguousProbe =
  apProxyID :: string
  apAddress :: string
  apToken :: FrontToken
  apErr :: goError

definition checkedBy :: "string \<Rightarrow> string \<Rightarrow> Manager \<Rightarrow> Proxy option" where
  "checkedBy ip pid m =
     (case get (proxies m) pid of
        None \<Rightarrow> None
      | Some p \<Rightarrow> if pStatus p \<noteq> ProxyChecking \<or> pClientIP p \<noteq> ip then None else Some p)"

definition restoreProbe :: "string \<Rightarrow> ambiguousProbe \<Rightarrow> Manager \<Rightarrow> Manager" where
  "restoreProbe ip probe m =
     (case checkedBy ip (apProxyID probe) m of
        None \<Rightarrow> m
      | Some p \<Rightarrow> modifyProxy (apProxyID probe) (if pDisabled p then disableChecked else markProxyIdle) m)"

definition restoreAmbiguousProbes :: "string \<Rightarrow> ambiguousProbe list \<Rightarrow> Manager \<Rightarrow> Manager" where
  "restoreAmbiguousProbes ip probes m = fold (restoreProbe ip) probes m"

definition failProbe :: "faults \<Rightarrow> time \<Rightarrow> string \<Rightarrow> ambiguousProbe \<Rightarrow> Manager \<Rightarrow> Manager" where
  "failProbe f now ip probe m =
     (case checkedBy ip (apProxyID probe) m of
        None \<Rightarrow> m
      | Some p \<Rightarrow> if pDisabled p then modifyProxy (apProxyID probe) disableChecked m
                  else markProbeFailed f now (apProxyID probe) (apErr probe) m)"

fun markAmbiguousProbesFailed :: "dbfaults \<Rightarrow> nat \<Rightarrow> time \<Rightarrow> string \<Rightarrow> ambiguousProbe list \<Rightarrow> Manager \<Rightarrow> Manager" where
  "markAmbiguousProbesFailed f n now ip [] m = m"
| "markAmbiguousProbesFailed f n now ip (probe # probes) m =
     markAmbiguousProbesFailed f (Suc n) now ip probes (failProbe (f n) now ip probe m)"

definition deferCheckedProxy :: "time \<Rightarrow> string \<Rightarrow> string \<Rightarrow> bool \<Rightarrow> Manager \<Rightarrow> Assignment \<times> Manager" where
  "deferCheckedProxy now pid ip refresh m =
     (let m = modifyProxy pid markProxyIdle m in
      if refresh then
        (let m = enqueueRefresh now ip m in
         case get (leases m) ip of
           Some l \<Rightarrow> if lvStatus l = LeaseActive
                     then (assignment ip (lvProxyID l) LeasePending (lvExpiresAt l), m)
                     else (pendingAnswer ip, m)
         | None \<Rightarrow> (pendingAnswer ip, m))
      else (pendingAnswer ip, enqueueNew now ip m))"

definition canceledProbeAssignment ::
    "string \<Rightarrow> ambiguousProbe list \<Rightarrow> string \<Rightarrow> bool \<Rightarrow> Manager \<Rightarrow> Assignment \<times> Manager" where
  "canceledProbeAssignment pid probes ip refresh m =
     (let m = modifyProxy pid (\<lambda>p. if pDisabled p then disableChecked p else markProxyIdle p) m;
          m = restoreAmbiguousProbes ip probes m in
      case get (leases m) ip of
        Some l \<Rightarrow> if refresh \<and> lvStatus l = LeaseActive
                  then (assignment ip (lvProxyID l) LeasePending (lvExpiresAt l), m)
                  else (pendingAnswer ip, m)
      | None \<Rightarrow> (pendingAnswer ip, m))"

definition unbindOld :: "string \<Rightarrow> Proxy \<Rightarrow> Proxy" where
  "unbindOld ip p =
     (if pActiveConns p > 0 then p\<lparr>pStatus := ProxyDraining, pClientIP := [], pDrainingFor := ip\<rparr>
      else markProxyIdle p)"

definition activateCheckedProxy ::
    "dbfaults \<Rightarrow> time \<Rightarrow> string \<Rightarrow> string \<Rightarrow> bool \<Rightarrow> string \<Rightarrow> Manager \<Rightarrow> Assignment \<times> Manager" where
  "activateCheckedProxy f now pid ip refresh exitIP m =
     (let expires = now + LeaseTTL (mCfg m);
          m = (if refresh then
                 (case get (leases m) ip of
                    Some old \<Rightarrow> if lvProxyID old \<noteq> [] then modifyProxy (lvProxyID old) (unbindOld ip) m else m
                  | None \<Rightarrow> m)
               else m);
          m = modifyProxy pid (\<lambda>p. p\<lparr>pStatus := ProxyActive, pClientIP := ip, pDrainingFor := [],
                 pFailureCount := 0, pSuccessCount := pSuccessCount p + 1, pLastHealthDetail := [],
                 pExitIP := (if exitIP \<noteq> [] then exitIP else pExitIP p)\<rparr>) m;
          m = removeQueued ip m;
          m = m\<lparr>leases := put ip \<lparr>lvClientIP = ip, lvProxyID = pid, lvStatus = LeaseActive,
                 lvExpiresAt = expires, lvQueuedAt = 0, lvMode = None, lvCountry = [],
                 lvDurationMinutes = 0\<rparr> (leases m)\<rparr>;
          m = withDB (UpsertLease (f 0) \<lparr>slClientIP = ip, slProxyID = pid, slStatus = LeaseActive,
                 slExpiresAt = expires, slUpdatedAt = now\<rparr>) m;
          m = addEvent (f 1) now ip pid ''assigned'' (if refresh then ''refresh=true'' else ''refresh=false'') m
      in (assignment ip pid LeaseActive expires, m))"

text \<open>Evidence partitions the ambiguous probes into those it contradicts and the rest.\<close>

definition evidenceResolves :: "FrontEvidence \<Rightarrow> ambiguousProbe \<Rightarrow> bool" where
  "evidenceResolves ev probe \<longleftrightarrow>
     \<not> (Sequence (apToken probe) = 0 \<or> feGeneration ev \<noteq> Generation (apToken probe)
        \<or> feSequence ev \<le> Sequence (apToken probe) \<or> sameEndpoint (feExitAddress ev) (apAddress probe))"

definition partitionAmbiguousProbesByEvidence ::
    "ambiguousProbe list \<Rightarrow> FrontEvidence \<Rightarrow> ambiguousProbe list \<times> ambiguousProbe list" where
  "partitionAmbiguousProbesByEvidence probes ev =
     (filter (\<lambda>p. \<not> evidenceResolves ev p) probes, filter (evidenceResolves ev) probes)"

definition frontEvidenceForProbeResult ::
    "Connector \<Rightarrow> string \<Rightarrow> goError option \<Rightarrow> FrontEvidence option" where
  "frontEvidenceForProbeResult c address err =
     (let tok = (case Option.bind err asPhaseError of Some pe \<Rightarrow> Token pe | None \<Rightarrow> noToken) in
      if FrontEstablished err \<and> Sequence tok \<noteq> 0
      then Some \<lparr>feExitAddress = address, feGeneration = Generation tok, feSequence = Sequence tok, feAt = 0\<rparr>
      else if err \<noteq> None then None
      else case RecentFrontEvidence (Some c) of
        None \<Rightarrow> None
      | Some ev \<Rightarrow> if sameEndpoint (feExitAddress ev) address then Some ev else None)"

fun distinctEndpoints :: "string list \<Rightarrow> ambiguousProbe list \<Rightarrow> nat" where
  "distinctEndpoints addresses [] = length addresses"
| "distinctEndpoints addresses (probe # probes) =
     (if Sequence (apToken probe) = 0 \<or> list_ex (\<lambda>a. sameEndpoint a (apAddress probe)) addresses
      then distinctEndpoints addresses probes
      else distinctEndpoints (addresses @ [apAddress probe]) probes)"

definition distinctAmbiguousEndpoints :: "ambiguousProbe list \<Rightarrow> nat" where
  "distinctAmbiguousEndpoints probes = distinctEndpoints [] probes"

definition ambiguousTokenRange :: "ambiguousProbe list \<Rightarrow> (FrontToken \<times> FrontToken) option" where
  "ambiguousTokenRange probes =
     (case filter (\<lambda>t. Sequence t \<noteq> 0) (map apToken probes) of
        [] \<Rightarrow> None
      | t # ts \<Rightarrow> Some (t, last (t # ts)))"

text \<open>
  The locked section of \<open>ensureLease\<close> after a probe. It either goes round again, or answers (the flag
  tells whether it then wakes the queue), or answers after the batch of ambiguous probes has been
  resolved.
\<close>

datatype probeStep =
    Again "ambiguousProbe list"
  | Answer bool Assignment
  | ResolveBatch "ambiguousProbe list" Assignment

type_synonym probeResult = "goError + string"

definition resultErr :: "probeResult \<Rightarrow> goError option" where
  "resultErr r = (case r of Inl err \<Rightarrow> Some err | Inr _ \<Rightarrow> None)"

definition absorbEvidence ::
    "dbfaults \<Rightarrow> time \<Rightarrow> string \<Rightarrow> ambiguousProbe list \<Rightarrow> FrontEvidence option \<Rightarrow> Manager
      \<Rightarrow> ambiguousProbe list \<times> Manager" where
  "absorbEvidence f now ip ambiguous ev m =
     (case ev of
        None \<Rightarrow> (ambiguous, m)
      | Some ev \<Rightarrow>
          if ambiguous = [] then (ambiguous, m)
          else (case partitionAmbiguousProbesByEvidence ambiguous ev of
                  (unresolved, validated) \<Rightarrow> (unresolved, markAmbiguousProbesFailed f 2 now ip validated m)))"

definition afterProbe ::
    "dbfaults \<Rightarrow> time \<Rightarrow> bool \<Rightarrow> FrontEvidence option \<Rightarrow> string \<Rightarrow> bool \<Rightarrow> string \<Rightarrow> probeResult
      \<Rightarrow> ambiguousProbe list \<Rightarrow> Manager \<Rightarrow> probeStep \<times> Manager" where
  "afterProbe f now stopped ev ip refresh pid r ambiguous m =
     (case checkedBy ip pid m of
        None \<Rightarrow> (Again ambiguous, m)
      | Some current \<Rightarrow>
          if pDisabled current then (Again ambiguous, modifyProxy pid disableChecked m)
          else if stopped then
            (case canceledProbeAssignment pid ambiguous ip refresh m of (a, m) \<Rightarrow> (Answer False a, m))
          else if FailureScopeOf (resultErr r) = FailureScopeShared then
            (case deferCheckedProxy now pid ip refresh m of
               (a, m) \<Rightarrow> (Answer True a, restoreAmbiguousProbes ip ambiguous m))
          else if FailureScopeOf (resultErr r) = FailureScopeAmbiguous then
            (let token = (case AmbiguousFailureToken (resultErr r) of Some t \<Rightarrow> t | None \<Rightarrow> noToken);
                 ambiguous = ambiguous @ [\<lparr>apProxyID = pID current, apAddress = pAddress current,
                                           apToken = token, apErr = projl r\<rparr>] in
             if distinctAmbiguousEndpoints ambiguous \<ge> 2 then
               (case enqueuePendingLease f now ip refresh m of (a, m) \<Rightarrow> (ResolveBatch ambiguous a, m))
             else (Again ambiguous, m))
          else
            (case absorbEvidence f now ip ambiguous ev m of
               (ambiguous, m) \<Rightarrow>
                 (case r of
                    Inl err \<Rightarrow> (Again ambiguous, markProbeFailed (f 0) now pid err m)
                  | Inr exitIP \<Rightarrow>
                      (case activateCheckedProxy f now pid ip refresh exitIP (restoreAmbiguousProbes ip ambiguous m) of
                         (a, m) \<Rightarrow> (Answer False a, m)))))"

section \<open>Before the loop\<close>

definition unexpiredLease :: "time \<Rightarrow> string \<Rightarrow> Manager \<Rightarrow> LeaseView option" where
  "unexpiredLease now ip m =
     (case get (leases m) ip of
        None \<Rightarrow> None
      | Some l \<Rightarrow> if lvStatus l = LeaseActive \<and> now < lvExpiresAt l then Some l else None)"

definition frontBackoffAssignment :: "time \<Rightarrow> string \<Rightarrow> bool \<Rightarrow> Manager \<Rightarrow> Assignment option \<times> Manager" where
  "frontBackoffAssignment now ip refresh m =
     (if frontQueueRetryAfter now m \<le> 0 then (None, m)
      else case unexpiredLease now ip m of
        Some l \<Rightarrow>
          if \<not> refresh then (Some (assignment ip (lvProxyID l) LeaseActive (lvExpiresAt l)), m)
          else (Some (assignment ip (lvProxyID l) LeasePending (lvExpiresAt l)), enqueueRefresh now ip m)
      | None \<Rightarrow> (Some (pendingAnswer ip), enqueueNew now ip m))"

definition assignmentCanceled :: "time \<Rightarrow> string \<Rightarrow> Manager \<Rightarrow> Assignment" where
  "assignmentCanceled now ip m =
     (case unexpiredLease now ip m of
        Some l \<Rightarrow> assignment ip (lvProxyID l) LeaseActive (lvExpiresAt l)
      | None \<Rightarrow> pendingAnswer ip)"

record pendingSnapshot =
  snapNew :: bool
  snapRefresh :: bool

definition takeSnapshot :: "string \<Rightarrow> Manager \<Rightarrow> pendingSnapshot" where
  "takeSnapshot ip m = \<lparr>snapNew = (ip \<in> set (pendingNew m)), snapRefresh = (ip \<in> set (pendingRefs m))\<rparr>"

definition restorePendingSnapshot :: "string \<Rightarrow> pendingSnapshot \<Rightarrow> Manager \<Rightarrow> Manager" where
  "restorePendingSnapshot ip snap m =
     m\<lparr>pendingNew := (if snapNew snap then pendingNew m else removeIP (pendingNew m) ip),
       pendingRefs := (if snapRefresh snap then pendingRefs m else removeIP (pendingRefs m) ip)\<rparr>"

section \<open>The queue worker\<close>

definition scheduleQueueRetry :: "Manager \<Rightarrow> Manager" where
  "scheduleQueueRetry m =
     (let m = cancelQueueRetry m; e = queueEpoch m + 1
      in m\<lparr>queueRetry := True, queueEpoch := e, queueTimer := Some e\<rparr>)"

text \<open>\<open>processQueueAsync\<close> under the lock; the result tells whether a worker was started.\<close>

definition processQueueAsync :: "time \<Rightarrow> Manager \<Rightarrow> bool \<times> Manager" where
  "processQueueAsync now m =
     (if queueStopped m \<or> queueActive m \<or> queueRetry m then (False, m)
      else if \<not> hasQueued m \<or> \<not> hasIdleProxy now m then (False, m)
      else if frontQueueRetryAfter now m > 0 then (False, scheduleQueueRetry m)
      else (True, m\<lparr>queueActive := True\<rparr>))"

text \<open>The worker's last section and the timer's callback; the flag asks for \<open>processQueueAsync\<close>.\<close>

definition workerDone :: "time \<Rightarrow> Manager \<Rightarrow> bool \<times> Manager" where
  "workerDone now m =
     (let m = m\<lparr>queueActive := False\<rparr> in (\<not> queueStopped m \<and> hasQueued m \<and> hasIdleProxy now m, m))"

definition timerFired :: "time \<Rightarrow> nat \<Rightarrow> Manager \<Rightarrow> bool \<times> Manager" where
  "timerFired now epoch m =
     (if \<not> queueRetry m \<or> epoch \<noteq> queueEpoch m then (False, m)
      else let m = m\<lparr>queueRetry := False, queueTimer := None\<rparr>
           in (\<not> queueStopped m \<and> hasQueued m \<and> hasIdleProxy now m, m))"

definition stopQueueProcessing :: "Manager \<Rightarrow> Manager" where
  "stopQueueProcessing m = cancelQueueRetry (m\<lparr>queueStopped := True\<rparr>)"

definition nextQueuedClient :: "time \<Rightarrow> Manager \<Rightarrow> (string \<times> bool) option \<times> Manager" where
  "nextQueuedClient now m =
     (if \<not> hasIdleProxy now m then (None, m)
      else case pendingNew m of
        ip # rest \<Rightarrow> (Some (ip, False), m\<lparr>pendingNew := rest\<rparr>)
      | [] \<Rightarrow>
        (case pendingRefs m of
           ip # rest \<Rightarrow> (Some (ip, True), m\<lparr>pendingRefs := rest\<rparr>)
         | [] \<Rightarrow> (None, m)))"

section \<open>Administration of the pool\<close>

definition storeProxyOf :: "Proxy \<Rightarrow> StoreProxy" where
  "storeProxyOf p = \<lparr>spID = pID p, spAddress = pAddress p, spUsername = pUsername p,
     spPassword = pPassword p, spDisabled = pDisabled p, spCreatedAt = 0, spUpdatedAt = 0\<rparr>"

definition newPoolProxy :: "ProxyInput \<Rightarrow> Proxy" where
  "newPoolProxy i = \<lparr>pID = inID i, pAddress = inAddress i, pUsername = inUsername i, pPassword = inPassword i,
     pStatus = (if inDisabled i then ProxyDisabled else ProxyIdle), pClientIP = [], pDrainingFor = [],
     pActiveConns = 0, pFailureCount = 0, pSuccessCount = 0, pLastHealthDetail = [], pExitIP = [],
     pDisabled = inDisabled i, pSource = ProxySourcePool, pCountry = [], pDurationMinutes = 0,
     pProviderExpiresAt = 0\<rparr>"

definition conflictError :: goError where
  "conflictError = ErrString ''proxy address must differ from front_proxy.address''"

definition AddProxy :: "faults \<Rightarrow> time \<Rightarrow> ProxyInput \<Rightarrow> Manager \<Rightarrow> (goError + Proxy) \<times> Manager" where
  "AddProxy f now i m =
     (if inID i = [] then (Inl (ErrString ''id is required''), m)
      else case SplitHostPort (inAddress i) of
        Inl err \<Rightarrow> (Inl (ErrWrap ''address'' err), m)
      | Inr _ \<Rightarrow>
          if frontAddressConflict m (inAddress i) then (Inl conflictError, m)
          else if get (proxies m) (inID i) \<noteq> None then (Inl (ErrString ''proxy already exists''), m)
          else let p = newPoolProxy i in
            (case UpsertProxy f now (storeProxyOf p) (mDB m) of
               (Some err, db) \<Rightarrow> (Inl err, m\<lparr>mDB := db\<rparr>)
             | (None, db) \<Rightarrow>
                 (Inr p, m\<lparr>mDB := db, proxies := put (pID p) p (proxies m),
                           proxyOrder := sort (proxyOrder m @ [pID p])\<rparr>)))"

definition edited :: "ProxyInput \<Rightarrow> Proxy \<Rightarrow> Proxy" where
  "edited i p = p\<lparr>pAddress := inAddress i, pUsername := inUsername i, pPassword := inPassword i,
     pDisabled := inDisabled i,
     pStatus := (if inDisabled i \<and> pStatus p = ProxyIdle then ProxyDisabled
                 else if pStatus p = ProxyDisabled then ProxyIdle else pStatus p)\<rparr>"

definition UpdateProxy :: "faults \<Rightarrow> time \<Rightarrow> string \<Rightarrow> ProxyInput \<Rightarrow> Manager \<Rightarrow> (goError + Proxy) \<times> Manager" where
  "UpdateProxy f now pid i m =
     (case SplitHostPort (inAddress i) of
        Inl err \<Rightarrow> (Inl (ErrWrap ''address'' err), m)
      | Inr _ \<Rightarrow>
          if frontAddressConflict m (inAddress i) then (Inl conflictError, m)
          else case get (proxies m) pid of
            None \<Rightarrow> (Inl (ErrString ''proxy not found''), m)
          | Some p \<Rightarrow>
              let p = edited i p;
                  m = m\<lparr>proxies := put pid p (proxies m)\<rparr> in
              (case UpsertProxy f now ((storeProxyOf p)\<lparr>spID := pid\<rparr>) (mDB m) of
                 (Some err, db) \<Rightarrow> (Inl err, m\<lparr>mDB := db\<rparr>)
               | (None, db) \<Rightarrow> (Inr p, m\<lparr>mDB := db\<rparr>)))"

definition switched :: "bool \<Rightarrow> Proxy \<Rightarrow> Proxy" where
  "switched disabled p = p\<lparr>pDisabled := disabled,
     pStatus := (if disabled \<and> pStatus p = ProxyIdle then ProxyDisabled
                 else if \<not> disabled \<and> pStatus p = ProxyDisabled then ProxyIdle else pStatus p)\<rparr>"

definition SetProxyDisabled :: "faults \<Rightarrow> time \<Rightarrow> string \<Rightarrow> bool \<Rightarrow> Manager \<Rightarrow> (goError + Proxy) \<times> Manager" where
  "SetProxyDisabled f now pid disabled m =
     (case get (proxies m) pid of
        None \<Rightarrow> (Inl (ErrString ''proxy not found''), m)
      | Some p \<Rightarrow>
          let p = switched disabled p;
              m = m\<lparr>proxies := put pid p (proxies m)\<rparr> in
          (case UpsertProxy f now (storeProxyOf p) (mDB m) of
             (Some err, db) \<Rightarrow> (Inl err, m\<lparr>mDB := db\<rparr>)
           | (None, db) \<Rightarrow> (Inr p, m\<lparr>mDB := db\<rparr>)))"

definition inUse :: "Proxy \<Rightarrow> bool" where
  "inUse p \<longleftrightarrow> pStatus p \<in> {ProxyActive, ProxyChecking, ProxyDraining} \<or> pActiveConns p > 0"

definition DeleteProxy :: "faults \<Rightarrow> string \<Rightarrow> Manager \<Rightarrow> goError option \<times> Manager" where
  "DeleteProxy f pid m =
     (case get (proxies m) pid of
        None \<Rightarrow> (Some (ErrString ''proxy not found''), m)
      | Some p \<Rightarrow>
          if inUse p then (Some (ErrString ''proxy is in use''), m)
          else (case DBDeleteProxy f pid (mDB m) of
                  (Some err, db) \<Rightarrow> (Some err, m\<lparr>mDB := db\<rparr>)
                | (None, db) \<Rightarrow> (None, removeProxy pid (m\<lparr>mDB := db\<rparr>))))"

definition clearableProxies :: "Manager \<Rightarrow> string list" where
  "clearableProxies m =
     filter (\<lambda>pid. case get (proxies m) pid of None \<Rightarrow> False | Some p \<Rightarrow> \<not> inUse p) (proxyOrder m)"

definition proxyCheckSnapshot :: "string \<Rightarrow> Manager \<Rightarrow> Proxy option" where
  "proxyCheckSnapshot pid m =
     (case get (proxies m) pid of
        None \<Rightarrow> None
      | Some p \<Rightarrow> if pDisabled p \<or> pStatus p = ProxyDisabled \<or> pStatus p = ProxyChecking then None else Some p)"

section \<open>The empty manager\<close>

definition blankManager :: "Config \<Rightarrow> DB \<Rightarrow> Connector \<Rightarrow> Manager" where
  "blankManager cfg db c =
     \<lparr>mCfg = cfg, mDB = db, proxies = [], proxyOrder = [], leases = [], pendingNew = [], pendingRefs = [],
      conns = [], closing = [], connector = c, queueActive = False, queueRetry = False, queueTimer = None,
      queueEpoch = 0, queueBackoffUntil = 0, queueStopped = False\<rparr>"

text \<open>A manager without front proxy, for the witnesses: two idle proxies and no lease.\<close>

definition exampleConfig :: Config where
  "exampleConfig = setDefaults
     \<lparr>DBPath = [], LeaseTTL = 100, cfgHealthCheck = \<lparr>hcEnabled = False, hcInterval = 0, hcTimeout = 0,
        hcConcurrency = 0, hcTargetHost = ''example.org'', hcTargetPort = 80, hcExitIPURL = [],
        hcFailureThreshold = 1, hcSuccessThreshold = 1\<rparr>,
      cfgAPI = \<lparr>apiListen = [], apiClientKey = ''c'', apiAdminKey = ''a'', apiTrustProxy = False, apiGeoIPDBPath = []\<rparr>,
      cfgGateway = \<lparr>gwListen = [], gwTransparentProxy = True, gwBlockedPorts = [''25''], gwDialTimeout = 0, gwIdleTimeout = 0\<rparr>,
      cfgFrontProxy = \<lparr>fpEnabled = False, fpProtocol = [], fpAddress = [], fpUsername = [], fpPassword = [], fpFailOpen = False\<rparr>,
      cfgProxyAPI = \<lparr>paEnabled = False, paURL = [], paCountryParam = [], paDurationParam = []\<rparr>,
      cfgDNS = \<lparr>dnsListen = [], dnsFakeIPCIDR = [], dnsUpstream = [], dnsBlockedQTyp = []\<rparr>,
      cfgRouting = \<lparr>rtEnabled = False, rtGeositePath = [], rtDefaultAction = [], rtDirectDomains = [],
        rtProxyDomains = [], rtBlockDomains = [], rtRules = []\<rparr>,
      cfgProxies = []\<rparr>"

definition plainConnector :: Connector where
  "plainConnector = projr (newConnector (cfgFrontProxy exampleConfig) [])"

definition examplePoolProxy :: "string \<Rightarrow> string \<Rightarrow> Proxy" where
  "examplePoolProxy pid address = newPoolProxy
     \<lparr>inID = pid, inAddress = address, inUsername = [], inPassword = [], inDisabled = False\<rparr>"

definition exampleManager :: Manager where
  "exampleManager = (blankManager exampleConfig emptyDB plainConnector)
     \<lparr>proxies := [(''p1'', examplePoolProxy ''p1'' ''10.0.0.1:1080''), (''p2'', examplePoolProxy ''p2'' ''10.0.0.2:1080'')],
      proxyOrder := [''p1'', ''p2'']\<rparr>"

end
