(* ===== verification/ProviderApi.thy ===== *)
theory ProviderApi
  imports Config
begin

unbundle bit_operations_syntax

text \<open>
  internal/providerapi/client.go: the client of the HTTP service that rents proxies. \<open>url.Parse\<close>,
  the JSON decoder, DNS resolution and the HTTP exchange are arguments; what the client accepts as an
  answer and which addresses it lets the HTTP transport dial are modelled in full. The error type of
  the package is the constructor \<open>ErrProvider\<close> of \<open>Errors\<close>, and \<open>ErrorKindOf\<close> stands there.
\<close>

section \<open>The client\<close>

definition requestTimeout :: duration where
  "requestTimeout = 15 * Second"

definition maxResponseBody :: nat where
  "maxResponseBody = 64 * 1024"

record ProviderEndpoint =
  peAddress :: string
  peUsername :: string
  pePassword :: string

text \<open>The HTTP client is determined by the front proxy it dials through, if any.\<close>

record Client =
  clCfg :: ProxyAPI
  clFront :: "FrontProxy option"

definition normalizedConfig :: "ProxyAPI \<Rightarrow> ProxyAPI" where
  "normalizedConfig cfg = cfg
     \<lparr>paURL := TrimSpace (paURL cfg),
      paCountryParam := orElse [] ''region'' (TrimSpace (paCountryParam cfg)),
      paDurationParam := orElse [] ''time'' (TrimSpace (paDurationParam cfg))\<rparr>"

definition newHTTPClient :: "FrontProxy \<Rightarrow> goError + FrontProxy option" where
  "newHTTPClient front =
     (if \<not> fpEnabled front then Inr None
      else
        let protocol = ToLower (TrimSpace (fpProtocol front));
            front = front\<lparr>fpProtocol := orElse [] ''socks5'' protocol, fpAddress := TrimSpace (fpAddress front)\<rparr> in
        if fpProtocol front \<noteq> ''socks5''
        then Inl (ErrString (''unsupported front proxy protocol '' @ Quote (fpProtocol front)))
        else case SplitHostPort (fpAddress front) of
          Inl err \<Rightarrow> Inl (ErrWrap ''front proxy address'' err)
        | Inr _ \<Rightarrow> Inr (Some front))"

definition newClient :: "(string \<Rightarrow> URL option) \<Rightarrow> ProxyAPI \<Rightarrow> FrontProxy \<Rightarrow> goError + Client" where
  "newClient parseURL cfg front =
     (let cfg = normalizedConfig cfg in
      case ValidateProxyAPI parseURL cfg of
        Some err \<Rightarrow> Inl err
      | None \<Rightarrow>
          (case newHTTPClient front of
             Inl err \<Rightarrow> Inl err
           | Inr f \<Rightarrow> Inr \<lparr>clCfg = cfg, clFront = f\<rparr>))"

section \<open>Endpoints\<close>

definition validateEndpoint :: "string \<Rightarrow> string \<Rightarrow> string \<Rightarrow> string \<Rightarrow> goError + ProviderEndpoint" where
  "validateEndpoint host port username password =
     (let host = TrimSpace host; port = TrimSpace port in
      if host = [] \<or> ContainsAny host [CHR '' '', CHR 0x09, CHR 0x0D, CHR 0x0A]
      then Inl (ErrString ''proxy API endpoint host is invalid'')
      else case Atoi port of
        None \<Rightarrow> Inl (ErrString ''proxy API endpoint port is invalid'')
      | Some portNumber \<Rightarrow>
          if portNumber < 1 \<or> portNumber > 65535 then Inl (ErrString ''proxy API endpoint port is invalid'')
          else if length username > 255 \<or> length password > 255
            then Inl (ErrString ''proxy API endpoint credentials are too long'')
          else Inr \<lparr>peAddress = JoinHostPort host (Itoa portNumber), peUsername = username, pePassword = password\<rparr>)"

definition parseTextEndpoint :: "(string \<Rightarrow> URL option) \<Rightarrow> string \<Rightarrow> goError + ProviderEndpoint" where
  "parseTextEndpoint parseURL raw =
     (if Contains raw ''://'' then
        (case parseURL raw of
           None \<Rightarrow> Inl (ErrString ''unsupported proxy URL'')
         | Some parsed \<Rightarrow>
             if urlScheme parsed \<noteq> ''socks5'' \<and> urlScheme parsed \<noteq> ''socks''
             then Inl (ErrString ''unsupported proxy URL'')
             else (case urlUser parsed of
                     None \<Rightarrow> validateEndpoint (Hostname parsed) (Port parsed) [] []
                   | Some (user, password) \<Rightarrow> validateEndpoint (Hostname parsed) (Port parsed) user password))
      else
        let parts = Split raw (CHR '':'') in
        if length parts < 2 then Inl (ErrString ''expected host:port[:username:password]'')
        else validateEndpoint (parts ! 0) (parts ! 1)
               (if length parts \<ge> 3 then parts ! 2 else [])
               (if length parts \<ge> 4 then Join (drop 3 parts) (CHR '':'') else []))"

fun parseTextLines :: "(string \<Rightarrow> URL option) \<Rightarrow> string list \<Rightarrow> ProviderEndpoint list" where
  "parseTextLines parseURL [] = []"
| "parseTextLines parseURL (raw # lines) =
     (let line = TrimSpace raw in
      if line = [] \<or> HasPrefix line ''#'' then parseTextLines parseURL lines
      else case parseTextEndpoint parseURL line of
        Inl _ \<Rightarrow> parseTextLines parseURL lines
      | Inr endpoint \<Rightarrow> endpoint # parseTextLines parseURL lines)"

definition parseTextResponse :: "(string \<Rightarrow> URL option) \<Rightarrow> string \<Rightarrow> ProviderEndpoint list" where
  "parseTextResponse parseURL text = parseTextLines parseURL (fst (ScanLines 65536 text))"

section \<open>JSON answers\<close>

text \<open>
  A decoded JSON value. The decoder is set to \<open>UseNumber\<close>, so a number is its literal text and the
  case of \<open>float64\<close> in \<open>stringValue\<close> cannot arise.
\<close>

datatype json =
    JNull | JBool bool | JNumber string | JString string
  | JArray "json list" | JObject "(string \<times> json) list"

definition stringValue :: "json option \<Rightarrow> string" where
  "stringValue v =
     (case v of
        Some (JString s) \<Rightarrow> TrimSpace s
      | Some (JNumber n) \<Rightarrow> n
      | _ \<Rightarrow> [])"

definition sanitizeProviderMessage :: "string \<Rightarrow> string" where
  "sanitizeProviderMessage message =
     take 200 (filter (\<lambda>c. \<not> (code c < 32 \<or> code c = 127)) (TrimSpace message))"

definition providerErrorMessage :: "json table \<Rightarrow> string" where
  "providerErrorMessage object =
     (case List.find (\<lambda>m. m \<noteq> [])
             (map (\<lambda>k. sanitizeProviderMessage (stringValue (get object k)))
                  [''message'', ''msg'', ''error'', ''reason'']) of
        Some message \<Rightarrow> message
      | None \<Rightarrow> [])"

definition rejected :: "string \<Rightarrow> goError" where
  "rejected message = ErrString (''proxy API rejected the request: '' @ message)"

definition endpointFromObject :: "json table \<Rightarrow> goError + ProviderEndpoint" where
  "endpointFromObject object =
     (let host = stringValue (get object ''host'');
          host = (if host = [] then stringValue (get object ''ip'') else host)
      in validateEndpoint host (stringValue (get object ''port''))
           (stringValue (get object ''username'')) (stringValue (get object ''password'')))"

lemma size_get:
  "get kvs k = Some (v :: json) \<Longrightarrow> size v < Suc (size_list (size_prod (\<lambda>_. 0) size) kvs)"
  by (induction kvs) (auto split: if_splits)

function (sequential) endpointsFromJSON :: "(string \<Rightarrow> URL option) \<Rightarrow> json \<Rightarrow> goError + ProviderEndpoint list"
  and endpointsFromItems :: "(string \<Rightarrow> URL option) \<Rightarrow> json list \<Rightarrow> goError + ProviderEndpoint list" where
  "endpointsFromJSON parseURL (JArray items) = endpointsFromItems parseURL items"
| "endpointsFromJSON parseURL (JObject object) =
     (case get object ''data'' of
        Some data \<Rightarrow>
          (case endpointsFromJSON parseURL data of
             Inr (e # es) \<Rightarrow> Inr (e # es)
           | other \<Rightarrow> if providerErrorMessage object \<noteq> []
                      then Inl (rejected (providerErrorMessage object)) else other)
      | None \<Rightarrow>
          (case endpointFromObject object of
             Inr endpoint \<Rightarrow> Inr [endpoint]
           | Inl err \<Rightarrow> if providerErrorMessage object \<noteq> []
                        then Inl (rejected (providerErrorMessage object)) else Inl err))"
| "endpointsFromJSON parseURL (JString text) =
     (case parseTextResponse parseURL text of
        [] \<Rightarrow> Inl (ErrString ''proxy API JSON string does not contain an endpoint'')
      | es \<Rightarrow> Inr es)"
| "endpointsFromJSON parseURL _ = Inl (ErrString ''proxy API JSON must contain an endpoint object or array'')"
| "endpointsFromItems parseURL [] = Inr []"
| "endpointsFromItems parseURL (item # items) =
     (case endpointsFromJSON parseURL item of
        Inl err \<Rightarrow> Inl err
      | Inr es \<Rightarrow>
          (case endpointsFromItems parseURL items of
             Inl err \<Rightarrow> Inl err
           | Inr rest \<Rightarrow> Inr (es @ rest)))"
  by pat_completeness auto

termination
  by (relation "measure (case_sum (\<lambda>(_, v). size v) (\<lambda>(_, vs). size_list size vs))")
    (auto dest: size_get)

definition exactlyOne :: "ProviderEndpoint list \<Rightarrow> goError + ProviderEndpoint" where
  "exactlyOne endpoints =
     (case endpoints of
        [e] \<Rightarrow> Inr e
      | _ \<Rightarrow> Inl (ErrString (''proxy API must return exactly one endpoint, got '' @ Itoa_nat (length endpoints))))"

definition ParseResponse ::
    "(string \<Rightarrow> URL option) \<Rightarrow> (string \<Rightarrow> goError + json) \<Rightarrow> string \<Rightarrow> goError + ProviderEndpoint" where
  "ParseResponse parseURL decode body =
     (let text = TrimSpace body in
      case text of
        [] \<Rightarrow> Inl (ErrString ''proxy API returned an empty response'')
      | c # _ \<Rightarrow>
          if c = CHR ''['' \<or> c = CHR ''{'' \<or> c = CHR 0x22 then
            (case decode text of
               Inl err \<Rightarrow> Inl err
             | Inr value \<Rightarrow>
                 (case endpointsFromJSON parseURL value of
                    Inl err \<Rightarrow> Inl err
                  | Inr endpoints \<Rightarrow> exactlyOne endpoints))
          else
            (case parseTextResponse parseURL text of
               [] \<Rightarrow> Inl (rejected (sanitizeProviderMessage text))
             | endpoints \<Rightarrow> exactlyOne endpoints))"

section \<open>Acquiring\<close>

text \<open>
  The outcome of the HTTP exchange: it fails, or there is a status with a body that may fail to read.
  \<open>Set\<close> replaces all values of a key of the query.
\<close>

datatype httpResult = HTTPFailed goError | HTTPResponse int "goError + string"

type_synonym query = "string list table"

record environment =
  envParseURL :: "string \<Rightarrow> URL option"
  envQuery :: "string \<Rightarrow> query"
  envSend :: "URL \<Rightarrow> query \<Rightarrow> httpResult"
  envDecode :: "string \<Rightarrow> goError + json"

definition providerQuery :: "ProxyAPI \<Rightarrow> string \<Rightarrow> int \<Rightarrow> query \<Rightarrow> query" where
  "providerQuery cfg country minutes q =
     put (paDurationParam cfg) [Itoa minutes] (put (paCountryParam cfg) [country] q)"

definition Acquire :: "environment \<Rightarrow> Client option \<Rightarrow> string \<Rightarrow> int \<Rightarrow> goError + ProviderEndpoint" where
  "Acquire env mc country minutes =
     (case mc of
        None \<Rightarrow> Inl (ErrProvider ErrorRequest (Some (ErrString ''proxy API is disabled'')))
      | Some c \<Rightarrow>
          if \<not> paEnabled (clCfg c)
          then Inl (ErrProvider ErrorRequest (Some (ErrString ''proxy API is disabled'')))
          else case envParseURL env (paURL (clCfg c)) of
            None \<Rightarrow> Inl (ErrProvider ErrorRequest (Some (ErrString ''invalid proxy API URL'')))
          | Some parsed \<Rightarrow>
              (case envSend env parsed (providerQuery (clCfg c) country minutes (envQuery env (urlRawQuery parsed))) of
                 HTTPFailed _ \<Rightarrow> Inl (ErrProvider ErrorRequest (Some (ErrString ''proxy API request failed'')))
               | HTTPResponse statusCode body \<Rightarrow>
                   (case body of
                      Inl err \<Rightarrow> Inl (ErrProvider ErrorResponse (Some (ErrWrap ''read proxy API response'' err)))
                    | Inr body \<Rightarrow>
                        if length body > maxResponseBody
                        then Inl (ErrProvider ErrorResponse (Some (ErrString ''proxy API response exceeds 64 KiB'')))
                        else if statusCode < 200 \<or> statusCode \<ge> 300
                        then Inl (ErrProvider ErrorRequest
                               (Some (ErrString (''proxy API returned HTTP '' @ Itoa statusCode))))
                        else case ParseResponse (envParseURL env) (envDecode env) body of
                          Inl err \<Rightarrow> Inl (ErrProvider ErrorResponse (Some err))
                        | Inr endpoint \<Rightarrow> Inr endpoint)))"

section \<open>The addresses the transport dials\<close>

text \<open>The classifications of package \<open>net\<close>; an address of another length belongs to none of them.\<close>

definition IsUnspecified :: "ip \<Rightarrow> bool" where
  "IsUnspecified a \<longleftrightarrow> To4 a = Some [0, 0, 0, 0] \<or> a = replicate 16 0"

definition IsLoopback :: "ip \<Rightarrow> bool" where
  "IsLoopback a \<longleftrightarrow> (case To4 a of Some v \<Rightarrow> v ! 0 = 127 | None \<Rightarrow> a = replicate 15 0 @ [1])"

definition IsPrivate :: "ip \<Rightarrow> bool" where
  "IsPrivate a \<longleftrightarrow>
     (case To4 a of
        Some v \<Rightarrow> v ! 0 = 10 \<or> v ! 0 = 172 \<and> v ! 1 AND 0xF0 = 16 \<or> v ! 0 = 192 \<and> v ! 1 = 168
      | None \<Rightarrow> length a = 16 \<and> a ! 0 AND 0xFE = 0xFC)"

definition IsMulticast :: "ip \<Rightarrow> bool" where
  "IsMulticast a \<longleftrightarrow>
     (case To4 a of Some v \<Rightarrow> v ! 0 AND 0xF0 = 0xE0 | None \<Rightarrow> length a = 16 \<and> a ! 0 = 0xFF)"

definition IsLinkLocalUnicast :: "ip \<Rightarrow> bool" where
  "IsLinkLocalUnicast a \<longleftrightarrow>
     (case To4 a of
        Some v \<Rightarrow> v ! 0 = 169 \<and> v ! 1 = 254
      | None \<Rightarrow> length a = 16 \<and> a ! 0 = 0xFE \<and> a ! 1 AND 0xC0 = 0x80)"

definition IsGlobalUnicast :: "ip \<Rightarrow> bool" where
  "IsGlobalUnicast a \<longleftrightarrow> (length a = 4 \<or> length a = 16) \<and> To4 a \<noteq> Some [255, 255, 255, 255]
     \<and> \<not> IsUnspecified a \<and> \<not> IsLoopback a \<and> \<not> IsMulticast a \<and> \<not> IsLinkLocalUnicast a"

definition isPublicIP :: "ip \<Rightarrow> bool" where
  "isPublicIP a \<longleftrightarrow> IsGlobalUnicast a \<and> \<not> IsPrivate a \<and> \<not> IsLoopback a \<and> \<not> IsLinkLocalUnicast a
     \<and> \<not> IsUnspecified a"

definition resolvePublicIPs :: "(string \<Rightarrow> goError + ip list) \<Rightarrow> string \<Rightarrow> goError + ip list" where
  "resolvePublicIPs lookup host =
     (case ParseIP host of
        Some parsed \<Rightarrow>
          if \<not> isPublicIP parsed then Inl (ErrString ''proxy API URL resolved to a non-public address'')
          else Inr [parsed]
      | None \<Rightarrow>
          (case lookup host of
             Inl err \<Rightarrow> Inl err
           | Inr addresses \<Rightarrow>
               (case filter isPublicIP addresses of
                  [] \<Rightarrow> Inl (ErrString ''proxy API URL did not resolve to a public address'')
                | out \<Rightarrow> Inr out)))"

text \<open>The dialer of the transport. The second result lists the addresses it handed to \<open>dial\<close>.\<close>

fun dialEach :: "(string \<Rightarrow> goError + 'c) \<Rightarrow> string \<Rightarrow> ip list \<Rightarrow> goError option \<Rightarrow> (goError + 'c option) \<times> string list" where
  "dialEach dial port [] err = (case err of None \<Rightarrow> Inr None | Some e \<Rightarrow> Inl e, [])"
| "dialEach dial port (a # addrs) err =
     (let address = JoinHostPort (ipString a) port in
      case dial address of
        Inr c \<Rightarrow> (Inr (Some c), [address])
      | Inl e \<Rightarrow> (case dialEach dial port addrs (Some e) of (r, dialled) \<Rightarrow> (r, address # dialled)))"

definition transportDial ::
    "(string \<Rightarrow> goError + ip list) \<Rightarrow> (string \<Rightarrow> goError + 'c) \<Rightarrow> string
      \<Rightarrow> (goError + 'c option) \<times> string list" where
  "transportDial lookup dial address =
     (case SplitHostPort address of
        Inl err \<Rightarrow> (Inl err, [])
      | Inr (host, port) \<Rightarrow>
          (case resolvePublicIPs lookup host of
             Inl err \<Rightarrow> (Inl err, [])
           | Inr addrs \<Rightarrow> dialEach dial port addrs None))"

definition CheckRedirect :: "URL \<Rightarrow> nat \<Rightarrow> goError option" where
  "CheckRedirect target via =
     (if via \<ge> 5 then Some (ErrString ''too many proxy API redirects'')
      else if urlScheme target \<noteq> ''https'' \<or> Hostname target = [] \<or> urlUser target \<noteq> None
      then Some (ErrString ''proxy API redirect must use a public https URL'')
      else None)"

section \<open>Accepted endpoints\<close>

definition endpoint_ok :: "ProviderEndpoint \<Rightarrow> bool" where
  "endpoint_ok e \<longleftrightarrow>
     (\<exists>host port. peAddress e = JoinHostPort host (Itoa port) \<and> host \<noteq> [] \<and> 1 \<le> port \<and> port \<le> 65535
        \<and> \<not> ContainsAny host [CHR '' '', CHR 0x09, CHR 0x0D, CHR 0x0A])
     \<and> length (peUsername e) \<le> 255 \<and> length (pePassword e) \<le> 255"

lemma validateEndpoint_ok: "validateEndpoint host port u p = Inr e \<Longrightarrow> endpoint_ok e"
  unfolding validateEndpoint_def endpoint_ok_def Let_def
  by (auto split: if_splits option.splits intro!: exI [of _ "TrimSpace host"])

lemma parseTextEndpoint_ok: "parseTextEndpoint parseURL raw = Inr e \<Longrightarrow> endpoint_ok e"
  unfolding parseTextEndpoint_def Let_def
  by (auto split: if_splits option.splits prod.splits intro: validateEndpoint_ok)

lemma parseTextLines_ok: "e \<in> set (parseTextLines parseURL ls) \<Longrightarrow> endpoint_ok e"
  by (induction ls) (auto simp: Let_def split: if_splits sum.splits intro: parseTextEndpoint_ok)

lemma parseTextResponse_ok: "e \<in> set (parseTextResponse parseURL text) \<Longrightarrow> endpoint_ok e"
  unfolding parseTextResponse_def by (rule parseTextLines_ok)

lemma endpointsFromJSON_ok:
  "endpointsFromJSON parseURL v = Inr es \<Longrightarrow> list_all endpoint_ok es"
  "endpointsFromItems parseURL vs = Inr es \<Longrightarrow> list_all endpoint_ok es"
proof (induction parseURL v and parseURL vs arbitrary: es and es rule: endpointsFromJSON_endpointsFromItems.induct)
  case (2 parseURL object)
  show ?case
  proof (cases "get object ''data''")
    case None
    with 2(2) show ?thesis
      by (auto simp: endpointFromObject_def Let_def split: sum.splits if_splits intro: validateEndpoint_ok)
  next
    case (Some data)
    with 2(2) show ?thesis
      by (auto split: sum.splits list.splits if_splits dest: 2(1) [OF Some])
  qed
next
  case (3 parseURL s)
  then show ?case
    by (auto simp: list_all_iff split: list.splits dest: parseTextResponse_ok [of _ parseURL s])
qed (auto split: sum.splits)

lemma exactlyOne_Inr: "exactlyOne es = Inr e \<Longrightarrow> es = [e]"
  by (auto simp: exactlyOne_def split: list.splits)

lemma ParseResponse_ok: "ParseResponse parseURL decode body = Inr e \<Longrightarrow> endpoint_ok e"
  unfolding ParseResponse_def Let_def
  using parseTextResponse_ok [of e parseURL "TrimSpace body"]
  by (auto split: list.splits if_splits sum.splits dest!: exactlyOne_Inr endpointsFromJSON_ok(1))

text \<open>
  C37. A rented endpoint is within bounds: whatever the provider answers, an endpoint that \<open>Acquire\<close>
  returns has a non-empty host without white space, a port between 1 and 65535 and credentials that
  fit the length bytes of SOCKS5 authentication; and the answer was a successful response of at most
  64 KiB to a request that carried exactly the wanted country and duration.
\<close>

theorem acquired_endpoint_bounds:
  assumes "Acquire env mc country minutes = Inr e"
  shows "endpoint_ok e \<and>
    (\<exists>c u statusCode body. mc = Some c \<and> paEnabled (clCfg c) \<and> envParseURL env (paURL (clCfg c)) = Some u
       \<and> (let q = providerQuery (clCfg c) country minutes (envQuery env (urlRawQuery u)) in
            envSend env u q = HTTPResponse statusCode (Inr body)
            \<and> get q (paDurationParam (clCfg c)) = Some [Itoa minutes]
            \<and> (paCountryParam (clCfg c) \<noteq> paDurationParam (clCfg c) \<longrightarrow>
                 get q (paCountryParam (clCfg c)) = Some [country]))
       \<and> 200 \<le> statusCode \<and> statusCode < 300 \<and> length body \<le> maxResponseBody)"
  using assms unfolding Acquire_def providerQuery_def Let_def
  by (auto split: option.splits if_splits httpResult.splits sum.splits dest: ParseResponse_ok)

definition exampleProvider :: environment where
  "exampleProvider = \<lparr>envParseURL = (\<lambda>s. if s = ''https://api.example/get'' then Some
       \<lparr>urlScheme = ''https'', urlOpaque = [], urlUser = None, urlHost = ''api.example'', urlPath = ''/get'',
        urlRawQuery = [], urlFragment = []\<rparr> else None),
     envQuery = (\<lambda>_. []),
     envSend = (\<lambda>u q. if q = [(''region'', [''DE'']), (''time'', [''30''])]
                then HTTPResponse 200 (Inr ''203.0.113.7:1080:user:pa:ss'') else HTTPFailed ErrEOF),
     envDecode = (\<lambda>_. Inl ErrEOF)\<rparr>"

definition exampleClient :: Client where
  "exampleClient = \<lparr>clCfg = \<lparr>paEnabled = True, paURL = ''https://api.example/get'',
     paCountryParam = ''region'', paDurationParam = ''time''\<rparr>, clFront = None\<rparr>"

theorem acquired_endpoint_bounds_witness:
  "endpoint_ok \<lparr>peAddress = ''203.0.113.7:1080'', peUsername = ''user'', pePassword = ''pa:ss''\<rparr>"
proof -
  have numbers: "Itoa 30 = ''30''" "Itoa 1080 = ''1080''" by code_simp+
  have "Acquire exampleProvider (Some exampleClient) ''DE'' 30
      = Inr \<lparr>peAddress = ''203.0.113.7:1080'', peUsername = ''user'', pePassword = ''pa:ss''\<rparr>"
    by (simp add: Acquire_def exampleProvider_def exampleClient_def maxResponseBody_def providerQuery_def
        ParseResponse_def parseTextResponse_def ScanLines_def rawLines_def dropCR_def parseTextEndpoint_def
        validateEndpoint_def TrimSpace_def is_space_def HasPrefix_def ContainsAny_def Atoi_def is_digit_def
        MaxInt64_def decimal_value_def digit_value_def JoinHostPort_def exactlyOne_def numbers Let_def)
  from acquired_endpoint_bounds [OF this] show ?thesis by blast
qed

section \<open>Dialled addresses\<close>

definition public_v4 :: "byte list \<Rightarrow> bool" where
  "public_v4 v \<longleftrightarrow> v ! 0 \<noteq> 10 \<and> v ! 0 \<noteq> 127 \<and> v \<noteq> [0, 0, 0, 0] \<and> v \<noteq> [255, 255, 255, 255]
     \<and> \<not> (v ! 0 = 172 \<and> 16 \<le> v ! 1 \<and> v ! 1 \<le> 31) \<and> \<not> (v ! 0 = 192 \<and> v ! 1 = 168)
     \<and> \<not> (v ! 0 = 169 \<and> v ! 1 = 254) \<and> \<not> (224 \<le> v ! 0 \<and> v ! 0 \<le> 239)"

text \<open>The high nibble of a byte, as the masks of the classifications take it.\<close>

lemma high_nibble: "unat ((b :: byte) AND 0xF0) = 16 * (unat b div 16)"
proof -
  have "(0xF0 :: byte) = NOT (mask 4)" by (simp add: mask_eq_exp_minus_1 not_eq_complement)
  then have "b AND 0xF0 = push_bit 4 (drop_bit 4 b)"
    by (simp add: bit_eq_iff bit_simps) auto
  moreover have "unat (push_bit 4 (drop_bit 4 b)) = take_bit 8 (push_bit 4 (drop_bit 4 (unat b)))"
    using unsigned_less [of b, where 'a = nat]
    by (simp add: unsigned_push_bit_eq unsigned_drop_bit_eq take_bit_nat_eq_self)
  moreover have "\<dots> = 16 * (unat b div 16)"
    using unsigned_less [of b, where 'a = nat] div_times_less_eq_dividend [of "unat b" 16]
    by (simp add: take_bit_eq_mod push_bit_eq_mult drop_bit_eq_div)
  ultimately show ?thesis by simp
qed

lemma nibble_arith: "16 * (n div 16) = 16 * k \<longleftrightarrow> 16 * k \<le> n \<and> n \<le> 16 * k + (15 :: nat)"
  using mult_div_mod_eq [of 16 n] mod_less_divisor [of 16 n] div_le_mono [of "16 * k" n 16]
    div_le_mono [of n "16 * k + 15" 16] by auto

lemma multicast_byte: "(b :: byte) AND 0xF0 = 0xE0 \<longleftrightarrow> 224 \<le> b \<and> b \<le> 239"
proof -
  have "b AND 0xF0 = 0xE0 \<longleftrightarrow> unat (b AND 0xF0) = 224" by (simp add: word_unat_eq_iff)
  also have "\<dots> \<longleftrightarrow> 224 \<le> unat b \<and> unat b \<le> 239"
    using nibble_arith [of "unat b" 14] by (simp add: high_nibble)
  finally show ?thesis by (simp add: word_le_nat_alt)
qed

lemma private_byte: "(b :: byte) AND 0xF0 = 16 \<longleftrightarrow> 16 \<le> b \<and> b \<le> 31"
proof -
  have "b AND 0xF0 = 16 \<longleftrightarrow> unat (b AND 0xF0) = 16" by (simp add: word_unat_eq_iff)
  also have "\<dots> \<longleftrightarrow> 16 \<le> unat b \<and> unat b \<le> 31"
    using nibble_arith [of "unat b" 1] by (simp add: high_nibble)
  finally show ?thesis by (simp add: word_le_nat_alt)
qed

lemma isPublicIP_v4:
  assumes "isPublicIP a" and "To4 a = Some v"
  shows "public_v4 v"
  using assms
  by (simp add: isPublicIP_def IsGlobalUnicast_def IsPrivate_def IsLoopback_def IsLinkLocalUnicast_def
      IsUnspecified_def IsMulticast_def public_v4_def multicast_byte private_byte)

lemma resolvePublicIPs_public: "resolvePublicIPs lookup host = Inr addrs \<Longrightarrow> list_all isPublicIP addrs"
  unfolding resolvePublicIPs_def list_all_iff
  by (auto split: option.splits if_splits sum.splits list.splits simp: filter_eq_Cons_iff)

lemma dialEach_dialled:
  "dialEach dial port addrs e = (r, dialled) \<Longrightarrow> d \<in> set dialled \<Longrightarrow>
     \<exists>a\<in>set addrs. d = JoinHostPort (ipString a) port"
proof (induction dial port addrs e arbitrary: r dialled rule: dialEach.induct)
  case (2 dial port a addrs err)
  show ?case
  proof (cases "dial (JoinHostPort (ipString a) port)")
    case (Inl e)
    obtain r' rest where rest: "dialEach dial port addrs (Some e) = (r', rest)" by fastforce
    with 2(2,3) Inl have "d = JoinHostPort (ipString a) port \<or> d \<in> set rest" by auto
    with 2(1) [OF refl Inl rest] show ?thesis by auto
  next
    case (Inr c)
    with 2(2,3) show ?thesis by auto
  qed
qed simp

text \<open>
  C27. The client of the proxy provider cannot be steered into the local network: whatever the
  configured URL, a redirect or a DNS answer says, every address its transport dials is the literal
  form of a public address, decided on the very address that is dialled; for IPv4 that excludes
  loopback, private, link-local, multicast, broadcast and unspecified addresses.
\<close>

theorem provider_dials_only_public:
  assumes "transportDial lookup dial address = (r, dialled)" and "d \<in> set dialled"
  shows "\<exists>a port. d = JoinHostPort (ipString a) port \<and> isPublicIP a \<and> (\<forall>v. To4 a = Some v \<longrightarrow> public_v4 v)"
proof -
  from assms obtain host port addrs where "resolvePublicIPs lookup host = Inr addrs"
    and "dialEach dial port addrs None = (r, dialled)"
    by (auto simp: transportDial_def split: sum.splits)
  with assms(2) obtain a where "a \<in> set addrs" "d = JoinHostPort (ipString a) port" "list_all isPublicIP addrs"
    using dialEach_dialled resolvePublicIPs_public by metis
  then show ?thesis by (auto simp: list_all_iff dest: isPublicIP_v4)
qed

theorem provider_dials_only_public_witness:
  "let run = transportDial (\<lambda>h. Inr [[10, 0, 0, 1], [203, 0, 113, 9], [127, 0, 0, 1]])
        (\<lambda>d. Inl ErrEOF :: goError + nat) ''api.example:443''
   in snd run = [''203.0.113.9:443''] \<and>
      (\<exists>a port. ''203.0.113.9:443'' = JoinHostPort (ipString a) port \<and> isPublicIP a)"
proof -
  let ?run = "transportDial (\<lambda>h. Inr [[10, 0, 0, 1], [203, 0, 113, 9], [127, 0, 0, 1]])
        (\<lambda>d. Inl ErrEOF :: goError + nat) ''api.example:443''"
  have "SplitHostPort ''api.example:443'' = Inr (''api.example'', ''443'')" by code_simp
  moreover have "ParseIP ''api.example'' = None" by code_simp
  moreover have "isPublicIP [203, 0, 113, 9]" "\<not> isPublicIP [10, 0, 0, 1]" "\<not> isPublicIP [127, 0, 0, 1]"
    by code_simp+
  moreover have "ipString [203, 0, 113, 9] = ''203.0.113.9''" by code_simp
  ultimately have run: "snd ?run = [''203.0.113.9:443'']"
    by (simp add: transportDial_def resolvePublicIPs_def JoinHostPort_def)
  with provider_dials_only_public [OF prod.collapse [of ?run, symmetric], of "''203.0.113.9:443''"]
  have "\<exists>a port. ''203.0.113.9:443'' = JoinHostPort (ipString a) port \<and> isPublicIP a" by force
  with run show ?thesis by simp
qed

end
