(* ===== verification/Dynamic.thy ===== *)
theory Dynamic
  imports Pool ProviderApi
begin

text \<open>
  internal/manager/dynamic.go: leases on proxies rented from the provider, and the runtime
  replacement of the provider configuration and of the front proxy. The per-client gate that serialises
  the requests of a client is the subject of \<open>DynamicGate\<close>. The provider's state is guarded by its own mutex and is a record of its own.
\<close>

section \<open>Requests and errors\<close>

record DynamicLeaseRequest =
  drCountry :: string
  drDurationMinutes :: int

record LeaseAPIError =
  leCode :: string
  leMessage :: string
  leCurrentLease :: "Assignment option"
  leErr :: "goError option"

text \<open>\<open>Error()\<close> of a possibly nil \<open>*LeaseAPIError\<close>.\<close>

definition leaseErrorText :: "LeaseAPIError option \<Rightarrow> string" where
  "leaseErrorText e =
     (case e of
        None \<Rightarrow> ''dynamic lease failed''
      | Some e \<Rightarrow> (case leErr e of Some err \<Rightarrow> errorText err | None \<Rightarrow> leMessage e))"

definition isASCIILetter :: "char \<Rightarrow> bool" where
  "isASCIILetter c \<longleftrightarrow> 97 \<le> code c \<and> code c \<le> 122 \<or> 65 \<le> code c \<and> code c \<le> 90"

definition NormalizeDynamicLeaseRequest :: "DynamicLeaseRequest \<Rightarrow> goError + DynamicLeaseRequest" where
  "NormalizeDynamicLeaseRequest request =
     (let country = TrimSpace (drCountry request) in
      case (if EqualFold country ''rand'' then Inr ''Rand''
            else if length country \<noteq> 2 \<or> \<not> isASCIILetter (country ! 0) \<or> \<not> isASCIILetter (country ! 1)
            then Inl (ErrString ''country must be a two-letter code or Rand'')
            else Inr (ToUpper country)) of
        Inl err \<Rightarrow> Inl err
      | Inr country \<Rightarrow>
          if drDurationMinutes request \<le> 0
          then Inl (ErrString ''duration_minutes must be a positive integer'')
          else if drDurationMinutes request > MaxInt64 div Minute
          then Inl (ErrString ''duration_minutes is too large'')
          else Inr \<lparr>drCountry = country, drDurationMinutes = drDurationMinutes request\<rparr>)"

section \<open>Answers\<close>

definition blankAssignment :: Assignment where
  "blankAssignment = \<lparr>asClientIP = [], asProxyID = [], asStatus = LeaseBlocked, asExpiresAt = 0,
     asMode = None, asCountry = [], asDurationMinutes = 0\<rparr>"

definition currentAssignment :: "string \<Rightarrow> Manager \<Rightarrow> Assignment" where
  "currentAssignment ip m =
     (if ip = [] then blankAssignment
      else case get (leases m) ip of
        None \<Rightarrow> assignment ip [] LeaseBlocked 0
      | Some l \<Rightarrow> assignmentFromLease l (if ip \<in> set (pendingRefs m) then LeasePending else lvStatus l))"

definition dynamicLeaseError ::
    "string \<Rightarrow> string \<Rightarrow> string \<Rightarrow> goError option \<Rightarrow> Manager \<Rightarrow> LeaseAPIError" where
  "dynamicLeaseError ip errCode message err m =
     \<lparr>leCode = errCode, leMessage = message,
      leCurrentLease = (if ip \<noteq> [] \<and> asProxyID (currentAssignment ip m) \<noteq> []
                        then Some (currentAssignment ip m) else None),
      leErr = err\<rparr>"

definition proxyAddressExists :: "string \<Rightarrow> Manager \<Rightarrow> bool" where
  "proxyAddressExists address m = any_entry (\<lambda>_ p. sameEndpoint (pAddress p) address) (proxies m)"

definition DynamicRequestForClient :: "time \<Rightarrow> string \<Rightarrow> Manager \<Rightarrow> DynamicLeaseRequest option" where
  "DynamicRequestForClient now ip m =
     (case get (leases m) ip of
        None \<Rightarrow> None
      | Some l \<Rightarrow>
          if lvMode l \<noteq> Some ProxySourceAPI \<or> lvStatus l \<noteq> LeaseActive \<or> \<not> lvExpiresAt l > now then None
          else Some \<lparr>drCountry = lvCountry l, drDurationMinutes = lvDurationMinutes l\<rparr>)"

section \<open>Activation\<close>

text \<open>
  \<open>activateDynamicProxy\<close> under the lock. The second result tells whether it then wakes the queue.
  Its errors are built after the lock has been released, by a section that only reads; here they read
  the state that the first section left.
\<close>

definition oldProxyOf :: "string \<Rightarrow> Manager \<Rightarrow> Proxy option" where
  "oldProxyOf ip m = Option.bind (get (leases m) ip) (\<lambda>l. get (proxies m) (lvProxyID l))"

definition deleteOldID :: "Proxy option \<Rightarrow> string" where
  "deleteOldID old =
     (case old of
        Some p \<Rightarrow> if pSource p = ProxySourceAPI \<and> pActiveConns p = 0 then pID p else []
      | None \<Rightarrow> [])"

definition dynamicRows :: "DynamicLeaseRequest \<Rightarrow> Proxy \<Rightarrow> string \<Rightarrow> time \<Rightarrow> StoreProxy \<times> DynamicProxy \<times> StoreLease" where
  "dynamicRows request c ip now =
     (\<lparr>spID = pID c, spAddress = pAddress c, spUsername = pUsername c, spPassword = pPassword c,
       spDisabled = False, spCreatedAt = 0, spUpdatedAt = 0\<rparr>,
      \<lparr>dpProxyID = pID c, dpCountry = drCountry request, dpDurationMinutes = drDurationMinutes request,
       dpProviderExpiresAt = pProviderExpiresAt c\<rparr>,
      \<lparr>slClientIP = ip, slProxyID = pID c, slStatus = LeaseActive, slExpiresAt = pProviderExpiresAt c,
       slUpdatedAt = now\<rparr>)"

definition detachOld :: "string \<Rightarrow> Proxy option \<Rightarrow> Manager \<Rightarrow> bool \<times> Manager" where
  "detachOld ip old m =
     (case old of
        None \<Rightarrow> (False, m)
      | Some p \<Rightarrow>
          if pActiveConns p > 0 then
            (False, modifyProxy (pID p)
               (\<lambda>p. p\<lparr>pStatus := ProxyDraining, pClientIP := [], pDrainingFor := ip\<rparr>) m)
          else if pSource p = ProxySourceAPI then (False, removeProxy (pID p) m)
          else (True, modifyProxy (pID p) markProxyIdle m))"

definition dynamicLease :: "DynamicLeaseRequest \<Rightarrow> Proxy \<Rightarrow> string \<Rightarrow> LeaseView" where
  "dynamicLease request c ip =
     \<lparr>lvClientIP = ip, lvProxyID = pID c, lvStatus = LeaseActive, lvExpiresAt = pProviderExpiresAt c,
      lvQueuedAt = 0, lvMode = Some ProxySourceAPI, lvCountry = drCountry request,
      lvDurationMinutes = drDurationMinutes request\<rparr>"

definition boolText :: "bool \<Rightarrow> string" where
  "boolText b = (if b then ''true'' else ''false'')"

definition installDynamic ::
    "faults \<Rightarrow> time \<Rightarrow> string \<Rightarrow> DynamicLeaseRequest \<Rightarrow> Proxy \<Rightarrow> bool \<Rightarrow> Manager \<Rightarrow> Assignment \<times> Manager" where
  "installDynamic f now ip request c refresh m =
     (let c = c\<lparr>pStatus := ProxyActive, pClientIP := ip, pSuccessCount := pSuccessCount c + 1\<rparr>;
          m = m\<lparr>proxies := put (pID c) c (proxies m), proxyOrder := sort (proxyOrder m @ [pID c])\<rparr>;
          m = removeQueued ip m;
          lease = dynamicLease request c ip;
          m = m\<lparr>leases := put ip lease (leases m)\<rparr>;
          m = addEvent f now ip (pID c) ''assigned''
                (''mode=api refresh='' @ boolText refresh @ '' country='' @ drCountry request
                 @ '' duration_minutes='' @ Itoa (drDurationMinutes request)) m
      in (assignmentFromLease lease LeaseActive, m))"

definition activateDynamicProxy ::
    "dbfaults \<Rightarrow> time \<Rightarrow> string \<Rightarrow> DynamicLeaseRequest \<Rightarrow> Proxy \<Rightarrow> bool \<Rightarrow> Manager
      \<Rightarrow> (LeaseAPIError + Assignment) \<times> bool \<times> Manager" where
  "activateDynamicProxy f now ip request candidate refresh m =
     (if proxyAddressExists (pAddress candidate) m then
        (let msg = ''proxy API endpoint became a duplicate before activation''
         in (Inl (dynamicLeaseError ip ''proxy_api_duplicate_endpoint'' msg (Some (ErrString msg)) m), False, m))
      else
        let old = oldProxyOf ip m; (sp, dp, sl) = dynamicRows request candidate ip now in
        case ActivateDynamicLease (f 0) now sp dp sl (deleteOldID old) (mDB m) of
          (Some err, db) \<Rightarrow>
            (Inl (dynamicLeaseError ip ''internal_error'' ''persist dynamic lease failed'' (Some err) (m\<lparr>mDB := db\<rparr>)),
             False, m\<lparr>mDB := db\<rparr>)
        | (None, db) \<Rightarrow>
            (case detachOld ip old (m\<lparr>mDB := db\<rparr>) of
               (wake, m) \<Rightarrow>
                 (case installDynamic (f 1) now ip request candidate refresh m of (a, m) \<Rightarrow> (Inr a, wake, m))))"

section \<open>Leasing a rented proxy\<close>

record ProxyAPIState =
  papiConfig :: ProxyAPI
  papiClient :: "Client option"

text \<open>
  What a run meets: the wait for the client's gate, the provider, the random identifier, the probe,
  the instants of its readings of the clock, the database, and what other goroutines do to the manager
  between its sections.
\<close>

record dynamicEnv =
  deGate :: "goError option"
  deProvider :: environment
  deRandomID :: "goError + string"
  deProbe :: "Proxy \<Rightarrow> probeResult"
  deRequestedAt :: time
  deActivatedAt :: time
  deFaults :: dbfaults
  deOthers :: "nat \<Rightarrow> Manager \<Rightarrow> Manager"

definition candidateProxy ::
    "string \<Rightarrow> ProviderEndpoint \<Rightarrow> string \<Rightarrow> DynamicLeaseRequest \<Rightarrow> time \<Rightarrow> Proxy" where
  "candidateProxy pid e ip request expires =
     \<lparr>pID = pid, pAddress = peAddress e, pUsername = peUsername e, pPassword = pePassword e,
      pStatus = ProxyChecking, pClientIP = ip, pDrainingFor = [], pActiveConns = 0, pFailureCount = 0,
      pSuccessCount = 0, pLastHealthDetail = [], pExitIP = [], pDisabled = False,
      pSource = ProxySourceAPI, pCountry = drCountry request,
      pDurationMinutes = drDurationMinutes request, pProviderExpiresAt = expires\<rparr>"

definition acquireCode :: "goError \<Rightarrow> string" where
  "acquireCode err =
     (if ErrorKindOf err = ErrorResponse then ''proxy_api_invalid_response'' else ''proxy_api_request_failed'')"

definition rentCandidate ::
    "dynamicEnv \<Rightarrow> ProxyAPIState \<Rightarrow> string \<Rightarrow> DynamicLeaseRequest \<Rightarrow> Manager
      \<Rightarrow> (LeaseAPIError + Proxy) \<times> Manager" where
  "rentCandidate env ps ip request m =
     (if \<not> paEnabled (papiConfig ps) \<or> papiClient ps = None
      then (Inl (dynamicLeaseError ip ''proxy_api_disabled'' ''proxy API mode is disabled'' None m), m)
      else
        let m = deOthers env 1 m in
        case Acquire (deProvider env) (papiClient ps) (drCountry request) (drDurationMinutes request) of
          Inl err \<Rightarrow> (Inl (dynamicLeaseError ip (acquireCode err) (errorText err) (Some err) m), m)
        | Inr endpoint \<Rightarrow>
            if frontAddressConflict m (peAddress endpoint)
            then (let err = ErrString ''proxy API returned the configured front proxy address''
                  in (Inl (dynamicLeaseError ip ''proxy_api_invalid_response'' (errorText err) (Some err) m), m))
            else case deRandomID env of
              Inl err \<Rightarrow>
                (Inl (dynamicLeaseError ip ''internal_error'' ''generate dynamic proxy ID failed'' (Some err) m), m)
            | Inr pid \<Rightarrow>
                let c = candidateProxy pid endpoint ip request
                          (deRequestedAt env + drDurationMinutes request * Minute) in
                if proxyAddressExists (pAddress c) m
                then (let err = ErrString ''proxy API returned an endpoint already present in the proxy pool''
                      in (Inl (dynamicLeaseError ip ''proxy_api_duplicate_endpoint'' (errorText err) (Some err) m), m))
                else
                  let m = deOthers env 2 m in
                  (case deProbe env c of
                     Inl err \<Rightarrow>
                       (Inl (dynamicLeaseError ip ''dynamic_proxy_unusable''
                          ''the acquired SOCKS5 proxy failed validation'' (Some err) m), m)
                   | Inr exitIP \<Rightarrow> (Inr (c\<lparr>pExitIP := exitIP\<rparr>), m)))"

definition LeaseDynamicContext ::
    "dynamicEnv \<Rightarrow> ProxyAPIState \<Rightarrow> string \<Rightarrow> DynamicLeaseRequest \<Rightarrow> bool \<Rightarrow> Manager
      \<Rightarrow> (LeaseAPIError + Assignment) \<times> bool \<times> Manager" where
  "LeaseDynamicContext env ps ip request refresh m =
     (case NormalizeDynamicLeaseRequest request of
        Inl err \<Rightarrow> (Inl \<lparr>leCode = ''invalid_request'', leMessage = errorText err, leCurrentLease = None,
                        leErr = Some err\<rparr>, False, m)
      | Inr normalized \<Rightarrow>
          let m = deOthers env 0 m in
          case deGate env of
            Some err \<Rightarrow>
              (Inl (dynamicLeaseError ip ''proxy_api_request_failed''
                 ''dynamic lease request was canceled'' (Some err) m), False, m)
          | None \<Rightarrow>
              let current = currentAssignment ip m in
              if \<not> refresh \<and> asStatus current = LeaseActive \<and> asMode current = Some ProxySourceAPI
                 \<and> asCountry current = drCountry normalized
                 \<and> asDurationMinutes current = drDurationMinutes normalized
              then (Inr current, False, m)
              else case rentCandidate env ps ip normalized m of
                (Inl err, m) \<Rightarrow> (Inl err, False, m)
              | (Inr candidate, m) \<Rightarrow>
                  activateDynamicProxy (deFaults env) (deActivatedAt env) ip normalized candidate refresh
                    (deOthers env 3 m))"

section \<open>Testing and replacing the configuration\<close>

record ProxyAPITestResult =
  ptOK :: bool
  ptCode :: string
  ptAddress :: string
  ptExitIP :: string
  ptElapsedMS :: int

definition TestProxyAPI ::
    "environment \<Rightarrow> (Proxy \<Rightarrow> probeResult) \<Rightarrow> duration \<Rightarrow> ProxyAPIState \<Rightarrow> DynamicLeaseRequest \<Rightarrow> Manager
      \<Rightarrow> LeaseAPIError + ProxyAPITestResult" where
  "TestProxyAPI env probe elapsed ps request m =
     (case NormalizeDynamicLeaseRequest request of
        Inl err \<Rightarrow> Inl \<lparr>leCode = ''invalid_request'', leMessage = errorText err, leCurrentLease = None, leErr = Some err\<rparr>
      | Inr normalized \<Rightarrow>
          if \<not> paEnabled (papiConfig ps) \<or> papiClient ps = None
          then Inl (dynamicLeaseError [] ''proxy_api_disabled'' ''proxy API mode is disabled'' None m)
          else case Acquire env (papiClient ps) (drCountry normalized) (drDurationMinutes normalized) of
            Inl err \<Rightarrow> Inl (dynamicLeaseError [] (acquireCode err) (errorText err) (Some err) m)
          | Inr e \<Rightarrow>
              (case probe ((candidateProxy [] e [] \<lparr>drCountry = [], drDurationMinutes = 0\<rparr> 0)\<lparr>pStatus := ProxyIdle\<rparr>) of
                 Inl err \<Rightarrow> Inl (dynamicLeaseError [] ''dynamic_proxy_unusable''
                              ''the acquired SOCKS5 proxy failed validation'' (Some err) m)
               | Inr exitIP \<Rightarrow> Inr \<lparr>ptOK = True, ptCode = ''healthy'', ptAddress = peAddress e, ptExitIP = exitIP,
                                   ptElapsedMS = elapsed div Millisecond\<rparr>))"

text \<open>
  The callback \<open>persist\<close> writes the configuration file; it acts on a world of its own, and a nil
  callback is \<open>None\<close>.
\<close>

type_synonym 'w persist = "('w \<Rightarrow> goError option \<times> 'w) option"

definition UpdateProxyAPI ::
    "(string \<Rightarrow> URL option) \<Rightarrow> ProxyAPI \<Rightarrow> 'w persist \<Rightarrow> ProxyAPIState \<times> Manager \<times> 'w
      \<Rightarrow> goError option \<times> ProxyAPIState \<times> Manager \<times> 'w" where
  "UpdateProxyAPI parseURL proxyAPI persist st =
     (case st of (ps, m, w) \<Rightarrow>
       let proxyAPI = normalizedConfig proxyAPI in
       case newClient parseURL proxyAPI (cfgFrontProxy (mCfg m)) of
         Inl err \<Rightarrow> (Some err, ps, m, w)
       | Inr candidate \<Rightarrow>
           (case persist of
              None \<Rightarrow> (Some (ErrString ''proxy API persistence is unavailable''), ps, m, w)
            | Some write \<Rightarrow>
                (case write w of
                   (Some err, w) \<Rightarrow> (Some err, ps, m, w)
                 | (None, w) \<Rightarrow>
                     (None, \<lparr>papiConfig = proxyAPI, papiClient = Some candidate\<rparr>,
                      m\<lparr>mCfg := (mCfg m)\<lparr>cfgProxyAPI := proxyAPI\<rparr>\<rparr>, w))))"

definition normalizeNext :: "FrontProxy \<Rightarrow> FrontProxy" where
  "normalizeNext f =
     (let f = f\<lparr>fpProtocol := ToLower (TrimSpace (fpProtocol f)), fpAddress := TrimSpace (fpAddress f)\<rparr>
      in if fpEnabled f \<and> fpProtocol f = [] then f\<lparr>fpProtocol := ''socks5''\<rparr> else f)"

definition UpdateFrontProxy ::
    "time \<Rightarrow> (string \<Rightarrow> URL option) \<Rightarrow> FrontProxy \<Rightarrow> 'w persist \<Rightarrow> ProxyAPIState \<times> Manager \<times> 'w
      \<Rightarrow> goError option \<times> ProxyAPIState \<times> Manager \<times> 'w" where
  "UpdateFrontProxy now parseURL f persist st =
     (case st of (ps, m, w) \<Rightarrow>
       let f = normalizeNext f in
       case newConnector f (dnsUpstream (cfgDNS (mCfg m))) of
         Inl err \<Rightarrow> (Some err, ps, m, w)
       | Inr candidate \<Rightarrow>
           (case persist of
              None \<Rightarrow> (Some (ErrString ''front proxy persistence is unavailable''), ps, m, w)
            | Some write \<Rightarrow>
                if fpEnabled f \<and> proxyAddressExists (fpAddress f) m
                then (Some (ErrString ''front proxy address must differ from every proxy address''), ps, m, w)
                else case newClient parseURL (papiConfig ps) f of
                  Inl err \<Rightarrow> (Some err, ps, m, w)
                | Inr client \<Rightarrow>
                    (case write w of
                       (Some err, w) \<Rightarrow> (Some err, ps, m, w)
                     | (None, w) \<Rightarrow>
                         (None, ps\<lparr>papiClient := Some client\<rparr>,
                          snd (processQueueAsync now
                            (cancelQueueRetry (m\<lparr>connector := candidate, mCfg := (mCfg m)\<lparr>cfgFrontProxy := f\<rparr>,
                                                 queueBackoffUntil := 0\<rparr>))), w))))"

end
