(* ===== verification/Health.thy ===== *)
theory Health
  imports Pool
begin

text \<open>
  internal/manager/health.go: the round of health checks, what it concludes from its results, the
  section that records one result, and the probe that learns the address a proxy exits from. The
  goroutines of a round are represented here by the list of results they leave behind; \<open>HealthRound\<close>
  models how they produce it.
\<close>

section \<open>Recording a result\<close>

definition recoveredProxyStatus :: "time \<Rightarrow> Proxy \<Rightarrow> Manager \<Rightarrow> Proxy" where
  "recoveredProxyStatus now p m =
     (case List.find (\<lambda>(ip, l). holdsLease now (pID p) l) (leases m) of
        Some (ip, _) \<Rightarrow> p\<lparr>pClientIP := ip, pDrainingFor := [], pStatus := ProxyActive\<rparr>
      | None \<Rightarrow>
          if pDrainingFor p \<noteq> [] \<and> pActiveConns p > 0
          then p\<lparr>pClientIP := [], pStatus := ProxyDraining\<rparr>
          else p\<lparr>pClientIP := [], pDrainingFor := [], pStatus := ProxyIdle\<rparr>)"

definition healthFailed :: "Config \<Rightarrow> goError \<Rightarrow> Proxy \<Rightarrow> Proxy" where
  "healthFailed cfg err p =
     (let p = p\<lparr>pFailureCount := pFailureCount p + 1, pSuccessCount := 0,
                pLastHealthDetail := errorText err\<rparr> in
      if pFailureCount p \<ge> hcFailureThreshold (cfgHealthCheck cfg) \<and> pStatus p \<noteq> ProxyUnhealthy
      then p\<lparr>pStatus := ProxyUnhealthy\<rparr> else p)"

definition healthPassed :: "string \<Rightarrow> Proxy \<Rightarrow> Proxy" where
  "healthPassed exitIP p =
     p\<lparr>pSuccessCount := pSuccessCount p + 1, pFailureCount := 0, pLastHealthDetail := [],
       pExitIP := (if exitIP \<noteq> [] then exitIP else pExitIP p)\<rparr>"

text \<open>The flag tells whether the section asks for the queue to be processed.\<close>

definition recordHealth ::
    "faults \<Rightarrow> time \<Rightarrow> bool \<Rightarrow> string \<Rightarrow> goError option \<Rightarrow> string \<Rightarrow> Manager \<Rightarrow> bool \<times> Manager" where
  "recordHealth f now stopped pid err exitIP m =
     (if stopped \<or> IsFrontFailure err then (False, m)
      else case get (proxies m) pid of
        None \<Rightarrow> (False, m)
      | Some p \<Rightarrow>
          (case err of
             Some e \<Rightarrow>
               (let p' = healthFailed (mCfg m) e p; m' = m\<lparr>proxies := put pid p' (proxies m)\<rparr> in
                (False, if pStatus p' \<noteq> pStatus p
                        then addEvent f now [] pid ''proxy_unhealthy'' (errorText e) m' else m'))
           | None \<Rightarrow>
               (let p = healthPassed exitIP p in
                if pStatus p = ProxyUnhealthy
                   \<and> pSuccessCount p \<ge> hcSuccessThreshold (cfgHealthCheck (mCfg m))
                then (True, addEvent f now [] pid ''proxy_healthy'' []
                        (m\<lparr>proxies := put pid (recoveredProxyStatus now p m) (proxies m)\<rparr>))
                else (False, m\<lparr>proxies := put pid p (proxies m)\<rparr>))))"

section \<open>The round\<close>

record healthResult =
  hrProxyID :: string
  hrAddress :: string
  hrErr :: "goError option"
  hrExitIP :: string

definition checkable :: "Manager \<Rightarrow> string list" where
  "checkable m =
     filter (\<lambda>pid. case get (proxies m) pid of
                     None \<Rightarrow> False
                   | Some p \<Rightarrow> \<not> pDisabled p \<and> pStatus p \<noteq> ProxyDisabled) (proxyOrder m)"

text \<open>
  The preflight of \<open>checkAll\<close> through an enabled front: it probes the first proxy that still can be
  checked. \<open>Inl\<close> ends the round.
\<close>

definition preflight ::
    "(Proxy \<Rightarrow> goError option) \<Rightarrow> bool \<Rightarrow> string list \<Rightarrow> Manager \<Rightarrow> unit + healthResult option" where
  "preflight probe stopped pids m =
     (case List.find (\<lambda>pid. proxyCheckSnapshot pid m \<noteq> None) pids of
        None \<Rightarrow> Inr None
      | Some pid \<Rightarrow>
          (let p = the (proxyCheckSnapshot pid m); err = probe p in
           if stopped \<or> FailureScopeOf err = FailureScopeShared then Inl ()
           else if FailureScopeOf err = FailureScopeAmbiguous
           then Inr (Some \<lparr>hrProxyID = pID p, hrAddress = pAddress p, hrErr = err, hrExitIP = []\<rparr>)
           else Inr None))"

text \<open>The evidence that the front worked: failures behind it, and its most recent success.\<close>

type_synonym evidence = "string \<times> FrontToken"

definition resultEvidence :: "healthResult \<Rightarrow> evidence option" where
  "resultEvidence r =
     (if \<not> FrontEstablished (hrErr r) then None
      else case Option.bind (hrErr r) asPhaseError of
        None \<Rightarrow> None
      | Some pe \<Rightarrow> if Sequence (Token pe) \<noteq> 0 then Some (hrAddress r, Token pe) else None)"

definition causalEvidenceSet :: "healthResult list \<Rightarrow> FrontEvidence option \<Rightarrow> evidence list" where
  "causalEvidenceSet results recent =
     List.map_filter resultEvidence results
     @ (case recent of
          Some ev \<Rightarrow> if feSequence ev \<noteq> 0
                     then [(feExitAddress ev, \<lparr>Generation = feGeneration ev, Sequence = feSequence ev\<rparr>)]
                     else []
        | None \<Rightarrow> [])"

definition isAmbiguous :: "healthResult \<Rightarrow> bool" where
  "isAmbiguous r \<longleftrightarrow> FailureScopeOf (hrErr r) = FailureScopeAmbiguous"

definition validatedAmbiguous :: "evidence list \<Rightarrow> healthResult \<Rightarrow> bool" where
  "validatedAmbiguous evs r \<longleftrightarrow> isAmbiguous r \<and>
     (case AmbiguousFailureToken (hrErr r) of
        None \<Rightarrow> False
      | Some t \<Rightarrow> list_ex (\<lambda>(address, tok). Generation tok = Generation t \<and> Sequence tok > Sequence t
                             \<and> \<not> sameEndpoint (hrAddress r) address) evs)"

text \<open>The scan over all results that decides whether they are one batch of ambiguous failures.\<close>

record batchScan =
  allAmbiguous :: bool
  scanAddresses :: "string list"
  firstToken :: FrontToken
  lastToken :: FrontToken

definition scanStep :: "healthResult \<Rightarrow> batchScan \<Rightarrow> batchScan" where
  "scanStep r s =
     (if \<not> isAmbiguous r then s\<lparr>allAmbiguous := False\<rparr>
      else case AmbiguousFailureToken (hrErr r) of
        None \<Rightarrow> s\<lparr>allAmbiguous := False\<rparr>
      | Some t \<Rightarrow>
          let s = (if list_ex (\<lambda>a. sameEndpoint a (hrAddress r)) (scanAddresses s) then s
                   else s\<lparr>scanAddresses := scanAddresses s @ [hrAddress r]\<rparr>) in
          if Sequence (firstToken s) = 0 then s\<lparr>firstToken := t, lastToken := t\<rparr>
          else if Generation t \<noteq> Generation (firstToken s) then s\<lparr>allAmbiguous := False\<rparr>
          else s\<lparr>firstToken := (if Sequence t < Sequence (firstToken s) then t else firstToken s),
                 lastToken := (if Sequence t > Sequence (lastToken s) then t else lastToken s)\<rparr>)"

definition scanResults :: "bool \<Rightarrow> healthResult list \<Rightarrow> batchScan" where
  "scanResults skipped results =
     fold scanStep results
       \<lparr>allAmbiguous = (\<not> skipped \<and> list_all isAmbiguous results), scanAddresses = [],
        firstToken = noToken, lastToken = noToken\<rparr>"

definition batchVerdict :: "bool \<Rightarrow> healthResult list \<Rightarrow> (FrontToken \<times> FrontToken) option" where
  "batchVerdict skipped results =
     (let s = scanResults skipped results in
      if allAmbiguous s \<and> length (scanAddresses s) \<ge> 2 \<and> Sequence (firstToken s) \<noteq> 0
         \<and> Sequence (lastToken s) \<noteq> 0
      then Some (firstToken s, lastToken s) else None)"

text \<open>
  What a round that was not cut short does with its results: which results it records, in which
  order, and whether it reports a batch to the circuit first.
\<close>

type_synonym recording = "string \<times> goError option \<times> string"

definition recordingOf :: "healthResult \<Rightarrow> recording" where
  "recordingOf r = (hrProxyID r, hrErr r, hrExitIP r)"

text \<open>The recording of a result when some ambiguous failure has been attributed to its exit.\<close>

definition attributedRecording :: "evidence list \<Rightarrow> healthResult \<Rightarrow> recording option" where
  "attributedRecording evs r =
     (if isAmbiguous r \<and> \<not> validatedAmbiguous evs r then None
      else let r' = (if isAmbiguous r then r\<lparr>hrErr := map_option confirmedExitFailure (hrErr r)\<rparr> else r) in
        if hrErr r' = None \<or> FrontEstablished (hrErr r') \<or> validatedAmbiguous evs r
        then Some (recordingOf r') else None)"

definition conclude ::
    "FrontEvidence option \<Rightarrow> bool \<Rightarrow> healthResult list \<Rightarrow> (FrontToken \<times> FrontToken) option \<times> recording list" where
  "conclude recent skipped results =
     (let evs = causalEvidenceSet results recent in
      if list_ex isAmbiguous results \<and> list_ex (validatedAmbiguous evs) results
      then (None, List.map_filter (attributedRecording evs) results)
      else if list_ex isAmbiguous results then
        (batchVerdict skipped results,
         map recordingOf (filter (\<lambda>r. hrErr r = None \<or> FrontEstablished (hrErr r)) results))
      else (None, map recordingOf results))"

text \<open>
  The sections that the round then runs, one after the other: the batch report to the connector and
  one \<open>recordHealth\<close> per recording. Between them run the sections of others, and the context may end.
\<close>

record roundEnv =
  reNow :: "nat \<Rightarrow> time"
  reStopped :: "nat \<Rightarrow> bool"
  reFaults :: "nat \<Rightarrow> faults"
  reOthers :: "nat \<Rightarrow> Manager \<Rightarrow> Manager"

fun recordAll :: "roundEnv \<Rightarrow> nat \<Rightarrow> recording list \<Rightarrow> Manager \<Rightarrow> Manager" where
  "recordAll env n [] m = m"
| "recordAll env n ((pid, err, exitIP) # rs) m =
     recordAll env (Suc n) rs
       (snd (recordHealth (reFaults env n) (reNow env n) (reStopped env n) pid err exitIP (reOthers env n m)))"

definition recordAmbiguousHealthBatch :: "time \<Rightarrow> bool \<Rightarrow> FrontToken \<Rightarrow> FrontToken \<Rightarrow> Manager \<Rightarrow> Manager" where
  "recordAmbiguousHealthBatch now stopped first final m =
     (if stopped then m
      else m\<lparr>connector := snd (RecordAmbiguousBatchFailure now first final (connector m))\<rparr>)"

definition finishRound :: "roundEnv \<Rightarrow> bool \<Rightarrow> healthResult list \<Rightarrow> Manager \<Rightarrow> Manager" where
  "finishRound env skipped results m =
     (case conclude (RecentFrontEvidence (Some (connector m))) skipped results of
        (verdict, recordings) \<Rightarrow>
          recordAll env 1 recordings
            (case verdict of
               Some (first, final) \<Rightarrow>
                 recordAmbiguousHealthBatch (reNow env 0) (reStopped env 0) first final (reOthers env 0 m)
             | None \<Rightarrow> m))"

section \<open>The exit address\<close>

definition defaultExitIPURLs :: "string list" where
  "defaultExitIPURLs = [''https://api.ipify.org/'', ''https://icanhazip.com/'', ''https://ifconfig.me/ip'',
     ''http://api.ipify.org/'']"

fun addURLs :: "string list \<Rightarrow> string list \<Rightarrow> string list" where
  "addURLs urls [] = urls"
| "addURLs urls (part # parts) =
     (let part = TrimSpace part in
      if part = [] \<or> part \<in> set urls then addURLs urls parts else addURLs (urls @ [part]) parts)"

definition exitIPURLs :: "string \<Rightarrow> string list" where
  "exitIPURLs configured =
     fold (\<lambda>raw urls. addURLs urls (Split raw (CHR '',''))) (configured # defaultExitIPURLs) []"

text \<open>\<open>probeExitIPAny\<close> over the outcomes of probing each URL; the flag tells whether the context has
  ended when the outcome is known.\<close>

fun probeExitIPAny :: "(string \<Rightarrow> probeResult \<times> bool) \<Rightarrow> string list \<Rightarrow> probeResult" where
  "probeExitIPAny probe [] = Inr []"
| "probeExitIPAny probe (rawURL # urls) =
     (case probe rawURL of
        (Inl err, stopped) \<Rightarrow>
          if stopped \<or> FailureScopeOf (Some err) = FailureScopeShared then Inl err
          else probeExitIPAny probe urls
      | (Inr ip, _) \<Rightarrow> if ip \<noteq> [] then Inr ip else probeExitIPAny probe urls)"

text \<open>
  The pattern of \<open>firstIP\<close>, leftmost match first: four groups of one to three digits separated by
  dots, or else a run of at least two hexadecimal digits and colons.
\<close>

definition digitGroup :: "string \<Rightarrow> string \<times> string" where
  "digitGroup s = (let d = takeWhile is_digit (take 3 s) in (d, drop (length d) s))"

fun matchDotted :: "nat \<Rightarrow> string \<Rightarrow> string option" where
  "matchDotted 0 s = (case digitGroup s of (d, _) \<Rightarrow> if d = [] then None else Some d)"
| "matchDotted (Suc n) s =
     (case digitGroup s of
        (d, rest) \<Rightarrow>
          if d = [] then None
          else case rest of
            [] \<Rightarrow> None
          | c # rest \<Rightarrow>
              if c = CHR ''.'' then map_option (\<lambda>t. d @ CHR ''.'' # t) (matchDotted n rest) else None)"

definition matchHexRun :: "string \<Rightarrow> string option" where
  "matchHexRun s =
     (let run = takeWhile (\<lambda>c. is_hex c \<or> c = CHR '':'') s in if length run \<ge> 2 then Some run else None)"

definition matchIP :: "string \<Rightarrow> string option" where
  "matchIP s = (case matchDotted 3 s of Some m \<Rightarrow> Some m | None \<Rightarrow> matchHexRun s)"

lemma matchDotted_length: "matchDotted n s = Some m \<Longrightarrow> 0 < length m"
  by (cases n) (auto split: prod.splits if_splits list.splits)

lemma matchIP_length: "matchIP s = Some m \<Longrightarrow> 0 < length m"
  by (auto simp: matchIP_def matchHexRun_def Let_def split: option.splits if_splits dest: matchDotted_length)

function FindAllIPs :: "string \<Rightarrow> string list" where
  "FindAllIPs s =
     (case s of
        [] \<Rightarrow> []
      | c # rest \<Rightarrow>
          (case matchIP s of
             Some m \<Rightarrow> m # FindAllIPs (drop (length m) s)
           | None \<Rightarrow> FindAllIPs rest))"
  by pat_completeness auto

termination
  by (relation "measure length") (auto dest: matchIP_length)

definition firstIP :: "string \<Rightarrow> string" where
  "firstIP t =
     (case List.map_filter ParseIP (FindAllIPs t) of
        ip # _ \<Rightarrow> ipString ip
      | [] \<Rightarrow> [])"

text \<open>\<open>extractIP\<close>: the fields of a JSON object answer are an argument, \<open>None\<close> when it is not one.\<close>

definition extractIP :: "(string \<Rightarrow> string table option) \<Rightarrow> string \<Rightarrow> string" where
  "extractIP unmarshal body =
     (let t = TrimSpace body in
      case ParseIP t of
        Some ip \<Rightarrow> ipString ip
      | None \<Rightarrow>
          (let found = (case unmarshal body of
                 None \<Rightarrow> []
               | Some object \<Rightarrow>
                   filter (\<lambda>ip. ip \<noteq> []) (map firstIP (List.map_filter (get object) [''ip'', ''query'', ''origin'']))) in
           case found of ip # _ \<Rightarrow> ip | [] \<Rightarrow> firstIP t))"

text \<open>
  \<open>probeExitIP\<close>: the address to connect to, and what the exchange over the connection yields. Its
  steps are outcomes: whether TLS and the request went through, and the status with the body that was
  read, if any; \<open>cause\<close> is the error of the probe's context once it has ended.
\<close>

record exchange =
  exTLS :: bool
  exWritten :: bool
  exResponse :: "(int \<times> string option) option"
  exCause :: "goError option"

definition exitIPTarget :: "URL option \<Rightarrow> string option" where
  "exitIPTarget mu =
     (case mu of
        None \<Rightarrow> None
      | Some u \<Rightarrow>
          if urlHost u = [] \<or> urlScheme u \<noteq> ''http'' \<and> urlScheme u \<noteq> ''https'' then None
          else case SplitHostPort (urlHost u) of
            Inr _ \<Rightarrow> Some (urlHost u)
          | Inl _ \<Rightarrow> Some (JoinHostPort (urlHost u) (if urlScheme u = ''https'' then ''443'' else ''80'')))"

definition abortedBy :: "goError option \<Rightarrow> probeResult" where
  "abortedBy cause = (case cause of Some err \<Rightarrow> Inl err | None \<Rightarrow> Inr [])"

definition probeExitIP ::
    "(string \<Rightarrow> URL option) \<Rightarrow> (string \<Rightarrow> string table option) \<Rightarrow> (string \<Rightarrow> goError + exchange) \<Rightarrow> string
      \<Rightarrow> probeResult" where
  "probeExitIP parseURL unmarshal connect rawURL =
     (case exitIPTarget (parseURL rawURL) of
        None \<Rightarrow> Inr []
      | Some host \<Rightarrow>
          (case connect host of
             Inl err \<Rightarrow> Inl err
           | Inr x \<Rightarrow>
               if urlScheme (the (parseURL rawURL)) = ''https'' \<and> \<not> exTLS x then Inr []
               else if \<not> exWritten x then abortedBy (exCause x)
               else case exResponse x of
                 None \<Rightarrow> abortedBy (exCause x)
               | Some (statusCode, body) \<Rightarrow>
                   if statusCode < 200 \<or> statusCode \<ge> 300 then Inr []
                   else case body of
                     None \<Rightarrow> abortedBy (exCause x)
                   | Some body \<Rightarrow>
                       (let ip = extractIP unmarshal body in if ParseIP ip = None then Inr [] else Inr ip)))"

text \<open>
  \<open>defaultProbeProxy\<close> of internal/manager/manager.go, the probe that leases and health checks share:
  a tunnel to the configured target must open, and then the exit address is asked for.
\<close>

definition probeTarget :: "Config \<Rightarrow> string" where
  "probeTarget cfg = JoinHostPort (hcTargetHost (cfgHealthCheck cfg)) (Itoa (hcTargetPort (cfgHealthCheck cfg)))"

definition defaultProbeProxy ::
    "Config \<Rightarrow> (string \<Rightarrow> goError option) \<Rightarrow> (string \<Rightarrow> probeResult \<times> bool) \<Rightarrow> probeResult" where
  "defaultProbeProxy cfg connect probe =
     (case connect (probeTarget cfg) of
        Some err \<Rightarrow> Inl err
      | None \<Rightarrow> probeExitIPAny probe (exitIPURLs (hcExitIPURL (cfgHealthCheck cfg))))"

section \<open>What a round concludes\<close>

lemma set_map_filter_iff: "y \<in> set (List.map_filter f xs) \<longleftrightarrow> (\<exists>x\<in>set xs. f x = Some y)"
  by (induction xs) (auto simp: map_filter_simps split: option.splits)

lemma attributedRecording_Some:
  assumes "attributedRecording evs r = Some (pid, err, exitIP)"
  shows "hrProxyID r = pid \<and>
    (if isAmbiguous r then validatedAmbiguous evs r \<and> err = map_option confirmedExitFailure (hrErr r)
     else err = hrErr r)"
  using assms by (auto simp: attributedRecording_def Let_def recordingOf_def split: if_splits)

lemma isAmbiguous_err: "isAmbiguous r \<Longrightarrow> \<exists>e. hrErr r = Some e"
  by (cases "hrErr r") (auto simp: isAmbiguous_def)

lemma isAmbiguous_front: "isAmbiguous r \<Longrightarrow> IsFrontFailure (hrErr r)"
  by (simp add: isAmbiguous_def IsFrontFailure_def)

lemma conclude_recorded:
  assumes "conclude recent skipped results = (verdict, recs)" and "(pid, err, exitIP) \<in> set recs"
    and "\<not> IsFrontFailure err"
  shows "\<exists>r\<in>set results. hrProxyID r = pid \<and>
    (if isAmbiguous r
     then validatedAmbiguous (causalEvidenceSet results recent) r \<and> err = map_option confirmedExitFailure (hrErr r)
     else err = hrErr r)"
proof -
  let ?evs = "causalEvidenceSet results recent"
  consider (attributed) "(pid, err, exitIP) \<in> set (List.map_filter (attributedRecording ?evs) results)"
    | (plain) r where "r \<in> set results" "recordingOf r = (pid, err, exitIP)"
    using assms by (auto simp: conclude_def Let_def split: if_splits)
  then show ?thesis
  proof cases
    case attributed
    then obtain r where r: "r \<in> set results" "attributedRecording ?evs r = Some (pid, err, exitIP)"
      by (auto simp: set_map_filter_iff)
    with attributedRecording_Some [OF r(2)] show ?thesis by blast
  next
    case plain
    with assms(3) isAmbiguous_front [of r] have "\<not> isAmbiguous r" by (auto simp: recordingOf_def)
    with plain show ?thesis by (auto simp: recordingOf_def)
  qed
qed

lemma recordHealth_front: "IsFrontFailure err \<Longrightarrow> recordHealth f now stopped pid err exitIP m = (False, m)"
  by (simp add: recordHealth_def)

lemma validatedAmbiguousE:
  assumes "validatedAmbiguous evs r"
  obtains e t address tok where "hrErr r = Some e" "AmbiguousFailureToken (Some e) = Some t"
    "(address, tok) \<in> set evs" "Generation tok = Generation t" "Sequence t < Sequence tok"
    "\<not> sameEndpoint (hrAddress r) address"
proof -
  from assms obtain e where "hrErr r = Some e" using isAmbiguous_err by (auto simp: validatedAmbiguous_def)
  with assms that show thesis by (auto simp: validatedAmbiguous_def list_ex_iff split: option.splits)
qed

text \<open>
  C22. A health round charges a proxy only with failures that are its own. Whenever recording one of
  the round's conclusions changes the manager because of an error, that proxy was probed, and either
  the probe's own error lies behind the front (or the chain has no front), or the error was ambiguous
  and later evidence of the same circuit generation, from a different exit, shows the front worked
  after it.
\<close>

theorem health_charges_only_confirmed:
  assumes "conclude recent skipped results = (verdict, recs)" and "(pid, Some e, exitIP) \<in> set recs"
    and "snd (recordHealth f now stopped pid (Some e) exitIP m) \<noteq> m"
  shows "\<exists>r\<in>set results. hrProxyID r = pid \<and>
    (hrErr r = Some e \<and> FailureScopeOf (Some e) \<in> {FailureScopeUnknown, FailureScopeExit}
     \<or> (\<exists>e0 t address tok. hrErr r = Some e0 \<and> e = confirmedExitFailure e0
          \<and> AmbiguousFailureToken (Some e0) = Some t
          \<and> (address, tok) \<in> set (causalEvidenceSet results recent)
          \<and> Generation tok = Generation t \<and> Sequence t < Sequence tok
          \<and> \<not> sameEndpoint (hrAddress r) address))"
proof -
  from assms(3) have own: "\<not> IsFrontFailure (Some e)"
    using recordHealth_front [of "Some e" f now stopped pid exitIP m] by auto
  then have scope: "FailureScopeOf (Some e) \<in> {FailureScopeUnknown, FailureScopeExit}"
    by (cases "FailureScopeOf (Some e)") (auto simp: IsFrontFailure_def)
  from conclude_recorded [OF assms(1,2) own] obtain r where r: "r \<in> set results" "hrProxyID r = pid"
    "if isAmbiguous r then validatedAmbiguous (causalEvidenceSet results recent) r
       \<and> Some e = map_option confirmedExitFailure (hrErr r) else Some e = hrErr r" by blast
  show ?thesis
  proof (cases "isAmbiguous r")
    case True
    with r(3) have v: "validatedAmbiguous (causalEvidenceSet results recent) r"
      and e: "Some e = map_option confirmedExitFailure (hrErr r)" by simp_all
    from v show ?thesis by (rule validatedAmbiguousE) (use r(1,2) e in auto)
  next
    case False
    with r scope show ?thesis by (intro bexI [of _ r]) auto
  qed
qed

text \<open>The batch scan.\<close>

definition scan_inv :: "healthResult list \<Rightarrow> batchScan \<Rightarrow> bool" where
  "scan_inv rs s \<longleftrightarrow> allAmbiguous s \<longrightarrow>
     (\<forall>r\<in>set rs. \<exists>t. AmbiguousFailureToken (hrErr r) = Some t \<and> Generation t = Generation (firstToken s)
        \<and> Sequence (firstToken s) \<le> Sequence t \<and> Sequence t \<le> Sequence (lastToken s))
     \<and> set (scanAddresses s) \<subseteq> hrAddress ` set rs
     \<and> sorted_wrt (\<lambda>a b. \<not> sameEndpoint a b) (scanAddresses s)
     \<and> (Sequence (firstToken s) = 0 \<longrightarrow> rs = [])"

lemma scan_inv_step:
  assumes "scan_inv rs s"
  shows "scan_inv (rs @ [r]) (scanStep r s)"
proof (cases "isAmbiguous r \<and> AmbiguousFailureToken (hrErr r) \<noteq> None")
  case False
  then show ?thesis by (auto simp: scan_inv_def scanStep_def split: option.splits)
next
  case True
  then obtain t where t: "isAmbiguous r" "AmbiguousFailureToken (hrErr r) = Some t" by blast
  then have pos: "0 < Sequence t" using AmbiguousFailureToken_scope by blast
  show ?thesis
    using assms t pos
    by (auto simp: scan_inv_def scanStep_def Let_def sorted_wrt_append list_ex_iff)
qed

lemma scan_inv_fold: "scan_inv rs s \<Longrightarrow> scan_inv (rs @ rs') (fold scanStep rs' s)"
proof (induction rs' arbitrary: rs s)
  case (Cons r rs')
  from Cons.IH [OF scan_inv_step [OF Cons.prems, of r]] show ?case by simp
qed simp

lemma scan_inv_results: "scan_inv results (scanResults skipped results)"
  unfolding scanResults_def
  using scan_inv_fold [of "[]" "\<lparr>allAmbiguous = (\<not> skipped \<and> list_all isAmbiguous results), scanAddresses = [],
        firstToken = noToken, lastToken = noToken\<rparr>" results]
  by (simp add: scan_inv_def)

lemma allAmbiguous_fold: "allAmbiguous (fold scanStep rs s) \<Longrightarrow> allAmbiguous s"
proof (induction rs arbitrary: s)
  case (Cons r rs)
  then have "allAmbiguous (scanStep r s)" by simp
  then show ?case by (simp add: scanStep_def Let_def split: if_splits option.splits)
qed simp

lemma conclude_verdict:
  assumes "conclude recent skipped results = (Some verdict, recs)"
  shows "batchVerdict skipped results = Some verdict
    \<and> recs = map recordingOf (filter (\<lambda>r. hrErr r = None \<or> FrontEstablished (hrErr r)) results)
    \<and> \<not> list_ex (validatedAmbiguous (causalEvidenceSet results recent)) results"
  using assms by (auto simp: conclude_def Let_def list_ex_iff validatedAmbiguous_def split: if_splits)

text \<open>
  C24. A health round blames the front only on sufficient evidence. When it reports a batch to the
  circuit, no candidate was skipped, all of its results failed ambiguously with tokens of one circuit
  generation that the reported range encloses, at least two of them went to different endpoints, no
  evidence contradicts any of them, and no proxy is charged for them.
\<close>

theorem health_batch_is_sound:
  assumes "conclude recent skipped results = (Some (first, final), recs)"
  shows "\<not> skipped
    \<and> (\<forall>r\<in>set results. \<exists>t. AmbiguousFailureToken (hrErr r) = Some t \<and> Generation t = Generation first
         \<and> Sequence first \<le> Sequence t \<and> Sequence t \<le> Sequence final)
    \<and> (\<exists>r\<in>set results. \<exists>r'\<in>set results. \<not> sameEndpoint (hrAddress r) (hrAddress r'))
    \<and> (\<forall>r\<in>set results. \<not> validatedAmbiguous (causalEvidenceSet results recent) r)
    \<and> (\<forall>(pid, err, exitIP)\<in>set recs. recordHealth f now stopped pid err exitIP m = (False, m))"
proof -
  note verdict = conclude_verdict [OF assms]
  let ?s = "scanResults skipped results"
  from verdict have s: "allAmbiguous ?s" "2 \<le> length (scanAddresses ?s)" "firstToken ?s = first" "lastToken ?s = final"
    by (auto simp: batchVerdict_def Let_def split: if_splits)
  from s(1) have start: "\<not> skipped" "list_all isAmbiguous results"
    unfolding scanResults_def by (auto dest: allAmbiguous_fold)
  have inv: "scan_inv results ?s" by (rule scan_inv_results)
  from s(2) obtain a b rest where addrs: "scanAddresses ?s = a # b # rest"
    by (cases "scanAddresses ?s"; cases "tl (scanAddresses ?s)") auto
  with inv s(1) have "\<not> sameEndpoint a b" "a \<in> hrAddress ` set results" "b \<in> hrAddress ` set results"
    by (auto simp: scan_inv_def)
  then have "\<exists>r\<in>set results. \<exists>r'\<in>set results. \<not> sameEndpoint (hrAddress r) (hrAddress r')" by blast
  moreover have "\<forall>(pid, err, exitIP)\<in>set recs. recordHealth f now stopped pid err exitIP m = (False, m)"
    using verdict start(2) isAmbiguous_front by (auto simp: recordingOf_def list_all_iff recordHealth_front)
  ultimately show ?thesis
    using inv s start verdict by (auto simp: scan_inv_def list_ex_iff)
qed

definition exampleAmbiguous :: "string \<Rightarrow> string \<Rightarrow> nat \<Rightarrow> healthResult" where
  "exampleAmbiguous pid address n =
     \<lparr>hrProxyID = pid, hrAddress = address, hrErr = Some (ErrPhase PhaseFrontConnectExit FailureScopeAmbiguous
        False \<lparr>Generation = 0, Sequence = n\<rparr> (Some ErrEOF)), hrExitIP = []\<rparr>"

definition exampleExitFailure :: healthResult where
  "exampleExitFailure = \<lparr>hrProxyID = ''p2'', hrAddress = ''10.0.0.2:1080'',
     hrErr = Some (newEstablishedPhaseError PhaseExitAuth \<lparr>Generation = 0, Sequence = 5\<rparr> ErrEOF), hrExitIP = []\<rparr>"

definition exampleBatch :: "healthResult list" where
  "exampleBatch = [exampleAmbiguous ''p1'' ''10.0.0.1:1080'' 3, exampleAmbiguous ''p2'' ''10.0.0.2:1080'' 4]"

theorem health_batch_is_sound_witness:
  "fst (conclude None False exampleBatch)
     = Some (\<lparr>Generation = 0, Sequence = 3\<rparr>, \<lparr>Generation = 0, Sequence = 4\<rparr>)
   \<and> (\<exists>r\<in>set exampleBatch. \<exists>r'\<in>set exampleBatch. \<not> sameEndpoint (hrAddress r) (hrAddress r'))"
proof -
  have run: "fst (conclude None False exampleBatch)
     = Some (\<lparr>Generation = 0, Sequence = 3\<rparr>, \<lparr>Generation = 0, Sequence = 4\<rparr>)" by code_simp
  then have "conclude None False exampleBatch
     = (Some (\<lparr>Generation = 0, Sequence = 3\<rparr>, \<lparr>Generation = 0, Sequence = 4\<rparr>),
        snd (conclude None False exampleBatch))" by (metis prod.collapse)
  from health_batch_is_sound [OF this] run show ?thesis by blast
qed

text \<open>A failure behind the front settles the older ambiguous failure of another exit.\<close>

theorem health_charges_only_confirmed_witness:
  "\<exists>e. snd (conclude None False [exampleAmbiguous ''p1'' ''10.0.0.1:1080'' 3, exampleExitFailure])
        = [(''p1'', Some e, []), (''p2'', hrErr exampleExitFailure, [])]
     \<and> FailureScopeOf (Some e) = FailureScopeExit
     \<and> pStatus (the (get (proxies (snd (recordHealth (\<lambda>_. False) 0 False ''p1'' (Some e) [] exampleManager))) ''p1''))
        = ProxyUnhealthy
     \<and> (\<exists>r\<in>set [exampleAmbiguous ''p1'' ''10.0.0.1:1080'' 3, exampleExitFailure]. hrProxyID r = ''p1'')"
proof -
  let ?rs = "[exampleAmbiguous ''p1'' ''10.0.0.1:1080'' 3, exampleExitFailure]"
  let ?e = "confirmedExitFailure (the (hrErr (exampleAmbiguous ''p1'' ''10.0.0.1:1080'' 3)))"
  let ?m = "snd (recordHealth (\<lambda>_. False) 0 False ''p1'' (Some ?e) [] exampleManager)"
  have recs: "snd (conclude None False ?rs) = [(''p1'', Some ?e, []), (''p2'', hrErr exampleExitFailure, [])]"
    by code_simp
  have scope: "FailureScopeOf (Some ?e) = FailureScopeExit" by code_simp
  have down: "pStatus (the (get (proxies ?m) ''p1'')) = ProxyUnhealthy" by code_simp
  have up: "pStatus (the (get (proxies exampleManager) ''p1'')) = ProxyIdle" by code_simp
  from down up have "?m \<noteq> exampleManager" by (metis proxyStatus.distinct(7))
  with health_charges_only_confirmed [OF prod.collapse [symmetric], of "''p1''" ?e "[]" None False ?rs
      "\<lambda>_. False" 0 False exampleManager] recs
  have "\<exists>r\<in>set ?rs. hrProxyID r = ''p1''" by auto
  with recs scope down show ?thesis by blast
qed

end
