(* ===== verification/PoolInv.thy ===== *)
theory PoolInv
  imports Dynamic Health
begin

text \<open>
  The invariant of the lease manager and that every helper and every locked section keeps it: the
  tables agree with each other, the queues and connection sets have no duplicates, the retry timer
  is never lost, and the leases in force are exclusive. The parts are predicates on the fields they
  speak about, so that an update of other fields leaves them literally unchanged.
\<close>

section \<open>The invariant\<close>

text \<open>\<open>B\<close> bounds the connection counter of every proxy; a machine will instantiate it with the number
  of connections that are really registered on the proxy.\<close>

definition proxies_ok :: "(string \<Rightarrow> nat) \<Rightarrow> Proxy table \<Rightarrow> string list \<Rightarrow> bool" where
  "proxies_ok B ps order \<longleftrightarrow> keys_ok ps \<and> distinct order \<and> set order = dom (get ps)
     \<and> (\<forall>pid p. get ps pid = Some p \<longrightarrow>
          pID p = pid \<and> 0 \<le> pActiveConns p \<and> pActiveConns p \<le> int (B pid))"

definition leases_ok :: "LeaseView table \<Rightarrow> bool" where
  "leases_ok ls \<longleftrightarrow> keys_ok ls
     \<and> (\<forall>ip l. get ls ip = Some l \<longrightarrow> lvClientIP l = ip \<and> lvStatus l = LeaseActive)"

definition conns_ok :: "connID list table \<Rightarrow> bool" where
  "conns_ok cs \<longleftrightarrow> keys_ok cs \<and> (\<forall>ip xs. get cs ip = Some xs \<longrightarrow> distinct xs \<and> xs \<noteq> [])"

text \<open>The retry flag is set exactly while a timer with the current epoch is armed.\<close>

definition timer_ok :: "bool \<Rightarrow> nat option \<Rightarrow> nat \<Rightarrow> bool \<Rightarrow> bool" where
  "timer_ok retry tm epoch stopped \<longleftrightarrow>
     tm = (if retry then Some epoch else None) \<and> (stopped \<longrightarrow> \<not> retry)"

definition held :: "time \<Rightarrow> LeaseView table \<Rightarrow> string \<Rightarrow> string \<Rightarrow> bool" where
  "held now ls ip pid \<longleftrightarrow> (\<exists>l. get ls ip = Some l \<and> holdsLease now pid l)"

text \<open>No proxy is leased twice, and no leased proxy is being checked for another client.\<close>

definition exclusive :: "time \<Rightarrow> LeaseView table \<Rightarrow> Proxy table \<Rightarrow> bool" where
  "exclusive now ls ps \<longleftrightarrow>
     (\<forall>ip ip' pid. held now ls ip pid \<longrightarrow> held now ls ip' pid \<longrightarrow> ip = ip')
     \<and> (\<forall>ip pid p. held now ls ip pid \<longrightarrow> get ps pid = Some p \<longrightarrow> pStatus p \<noteq> ProxyChecking)"

definition mgr_inv :: "(string \<Rightarrow> nat) \<Rightarrow> time \<Rightarrow> Manager \<Rightarrow> bool" where
  "mgr_inv B now m \<longleftrightarrow> proxies_ok B (proxies m) (proxyOrder m) \<and> leases_ok (leases m)
     \<and> distinct (pendingNew m) \<and> distinct (pendingRefs m) \<and> conns_ok (conns m)
     \<and> timer_ok (queueRetry m) (queueTimer m) (queueEpoch m) (queueStopped m)
     \<and> exclusive now (leases m) (proxies m)"

lemma mgr_invD:
  assumes "mgr_inv B now m"
  shows "proxies_ok B (proxies m) (proxyOrder m)" "leases_ok (leases m)" "distinct (pendingNew m)"
    "distinct (pendingRefs m)" "conns_ok (conns m)"
    "timer_ok (queueRetry m) (queueTimer m) (queueEpoch m) (queueStopped m)"
    "exclusive now (leases m) (proxies m)"
  using assms by (simp_all add: mgr_inv_def)

lemma held_later: "held now' ls ip pid \<Longrightarrow> now \<le> now' \<Longrightarrow> held now ls ip pid"
  by (force simp: held_def holdsLease_def)

lemma held_unique: "held now ls ip pid \<Longrightarrow> held now ls ip pid' \<Longrightarrow> pid = pid'"
  by (auto simp: held_def holdsLease_def)

lemma exclusive_mono:
  assumes "exclusive now ls ps" and "\<And>ip pid. held now' ls' ip pid \<Longrightarrow> held now ls ip pid"
    and "\<And>pid p'. get ps' pid = Some p' \<Longrightarrow> pStatus p' = ProxyChecking \<Longrightarrow>
           (\<exists>p. get ps pid = Some p \<and> pStatus p = ProxyChecking) \<or> (\<forall>ip. \<not> held now' ls' ip pid)"
  shows "exclusive now' ls' ps'"
  unfolding exclusive_def using assms unfolding exclusive_def by blast

lemma mgr_inv_later: "mgr_inv B now m \<Longrightarrow> now \<le> now' \<Longrightarrow> mgr_inv B now' m"
  unfolding mgr_inv_def by (blast intro: exclusive_mono held_later)

lemma proxyHasActiveLease_iff:
  "mgr_inv B now' m \<Longrightarrow> proxyHasActiveLease now pid m \<longleftrightarrow> (\<exists>ip. held now (leases m) ip pid)"
  by (simp add: proxyHasActiveLease_def any_entry_iff held_def mgr_inv_def leases_ok_def)

lemma mgr_inv_frame [simp]:
  "mgr_inv B now (m\<lparr>mDB := db\<rparr>) = mgr_inv B now m" "mgr_inv B now (m\<lparr>mCfg := cfg\<rparr>) = mgr_inv B now m"
  "mgr_inv B now (m\<lparr>closing := cl\<rparr>) = mgr_inv B now m" "mgr_inv B now (m\<lparr>connector := c\<rparr>) = mgr_inv B now m"
  "mgr_inv B now (m\<lparr>queueActive := b\<rparr>) = mgr_inv B now m" "mgr_inv B now (m\<lparr>queueBackoffUntil := t\<rparr>) = mgr_inv B now m"
  by (simp_all add: mgr_inv_def)

lemma mgr_inv_queues:
  "mgr_inv B now m \<Longrightarrow> distinct xs \<Longrightarrow> mgr_inv B now (m\<lparr>pendingNew := xs\<rparr>)"
  "mgr_inv B now m \<Longrightarrow> distinct xs \<Longrightarrow> mgr_inv B now (m\<lparr>pendingRefs := xs\<rparr>)"
  by (simp_all add: mgr_inv_def)

lemma mgr_inv_lease:
  "mgr_inv B now m \<Longrightarrow> get (leases m) ip = Some l \<Longrightarrow> lvClientIP l = ip \<and> lvStatus l = LeaseActive"
  by (simp add: mgr_inv_def leases_ok_def)

lemma mgr_inv_proxy:
  "mgr_inv B now m \<Longrightarrow> get (proxies m) pid = Some p \<Longrightarrow>
     pID p = pid \<and> 0 \<le> pActiveConns p \<and> pActiveConns p \<le> int (B pid)"
  by (simp add: mgr_inv_def proxies_ok_def)

lemma mgr_inv_weaken:
  assumes "mgr_inv B now m" and "\<And>pid p. get (proxies m) pid = Some p \<Longrightarrow> pActiveConns p \<le> int (B' pid)"
  shows "mgr_inv B' now m"
  using assms by (simp add: mgr_inv_def proxies_ok_def)

section \<open>Changes of one proxy\<close>

lemma proxies_ok_put:
  "proxies_ok B ps order \<Longrightarrow> get ps pid = Some p \<Longrightarrow> pID p' = pid \<Longrightarrow> 0 \<le> pActiveConns p' \<Longrightarrow>
     pActiveConns p' \<le> int (B pid) \<Longrightarrow> proxies_ok B (put pid p' ps) order"
  by (auto simp: proxies_ok_def split: if_splits)

lemma proxies_ok_add:
  "proxies_ok B ps order \<Longrightarrow> get ps pid = None \<Longrightarrow> pID p = pid \<Longrightarrow> pActiveConns p = 0 \<Longrightarrow>
     proxies_ok B (put pid p ps) (sort (order @ [pid]))"
  by (auto simp: proxies_ok_def)

lemma proxies_ok_del: "proxies_ok B ps order \<Longrightarrow> proxies_ok B (del pid ps) (removeIP order pid)"
  by (auto simp: proxies_ok_def split: if_splits)

lemma put_proxy_inv:
  assumes inv: "mgr_inv B now m" and p: "get (proxies m) pid = Some p" "pID p' = pid" "0 \<le> pActiveConns p'"
      "pActiveConns p' \<le> int (B pid)"
    and chk: "pStatus p' = ProxyChecking \<Longrightarrow> \<not> proxyHasActiveLease now pid m \<or> pStatus p = ProxyChecking"
  shows "mgr_inv B now (m\<lparr>proxies := put pid p' (proxies m)\<rparr>)"
proof -
  have "exclusive now (leases m) (put pid p' (proxies m))"
  proof (rule exclusive_mono [OF mgr_invD(7) [OF inv]])
    fix k q
    assume "get (put pid p' (proxies m)) k = Some q" "pStatus q = ProxyChecking"
    then show "(\<exists>p. get (proxies m) k = Some p \<and> pStatus p = ProxyChecking) \<or> (\<forall>ip. \<not> held now (leases m) ip k)"
      using p(1) chk proxyHasActiveLease_iff [OF inv, of now pid] by (auto split: if_splits)
  qed
  then show ?thesis using inv proxies_ok_put [OF mgr_invD(1) [OF inv] p] by (simp add: mgr_inv_def)
qed

definition benign :: "(Proxy \<Rightarrow> Proxy) \<Rightarrow> bool" where
  "benign g \<longleftrightarrow> (\<forall>p. pID (g p) = pID p \<and> (0 \<le> pActiveConns p \<longrightarrow> 0 \<le> pActiveConns (g p) \<and> pActiveConns (g p) \<le> pActiveConns p)
     \<and> (pStatus (g p) = ProxyChecking \<longrightarrow> pStatus p = ProxyChecking))"

lemma modifyProxy_inv [intro]:
  assumes "mgr_inv B now m" and "benign g"
  shows "mgr_inv B now (modifyProxy pid g m)"
proof (cases "get (proxies m) pid")
  case (Some p)
  have "mgr_inv B now (m\<lparr>proxies := put pid (g p) (proxies m)\<rparr>)"
  proof (rule put_proxy_inv [OF assms(1) Some])
    from assms(2) have g: "pID (g p) = pID p" "0 \<le> pActiveConns p \<Longrightarrow> 0 \<le> pActiveConns (g p)"
      "0 \<le> pActiveConns p \<Longrightarrow> pActiveConns (g p) \<le> pActiveConns p"
      "pStatus (g p) = ProxyChecking \<Longrightarrow> pStatus p = ProxyChecking"
      unfolding benign_def by blast+
    note ok = mgr_inv_proxy [OF assms(1) Some]
    from g(1,2) ok show "pID (g p) = pid" "0 \<le> pActiveConns (g p)" by simp_all
    from g(3) ok show "pActiveConns (g p) \<le> int (B pid)" by (meson order_trans)
    from g(4) show "pStatus (g p) = ProxyChecking \<Longrightarrow>
      \<not> proxyHasActiveLease now pid m \<or> pStatus p = ProxyChecking" by blast
  qed
  with Some show ?thesis by (simp add: modifyProxy_def)
qed (use assms in \<open>simp add: modifyProxy_def\<close>)

lemma benign_simps [simp, intro]:
  "benign markProxyIdle" "benign disableChecked" "benign (releaseProxyBinding ip)" "benign (unbindOld ip)"
  "benign (\<lambda>p. if pDisabled p then disableChecked p else markProxyIdle p)"
  "benign (if b then disableChecked else markProxyIdle)"
  by (auto simp: benign_def markProxyIdle_def disableChecked_def releaseProxyBinding_def unbindOld_def Let_def)

lemma modifyProxy_frame [simp]:
  "leases (modifyProxy pid g m) = leases m" "proxyOrder (modifyProxy pid g m) = proxyOrder m"
  "pendingNew (modifyProxy pid g m) = pendingNew m" "pendingRefs (modifyProxy pid g m) = pendingRefs m"
  "conns (modifyProxy pid g m) = conns m" "mCfg (modifyProxy pid g m) = mCfg m" "mDB (modifyProxy pid g m) = mDB m"
  by (simp_all add: modifyProxy_def split: option.split)

lemma get_modifyProxy:
  "get (proxies (modifyProxy pid g m)) k = (if k = pid then map_option g (get (proxies m) k) else get (proxies m) k)"
  by (simp add: modifyProxy_def split: option.split)

lemma removeProxy_inv [intro]:
  assumes "mgr_inv B now m"
  shows "mgr_inv B now (removeProxy pid m)"
proof -
  have "exclusive now (leases m) (del pid (proxies m))"
    by (rule exclusive_mono [OF mgr_invD(7) [OF assms]]) (auto split: if_splits)
  then show ?thesis using assms by (simp add: mgr_inv_def removeProxy_def proxies_ok_del)
qed

lemma addEvent_inv [simp]: "mgr_inv B now (addEvent f t ip pid ev d m) = mgr_inv B now m"
  by (simp add: addEvent_def)

lemma withDB_inv [simp]: "mgr_inv B now (withDB g m) = mgr_inv B now m"
  by (simp add: withDB_def)

lemma addProxy_inv:
  assumes "mgr_inv B now m" and "get (proxies m) pid = None" and "pID p = pid" and "pActiveConns p = 0"
    and "pStatus p \<noteq> ProxyChecking"
  shows "mgr_inv B now (m\<lparr>proxies := put pid p (proxies m), proxyOrder := sort (proxyOrder m @ [pid])\<rparr>)"
proof -
  have "exclusive now (leases m) (put pid p (proxies m))"
    by (rule exclusive_mono [OF mgr_invD(7) [OF assms(1)]]) (use assms(5) in \<open>auto split: if_splits\<close>)
  then show ?thesis using assms by (simp add: mgr_inv_def proxies_ok_add)
qed

section \<open>Leases and queues\<close>

lemma held_del: "held now (del ip ls) c pid \<longleftrightarrow> c \<noteq> ip \<and> held now ls c pid"
  by (auto simp: held_def)

lemma held_put: "held now (put ip l ls) c pid \<longleftrightarrow> (if c = ip then holdsLease now pid l else held now ls c pid)"
  by (auto simp: held_def)

lemma del_lease_inv [intro]:
  assumes "mgr_inv B now m"
  shows "mgr_inv B now (m\<lparr>leases := del ip (leases m)\<rparr>)"
proof -
  have "exclusive now (del ip (leases m)) (proxies m)"
    by (rule exclusive_mono [OF mgr_invD(7) [OF assms]]) (auto simp: held_del)
  then show ?thesis using assms by (simp add: mgr_inv_def leases_ok_def)
qed

lemma put_lease_inv:
  assumes "mgr_inv B now m" and "lvClientIP l = ip" and "lvStatus l = LeaseActive"
    and sole: "\<And>c. held now (leases m) c (lvProxyID l) \<Longrightarrow> c = ip"
    and chk: "\<And>p. get (proxies m) (lvProxyID l) = Some p \<Longrightarrow> pStatus p \<noteq> ProxyChecking"
  shows "mgr_inv B now (m\<lparr>leases := put ip l (leases m)\<rparr>)"
proof -
  have "exclusive now (put ip l (leases m)) (proxies m)"
    unfolding exclusive_def held_put using mgr_invD(7) [OF assms(1)] sole chk
    by (auto simp: holdsLease_def exclusive_def split: if_splits)
  then show ?thesis using assms(1-3) by (simp add: mgr_inv_def leases_ok_def)
qed

lemma stampQueued_inv [intro]:
  assumes "mgr_inv B now m"
  shows "mgr_inv B now (stampQueued t ip m)"
proof (cases "get (leases m) ip")
  case (Some l)
  have "held now (put ip (l\<lparr>lvQueuedAt := t\<rparr>) (leases m)) = held now (leases m)"
    by (auto simp: fun_eq_iff held_put held_def holdsLease_def Some)
  then have "exclusive now (put ip (l\<lparr>lvQueuedAt := t\<rparr>) (leases m)) (proxies m)"
    using mgr_invD(7) [OF assms] by (simp add: exclusive_def)
  then show ?thesis using assms Some mgr_inv_lease [OF assms Some]
    by (simp add: mgr_inv_def leases_ok_def stampQueued_def)
qed (use assms in \<open>simp add: stampQueued_def\<close>)

lemma enqueue_inv [intro]:
  "mgr_inv B now m \<Longrightarrow> mgr_inv B now (enqueueNew t ip m)" "mgr_inv B now m \<Longrightarrow> mgr_inv B now (enqueueRefresh t ip m)"
  by (auto simp: enqueueNew_def enqueueRefresh_def mgr_invD(3,4) intro!: stampQueued_inv mgr_inv_queues)

lemma cancelQueueRetry_inv [intro]: "mgr_inv B now m \<Longrightarrow> mgr_inv B now (cancelQueueRetry m)"
  by (simp add: mgr_inv_def timer_ok_def cancelQueueRetry_def)

lemma removeQueued_inv [intro]:
  assumes "mgr_inv B now m"
  shows "mgr_inv B now (removeQueued ip m)"
proof -
  have "mgr_inv B now (m\<lparr>pendingNew := removeIP (pendingNew m) ip, pendingRefs := removeIP (pendingRefs m) ip\<rparr>)"
    using mgr_invD [OF assms] by (simp add: mgr_inv_def)
  then show ?thesis by (auto simp: removeQueued_def Let_def)
qed

lemma cancelQueueRetry_frame [simp]:
  "leases (cancelQueueRetry m) = leases m" "proxies (cancelQueueRetry m) = proxies m"
  "proxyOrder (cancelQueueRetry m) = proxyOrder m" "conns (cancelQueueRetry m) = conns m"
  "pendingNew (cancelQueueRetry m) = pendingNew m" "pendingRefs (cancelQueueRetry m) = pendingRefs m"
  "mDB (cancelQueueRetry m) = mDB m" "mCfg (cancelQueueRetry m) = mCfg m"
  by (simp_all add: cancelQueueRetry_def)

lemma removeQueued_frame [simp]:
  "leases (removeQueued ip m) = leases m" "proxies (removeQueued ip m) = proxies m"
  "proxyOrder (removeQueued ip m) = proxyOrder m" "conns (removeQueued ip m) = conns m"
  "mDB (removeQueued ip m) = mDB m" "mCfg (removeQueued ip m) = mCfg m"
  by (simp_all add: removeQueued_def Let_def)

lemma enqueue_frame [simp]:
  "proxies (enqueueNew t ip m) = proxies m" "proxies (enqueueRefresh t ip m) = proxies m"
  "proxyOrder (enqueueNew t ip m) = proxyOrder m" "proxyOrder (enqueueRefresh t ip m) = proxyOrder m"
  "conns (enqueueNew t ip m) = conns m" "conns (enqueueRefresh t ip m) = conns m"
  by (simp_all add: enqueueNew_def enqueueRefresh_def stampQueued_def split: option.split)

section \<open>Releasing\<close>

lemma dropDynamic_inv [intro]: "mgr_inv B now m \<Longrightarrow> mgr_inv B now (dropDynamic f t n pids m)"
  by (induction f t n pids m rule: dropDynamic.induct) (auto split: option.split)

lemma releaseDraining_inv [intro]: "mgr_inv B now m \<Longrightarrow> mgr_inv B now (releaseDraining ip pid m)"
  by (auto simp: releaseDraining_def split: option.split)

lemma fold_inv: "P m \<Longrightarrow> (\<And>x m. P m \<Longrightarrow> P (g x m)) \<Longrightarrow> P (fold g xs m)"
  by (induction xs arbitrary: m) auto

lemma releaseLocked_inv [intro]:
  assumes "mgr_inv B now m"
  shows "mgr_inv B now (releaseLocked f t ip b m)"
proof (cases "get (leases m) ip")
  case (Some l)
  let ?m0 = "removeQueued ip (m\<lparr>leases := del ip (leases m)\<rparr>)"
  let ?m1 = "if proxyHasActiveLease t (lvProxyID l) ?m0 then ?m0
    else modifyProxy (lvProxyID l) (releaseProxyBinding ip) ?m0"
  have "mgr_inv B now ?m1" using assms by auto
  then have "mgr_inv B now (fold (releaseDraining ip) (proxyOrder ?m1) ?m1)" by (rule fold_inv) auto
  then show ?thesis by (simp add: releaseLocked_def Some Let_def dropDynamic_inv)
qed (use assms in \<open>auto simp: releaseLocked_def\<close>)

section \<open>Answers and connections\<close>

lemma put_put: "put k v (put k w t) = put k v (t :: 'a table)"
  by (induction t) auto

lemma registered_None: "get (conns m) ip = None \<Longrightarrow> registered m ip = []"
  by (simp add: registered_def)

text \<open>Acquiring either fails and changes nothing, or registers the connection and counts it.\<close>

definition acquired :: "string \<Rightarrow> string \<Rightarrow> connID \<Rightarrow> Proxy \<Rightarrow> Manager \<Rightarrow> Manager" where
  "acquired ip pid c p m =
     m\<lparr>conns := put ip (registered m ip @ [c]) (conns m),
       proxies := put pid (p\<lparr>pActiveConns := pActiveConns p + 1\<rparr>) (proxies m)\<rparr>"

definition usable :: "time \<Rightarrow> string \<Rightarrow> Manager \<Rightarrow> LeaseView \<Rightarrow> Proxy \<Rightarrow> bool" where
  "usable t ip m l p \<longleftrightarrow> get (leases m) ip = Some l \<and> lvStatus l = LeaseActive \<and> t \<le> lvExpiresAt l
     \<and> get (proxies m) (lvProxyID l) = Some p \<and> pStatus p = ProxyActive \<and> pClientIP p = ip"

lemma AcquireProxyConn_usable:
  assumes "usable t ip m l p" and "c \<notin> set (registered m ip)"
  shows "AcquireProxyConn t ip (Some c) m
    = (Inr (p\<lparr>pActiveConns := pActiveConns p + 1\<rparr>), acquired ip (lvProxyID l) c p m)"
  using assms by (auto simp: usable_def AcquireProxyConn_def acquired_def Let_def registered_def put_put
      split: option.split)

lemma AcquireProxyConn_refused:
  assumes "\<And>l p c. mc = Some c \<Longrightarrow> usable t ip m l p \<Longrightarrow> c \<in> set (registered m ip)"
  shows "isl (fst (AcquireProxyConn t ip mc m)) \<and> snd (AcquireProxyConn t ip mc m) = m"
proof (cases "\<exists>c l p. mc = Some c \<and> get (leases m) ip = Some l \<and> get (proxies m) (lvProxyID l) = Some p
    \<and> lvStatus l = LeaseActive \<and> t \<le> lvExpiresAt l \<and> pStatus p = ProxyActive \<and> pClientIP p = ip")
  case True
  then obtain c l p where h: "mc = Some c" "usable t ip m l p" by (auto simp: usable_def)
  with assms have "c \<in> set (registered m ip)" by blast
  moreover from this obtain cs where "get (conns m) ip = Some cs"
    by (cases "get (conns m) ip") (auto simp: registered_def)
  ultimately show ?thesis using h by (simp add: usable_def AcquireProxyConn_def)
next
  case False
  then show ?thesis by (auto simp: AcquireProxyConn_def split: option.split)
qed

lemma AcquireProxyConn_cases [consumes 1, case_names refused acquired]:
  assumes "AcquireProxyConn t ip mc m = (r, m')"
  obtains "isl r" "m' = m"
    | c l p where "mc = Some c" "usable t ip m l p" "c \<notin> set (registered m ip)"
        "r = Inr (p\<lparr>pActiveConns := pActiveConns p + 1\<rparr>)" "m' = acquired ip (lvProxyID l) c p m"
proof (cases "\<exists>c l p. mc = Some c \<and> usable t ip m l p \<and> c \<notin> set (registered m ip)")
  case True
  then show ?thesis using assms that(2) AcquireProxyConn_usable by fastforce
next
  case False
  then show ?thesis using assms that(1) AcquireProxyConn_refused [of mc t ip m] by fastforce
qed

lemma acquired_inv:
  assumes "mgr_inv B now m" and "get (proxies m) pid = Some p" and "c \<notin> set (registered m ip)"
  shows "mgr_inv (B(pid := Suc (B pid))) now (acquired ip pid c p m)"
proof -
  from mgr_invD(5) [OF assms(1)] assms(3)
  have "conns_ok (put ip (registered m ip @ [c]) (conns m))"
    by (auto simp: conns_ok_def registered_def split: option.splits if_splits)
  with assms(1) have "mgr_inv B now (m\<lparr>conns := put ip (registered m ip @ [c]) (conns m)\<rparr>)"
    by (simp add: mgr_inv_def)
  then have "mgr_inv (B(pid := Suc (B pid))) now (m\<lparr>conns := put ip (registered m ip @ [c]) (conns m)\<rparr>)"
    by (rule mgr_inv_weaken) (use mgr_inv_proxy [OF assms(1)] in fastforce)
  from put_proxy_inv [OF this, of pid p "p\<lparr>pActiveConns := pActiveConns p + 1\<rparr>"]
    mgr_inv_proxy [OF assms(1,2)] assms(2)
  show ?thesis by (simp add: acquired_def)
qed

lemma dropConn_inv [intro]:
  assumes "mgr_inv B now m"
  shows "mgr_inv B now (dropConn ip c m)"
  using mgr_invD [OF assms]
  by (auto simp: dropConn_def mgr_inv_def conns_ok_def Let_def split: option.split if_splits)

lemma dropConn_frame [simp]:
  "proxies (dropConn ip c m) = proxies m" "leases (dropConn ip c m) = leases m"
  "proxyOrder (dropConn ip c m) = proxyOrder m" "mDB (dropConn ip c m) = mDB m" "mCfg (dropConn ip c m) = mCfg m"
  by (simp_all add: dropConn_def Let_def split: option.split)

text \<open>Unregistering a connection with the proxy it was acquired on lowers the bound of that proxy by one.\<close>

lemma UnregisterConn_inv:
  assumes "mgr_inv B now m" and "c \<in> set (registered m ip)"
  shows "mgr_inv (B(pid := B pid - 1)) now (snd (UnregisterConn f t ip pid c m))"
proof (cases "get (proxies m) pid")
  case None
  have "mgr_inv B now (dropConn ip c m)" using assms(1) by (rule dropConn_inv)
  then have "mgr_inv (B(pid := B pid - 1)) now (dropConn ip c m)"
    by (rule mgr_inv_weaken) (use None mgr_inv_proxy [OF assms(1)] in auto)
  then show ?thesis using None by (simp add: UnregisterConn_def Let_def)
next
  case (Some p)
  let ?B = "B(pid := B pid - 1)"
  let ?m = "dropConn ip c m"
  have inv: "mgr_inv B now ?m" using assms(1) by (rule dropConn_inv)
  have get: "get (proxies ?m) pid = Some p" using Some by simp
  note ok = mgr_inv_proxy [OF assms(1) Some]
  have lower: "mgr_inv ?B now (?m\<lparr>proxies := put pid p' (proxies m)\<rparr>)"
    if "mgr_inv B now (?m\<lparr>proxies := put pid p' (proxies m)\<rparr>)" "pActiveConns p' = pActiveConns p - 1 \<or> pActiveConns p' = 0"
    for p'
    by (rule mgr_inv_weaken [OF that(1)]) (use that(2) ok mgr_inv_proxy [OF assms(1)] in \<open>auto split: if_splits\<close>)
  have one: "mgr_inv ?B now (?m\<lparr>proxies := put pid (p\<lparr>pActiveConns := pActiveConns p - 1\<rparr>) (proxies m)\<rparr>)"
    if "0 < pActiveConns p"
    by (rule lower) (use put_proxy_inv [OF inv get, of "p\<lparr>pActiveConns := pActiveConns p - 1\<rparr>"] ok that in auto)
  have idle: "mgr_inv ?B now (?m\<lparr>proxies := put pid (p\<lparr>pActiveConns := 0, pClientIP := [], pDrainingFor := [],
      pStatus := st\<rparr>) (proxies m)\<rparr>)" if "st \<noteq> ProxyChecking" for st
    by (rule lower) (use put_proxy_inv [OF inv get, of "p\<lparr>pActiveConns := 0, pClientIP := [], pDrainingFor := [],
        pStatus := st\<rparr>"] ok that in auto)
  have none: "mgr_inv ?B now ?m" if "pActiveConns p \<le> 0"
    by (rule mgr_inv_weaken [OF inv]) (use that Some ok mgr_inv_proxy [OF assms(1)] in \<open>auto split: if_splits\<close>)
  show ?thesis
    using Some one idle none assms(2) by (auto simp: UnregisterConn_def Let_def put_put)
qed

lemma UnregisterConn_unknown:
  assumes "mgr_inv B now m" and "c \<notin> set (registered m ip)"
  shows "mgr_inv B now (snd (UnregisterConn f t ip pid c m))"
  using assms by (auto simp: UnregisterConn_def Let_def split: option.split)

lemma closeClient_inv: "mgr_inv B now m \<Longrightarrow> mgr_inv B now (CloseClientConnections ip m)"
  by (simp add: CloseClientConnections_def)

section \<open>Reserving and checking\<close>

lemma enqueuePendingLease_inv: "mgr_inv B now m \<Longrightarrow> mgr_inv B now (snd (enqueuePendingLease f t ip r m))"
  by (auto simp: enqueuePendingLease_def Let_def split: option.split)

lemma releaseIfExpired_inv [intro]: "mgr_inv B now m \<Longrightarrow> mgr_inv B now (releaseIfExpired f t ip m)"
  by (auto simp: releaseIfExpired_def split: option.split)

lemma takeIdleProxy_Some: "takeIdleProxy t m = Some pid \<Longrightarrow> idleCandidate t m pid \<and> pid \<in> set (proxyOrder m)"
  by (auto simp: takeIdleProxy_def find_Some_iff)

lemma takeIdleProxyE:
  assumes "takeIdleProxy t m = Some pid" and "mgr_inv B now m"
  obtains p where "get (proxies m) pid = Some p" "pID p = pid" "pStatus p = ProxyIdle" "\<not> pDisabled p"
    "pSource p = ProxySourcePool" "\<not> proxyHasActiveLease t pid m"
proof -
  from takeIdleProxy_Some [OF assms(1)] obtain p where p: "get (proxies m) pid = Some p"
    "pStatus p = ProxyIdle" "\<not> pDisabled p" "pSource p \<noteq> ProxySourceAPI" "\<not> proxyHasActiveLease t (pID p) m"
    by (auto simp: idleCandidate_def split: option.splits)
  with mgr_inv_proxy [OF assms(2) p(1)] that show thesis by (cases "pSource p") auto
qed

lemma reserveIdle_inv:
  assumes "mgr_inv B now m" and "now \<le> t"
  shows "mgr_inv B t (snd (reserveIdle f t ip r m))"
proof -
  have inv: "mgr_inv B t m" using assms by (rule mgr_inv_later)
  show ?thesis
  proof (cases "takeIdleProxy t m")
    case None
    then show ?thesis using enqueuePendingLease_inv [OF inv] by (simp add: reserveIdle_def split_beta)
  next
    case (Some pid)
    then obtain p where p: "get (proxies m) pid = Some p" "pID p = pid" "\<not> proxyHasActiveLease t pid m"
      using inv by (rule takeIdleProxyE)
    have "mgr_inv B t (m\<lparr>proxies := put pid (checkFor ip p) (proxies m)\<rparr>)"
      by (rule put_proxy_inv [OF inv p(1)]) (use p mgr_inv_proxy [OF inv p(1)] in \<open>auto simp: checkFor_def\<close>)
    with Some p(1) show ?thesis by (simp add: reserveIdle_def Let_def)
  qed
qed

lemma reserveProxyForLease_inv:
  assumes "mgr_inv B now m" and "now \<le> t"
  shows "mgr_inv B t (snd (reserveProxyForLease f g t ip r m))"
proof -
  have "mgr_inv B t (releaseIfExpired f t ip m)" using mgr_inv_later [OF assms] by blast
  then show ?thesis using reserveIdle_inv [of B t "releaseIfExpired f t ip m" t g ip r]
    by (auto simp: reserveProxyForLease_def Let_def split: option.split)
qed

lemma markProbeFailed_inv [intro]: "mgr_inv B now m \<Longrightarrow> mgr_inv B now (markProbeFailed f t pid err m)"
  by (auto simp: markProbeFailed_def benign_def intro!: modifyProxy_inv)

lemma restoreProbe_inv [intro]: "mgr_inv B now m \<Longrightarrow> mgr_inv B now (restoreProbe ip probe m)"
  by (auto simp: restoreProbe_def split: option.split)

lemma restoreAmbiguousProbes_inv [intro]: "mgr_inv B now m \<Longrightarrow> mgr_inv B now (restoreAmbiguousProbes ip ps m)"
  unfolding restoreAmbiguousProbes_def by (rule fold_inv) auto

lemma failProbe_inv [intro]: "mgr_inv B now m \<Longrightarrow> mgr_inv B now (failProbe f t ip probe m)"
  by (auto simp: failProbe_def split: option.split)

lemma markAmbiguousProbesFailed_inv [intro]:
  "mgr_inv B now m \<Longrightarrow> mgr_inv B now (markAmbiguousProbesFailed f n t ip ps m)"
  by (induction f n t ip ps m rule: markAmbiguousProbesFailed.induct) auto

lemma deferCheckedProxy_inv: "mgr_inv B now m \<Longrightarrow> mgr_inv B now (snd (deferCheckedProxy t pid ip r m))"
  by (auto simp: deferCheckedProxy_def Let_def split: option.split)

lemma canceledProbeAssignment_inv: "mgr_inv B now m \<Longrightarrow> mgr_inv B now (snd (canceledProbeAssignment pid ps ip r m))"
proof -
  assume "mgr_inv B now m"
  then have "mgr_inv B now (restoreAmbiguousProbes ip ps
      (modifyProxy pid (\<lambda>p. if pDisabled p then disableChecked p else markProxyIdle p) m))" by auto
  then show ?thesis by (simp add: canceledProbeAssignment_def Let_def split: option.split)
qed

text \<open>The helpers that run on probed proxies leave the leases alone.\<close>

lemma leases_frame [simp]:
  "leases (addEvent f t ip pid ev d m) = leases m" "proxies (addEvent f t ip pid ev d m) = proxies m"
  "leases (withDB g m) = leases m" "proxies (withDB g m) = proxies m"
  "leases (markProbeFailed f t pid err m) = leases m" "leases (restoreProbe ip probe m) = leases m"
  "leases (failProbe f t ip probe m) = leases m"
  by (simp_all add: addEvent_def withDB_def markProbeFailed_def restoreProbe_def failProbe_def split: option.split)

lemma leases_restoreAmbiguousProbes [simp]: "leases (restoreAmbiguousProbes ip ps m) = leases m"
  unfolding restoreAmbiguousProbes_def by (rule fold_inv [of "\<lambda>m'. leases m' = leases m"]) auto

lemma leases_markAmbiguousProbesFailed [simp]: "leases (markAmbiguousProbesFailed f n t ip ps m) = leases m"
  by (induction f n t ip ps m rule: markAmbiguousProbesFailed.induct) auto

lemma leases_absorbEvidence [simp]: "leases (snd (absorbEvidence f t ip ps ev m)) = leases m"
  by (simp add: absorbEvidence_def split: option.split prod.split)

lemma absorbEvidence_inv: "mgr_inv B now m \<Longrightarrow> mgr_inv B now (snd (absorbEvidence f t ip ps ev m))"
  by (auto simp: absorbEvidence_def split: option.split prod.split)

lemma checkedBy_not_held:
  assumes "mgr_inv B now m" and "checkedBy ip pid m = Some p"
  shows "\<not> held now (leases m) c pid"
  using assms by (auto simp: checkedBy_def mgr_inv_def exclusive_def split: option.splits if_splits)

lemma activateCheckedProxy_inv:
  assumes inv: "mgr_inv B now m" and "\<And>c. \<not> held now (leases m) c pid"
  shows "mgr_inv B now (snd (activateCheckedProxy f t pid ip r exitIP m))"
proof -
  let ?unbound = "if r then (case get (leases m) ip of
      Some old \<Rightarrow> if lvProxyID old \<noteq> [] then modifyProxy (lvProxyID old) (unbindOld ip) m else m
    | None \<Rightarrow> m) else m"
  let ?act = "\<lambda>p. p\<lparr>pStatus := ProxyActive, pClientIP := ip, pDrainingFor := [],
      pFailureCount := 0, pSuccessCount := pSuccessCount p + 1, pLastHealthDetail := [],
      pExitIP := (if exitIP \<noteq> [] then exitIP else pExitIP p)\<rparr>"
  let ?m = "removeQueued ip (modifyProxy pid ?act ?unbound)"
  have "mgr_inv B now ?unbound" using inv by (auto split: option.split)
  then have m: "mgr_inv B now ?m" by (intro removeQueued_inv modifyProxy_inv) (auto simp: benign_def)
  have ls: "leases ?m = leases m" by (auto split: option.split)
  let ?l = "\<lparr>lvClientIP = ip, lvProxyID = pid, lvStatus = LeaseActive, lvExpiresAt = t + LeaseTTL (mCfg m),
      lvQueuedAt = 0, lvMode = None, lvCountry = [], lvDurationMinutes = 0\<rparr>"
  have "mgr_inv B now (?m\<lparr>leases := put ip ?l (leases ?m)\<rparr>)"
    by (rule put_lease_inv [OF m]) (use assms(2) ls in \<open>auto simp: get_modifyProxy\<close>)
  then show ?thesis by (simp add: activateCheckedProxy_def Let_def)
qed

lemma afterProbe_inv:
  assumes "mgr_inv B now m" and "now \<le> t"
  shows "mgr_inv B t (snd (afterProbe f t stopped ev ip r pid res ps m))"
proof -
  have inv: "mgr_inv B t m" using assms by (rule mgr_inv_later)
  show ?thesis
  proof (cases "checkedBy ip pid m")
    case (Some cur)
    have absorbed: "mgr_inv B t (snd (absorbEvidence f t ip ps ev m))" by (rule absorbEvidence_inv [OF inv])
    have "mgr_inv B t (snd (activateCheckedProxy f t pid ip r x
        (restoreAmbiguousProbes ip qs (snd (absorbEvidence f t ip ps ev m)))))" for x qs
      by (rule activateCheckedProxy_inv) (use absorbed checkedBy_not_held [OF inv Some] in auto)
    then show ?thesis
      using inv deferCheckedProxy_inv [OF inv, of t pid ip r] canceledProbeAssignment_inv [OF inv, of pid ps ip r]
        enqueuePendingLease_inv [OF inv, of f t ip r] absorbed Some
      by (simp add: afterProbe_def Let_def split_beta restoreAmbiguousProbes_inv modifyProxy_inv
          markProbeFailed_inv split: sum.split)
  qed (use inv in \<open>simp add: afterProbe_def\<close>)
qed

section \<open>Queues and the timer\<close>

lemma frontBackoffAssignment_inv: "mgr_inv B now m \<Longrightarrow> mgr_inv B now (snd (frontBackoffAssignment t ip r m))"
  by (auto simp: frontBackoffAssignment_def split: option.split)

lemma restorePendingSnapshot_inv:
  assumes "mgr_inv B now m"
  shows "mgr_inv B now (restorePendingSnapshot ip snap m)"
  using mgr_invD [OF assms] by (simp add: restorePendingSnapshot_def mgr_inv_def)

lemma deferQueueRetry_inv [intro]: "mgr_inv B now m \<Longrightarrow> mgr_inv B now (deferQueueRetry t d m)"
  by (simp add: deferQueueRetry_def)

lemma scheduleQueueRetry_inv: "mgr_inv B now m \<Longrightarrow> \<not> queueStopped m \<Longrightarrow> mgr_inv B now (scheduleQueueRetry m)"
  by (simp add: mgr_inv_def scheduleQueueRetry_def cancelQueueRetry_def Let_def timer_ok_def)

lemma processQueueAsync_inv: "mgr_inv B now m \<Longrightarrow> mgr_inv B now (snd (processQueueAsync t m))"
  by (simp add: processQueueAsync_def scheduleQueueRetry_inv)

lemma workerDone_inv: "mgr_inv B now m \<Longrightarrow> mgr_inv B now (snd (workerDone t m))"
  by (simp add: workerDone_def Let_def)

lemma timerFired_inv: "mgr_inv B now m \<Longrightarrow> mgr_inv B now (snd (timerFired t e m))"
  by (simp add: timerFired_def Let_def mgr_inv_def timer_ok_def)

lemma stopQueueProcessing_inv: "mgr_inv B now m \<Longrightarrow> mgr_inv B now (stopQueueProcessing m)"
  by (simp add: mgr_inv_def stopQueueProcessing_def cancelQueueRetry_def timer_ok_def)

lemma nextQueuedClient_inv:
  assumes "mgr_inv B now m"
  shows "mgr_inv B now (snd (nextQueuedClient t m))"
  using assms mgr_invD(3,4) [OF assms]
  by (auto simp: nextQueuedClient_def intro!: mgr_inv_queues split: list.split)

section \<open>Administration, health and rented proxies\<close>

lemma AddProxy_inv:
  assumes "mgr_inv B now m"
  shows "mgr_inv B now (snd (AddProxy f t i m))"
proof -
  obtain e db where up: "UpsertProxy f t (storeProxyOf (newPoolProxy i)) (mDB m) = (e, db)" by fastforce
  have "mgr_inv B now (m\<lparr>mDB := db\<rparr>)" using assms by simp
  from addProxy_inv [OF this, of "inID i" "newPoolProxy i"]
  have "get (proxies m) (inID i) = None \<Longrightarrow> mgr_inv B now (m\<lparr>mDB := db,
      proxies := put (inID i) (newPoolProxy i) (proxies m), proxyOrder := sort (proxyOrder m @ [inID i])\<rparr>)"
    by (simp add: newPoolProxy_def)
  moreover have "pID (newPoolProxy i) = inID i" by (simp add: newPoolProxy_def)
  ultimately show ?thesis using assms up
    by (simp add: AddProxy_def Let_def split: sum.split option.split)
qed

lemma put_status_inv:
  assumes "mgr_inv B now m" and "get (proxies m) pid = Some p" and "pID p' = pID p"
    and "pActiveConns p' = pActiveConns p" and "pStatus p' = ProxyChecking \<Longrightarrow> pStatus p = ProxyChecking"
  shows "mgr_inv B now (m\<lparr>proxies := put pid p' (proxies m)\<rparr>)"
  by (rule put_proxy_inv [OF assms(1,2)]) (use assms mgr_inv_proxy [OF assms(1,2)] in auto)

lemma UpdateProxy_inv:
  assumes "mgr_inv B now m"
  shows "mgr_inv B now (snd (UpdateProxy f t pid i m))"
proof (cases "get (proxies m) pid")
  case (Some p)
  have "mgr_inv B now (m\<lparr>proxies := put pid (edited i p) (proxies m)\<rparr>)"
    by (rule put_status_inv [OF assms Some]) (auto simp: edited_def split: if_splits)
  with assms Some show ?thesis
    by (simp add: UpdateProxy_def Let_def split_beta split: sum.split option.split)
qed (use assms in \<open>simp add: UpdateProxy_def split_beta split: sum.split\<close>)

lemma SetProxyDisabled_inv:
  assumes "mgr_inv B now m"
  shows "mgr_inv B now (snd (SetProxyDisabled f t pid b m))"
proof (cases "get (proxies m) pid")
  case (Some p)
  have "mgr_inv B now (m\<lparr>proxies := put pid (switched b p) (proxies m)\<rparr>)"
    by (rule put_status_inv [OF assms Some]) (auto simp: switched_def split: if_splits)
  with assms Some show ?thesis
    by (simp add: SetProxyDisabled_def Let_def split_beta split: option.split)
qed (use assms in \<open>simp add: SetProxyDisabled_def\<close>)

lemma DeleteProxy_inv: "mgr_inv B now m \<Longrightarrow> mgr_inv B now (snd (DeleteProxy f pid m))"
  by (auto simp: DeleteProxy_def intro!: removeProxy_inv split: option.split prod.split)

lemma recordHealth_inv:
  assumes "mgr_inv B now m"
  shows "mgr_inv B now (snd (recordHealth f t stopped pid err x m))"
proof (cases "get (proxies m) pid")
  case (Some p)
  have failed: "mgr_inv B now (m\<lparr>proxies := put pid (healthFailed (mCfg m) e p) (proxies m)\<rparr>)" for e
    by (rule put_status_inv [OF assms Some]) (auto simp: healthFailed_def Let_def split: if_splits)
  have passed: "mgr_inv B now (m\<lparr>proxies := put pid (healthPassed x p) (proxies m)\<rparr>)"
    by (rule put_status_inv [OF assms Some]) (auto simp: healthPassed_def)
  have recovered: "mgr_inv B now (m\<lparr>proxies := put pid (recoveredProxyStatus t (healthPassed x p) m) (proxies m)\<rparr>)"
    by (rule put_status_inv [OF assms Some])
      (auto simp: recoveredProxyStatus_def healthPassed_def split: option.splits if_splits)
  show ?thesis using assms Some failed passed recovered
    by (simp add: recordHealth_def Let_def split: option.split)
qed (use assms in \<open>simp add: recordHealth_def\<close>)

lemma detachOld_inv: "mgr_inv B now m \<Longrightarrow> mgr_inv B now (snd (detachOld ip old m))"
  by (auto simp: detachOld_def benign_def intro!: modifyProxy_inv split: option.split)

lemma detachOld_leases [simp]: "leases (snd (detachOld ip old m)) = leases m"
  by (simp add: detachOld_def removeProxy_def split: option.split)

lemma detachOld_absent: "get (proxies m) k = None \<Longrightarrow> get (proxies (snd (detachOld ip old m))) k = None"
  by (auto simp: detachOld_def removeProxy_def get_modifyProxy split: option.split)

text \<open>The identifier of a rented proxy is 64 random bits: it is taken to be new.\<close>

definition fresh_proxy :: "Manager \<Rightarrow> Proxy \<Rightarrow> bool" where
  "fresh_proxy m c \<longleftrightarrow> get (proxies m) (pID c) = None
     \<and> list_all (\<lambda>(ip, l). lvProxyID l \<noteq> pID c) (leases m) \<and> pActiveConns c = 0"

lemma fresh_proxyD:
  assumes "fresh_proxy m c"
  shows "get (proxies m) (pID c) = None" "get (leases m) ip = Some l \<Longrightarrow> lvProxyID l \<noteq> pID c" "pActiveConns c = 0"
  using assms map_of_SomeD [of "leases m" ip l] by (auto simp: fresh_proxy_def list_all_iff)

lemma installDynamic_inv:
  assumes inv: "mgr_inv B now m" and fresh: "fresh_proxy m c"
  shows "mgr_inv B now (snd (installDynamic f t ip req c r m))"
proof -
  let ?c = "c\<lparr>pStatus := ProxyActive, pClientIP := ip, pSuccessCount := pSuccessCount c + 1\<rparr>"
  let ?m = "m\<lparr>proxies := put (pID c) ?c (proxies m), proxyOrder := sort (proxyOrder m @ [pID c])\<rparr>"
  have "mgr_inv B now ?m" by (rule addProxy_inv [OF inv]) (use fresh_proxyD [OF fresh] in auto)
  then have m: "mgr_inv B now (removeQueued ip ?m)" by blast
  have "mgr_inv B now ((removeQueued ip ?m)\<lparr>leases := put ip (dynamicLease req ?c ip) (leases m)\<rparr>)"
    using put_lease_inv [OF m, of "dynamicLease req ?c ip" ip] fresh_proxyD [OF fresh]
    by (auto simp: dynamicLease_def held_def holdsLease_def)
  then show ?thesis by (simp add: installDynamic_def Let_def)
qed

lemma activateDynamicProxy_inv:
  assumes "mgr_inv B now m" and "fresh_proxy m c"
  shows "mgr_inv B now (snd (snd (activateDynamicProxy f t ip req c r m)))"
proof -
  have "mgr_inv B now (snd (installDynamic g t ip req c r (snd (detachOld ip old (m\<lparr>mDB := db\<rparr>)))))" for g old db
    by (rule installDynamic_inv)
      (use assms detachOld_inv [of B now "m\<lparr>mDB := db\<rparr>"] detachOld_absent [of "m\<lparr>mDB := db\<rparr>"] in
        \<open>auto simp: fresh_proxy_def\<close>)
  then show ?thesis using assms(1)
    by (simp add: activateDynamicProxy_def Let_def split_beta split: option.split)
qed

end
