(* ===== verification/ManagerMachine.thy ===== *)
theory ManagerMachine
  imports PoolInv
begin

text \<open>
  The lease manager as a state machine. Every locked section of internal/manager is an event that may
  happen at any time, with any arguments and any database failures, in any order: that covers every
  interleaving of the goroutines of clients, the queue worker, the health checker, the timers and the
  administration. A ghost map records the proxy on which a registered connection was acquired; the
  one discipline asked of the environment is that internal/gateway unregisters a connection with that
  proxy, as its \<open>handleProxy\<close> does.
\<close>

section \<open>Events\<close>

datatype event =
    EvAcquire string "connID option"
  | EvUnregister dbfaults string string connID
  | EvCloseClient string
  | EvRelease dbfaults string
  | EvReserve dbfaults dbfaults string bool
  | EvAfterProbe dbfaults bool "FrontEvidence option" string bool string probeResult "ambiguousProbe list"
  | EvRestoreProbes string "ambiguousProbe list"
  | EvFailProbes dbfaults nat string "ambiguousProbe list"
  | EvRestoreSnapshot string pendingSnapshot
  | EvDeferQueue duration
  | EvBackoff string bool
  | EvProcessQueue
  | EvWorkerDone
  | EvTimer nat
  | EvStop
  | EvNextQueued
  | EvAdd faults ProxyInput
  | EvUpdate faults string ProxyInput
  | EvSetDisabled faults string bool
  | EvDelete faults string
  | EvHealth faults bool string "goError option" string
  | EvDynamic dbfaults string DynamicLeaseRequest Proxy bool
  | EvConnector Connector
  | EvConfig Config
  | EvFront Connector Config

fun perform :: "time \<Rightarrow> event \<Rightarrow> Manager \<Rightarrow> Manager" where
  "perform t (EvAcquire ip c) m = snd (AcquireProxyConn t ip c m)"
| "perform t (EvUnregister f ip pid c) m = snd (UnregisterConn f t ip pid c m)"
| "perform t (EvCloseClient ip) m = CloseClientConnections ip m"
| "perform t (EvRelease f ip) m = releaseLocked f t ip True m"
| "perform t (EvReserve f g ip refresh) m = snd (reserveProxyForLease f g t ip refresh m)"
| "perform t (EvAfterProbe f stopped ev ip refresh pid r probes) m =
     snd (afterProbe f t stopped ev ip refresh pid r probes m)"
| "perform t (EvRestoreProbes ip probes) m = restoreAmbiguousProbes ip probes m"
| "perform t (EvFailProbes f n ip probes) m = markAmbiguousProbesFailed f n t ip probes m"
| "perform t (EvRestoreSnapshot ip snap) m = restorePendingSnapshot ip snap m"
| "perform t (EvDeferQueue d) m = deferQueueRetry t d m"
| "perform t (EvBackoff ip refresh) m = snd (frontBackoffAssignment t ip refresh m)"
| "perform t EvProcessQueue m = snd (processQueueAsync t m)"
| "perform t EvWorkerDone m = snd (workerDone t m)"
| "perform t (EvTimer epoch) m = snd (timerFired t epoch m)"
| "perform t EvStop m = stopQueueProcessing m"
| "perform t EvNextQueued m = snd (nextQueuedClient t m)"
| "perform t (EvAdd f i) m = snd (AddProxy f t i m)"
| "perform t (EvUpdate f pid i) m = snd (UpdateProxy f t pid i m)"
| "perform t (EvSetDisabled f pid b) m = snd (SetProxyDisabled f t pid b m)"
| "perform t (EvDelete f pid) m = snd (DeleteProxy f pid m)"
| "perform t (EvHealth f stopped pid err exitIP) m = snd (recordHealth f t stopped pid err exitIP m)"
| "perform t (EvDynamic f ip req c refresh) m = snd (snd (activateDynamicProxy f t ip req c refresh m))"
| "perform t (EvConnector c) m = m\<lparr>connector := c\<rparr>"
| "perform t (EvConfig cfg) m = m\<lparr>mCfg := cfg\<rparr>"
| "perform t (EvFront c cfg) m = cancelQueueRetry (m\<lparr>connector := c, mCfg := cfg, queueBackoffUntil := 0\<rparr>)"

record world =
  clock :: time
  mgr :: Manager
  owner :: "string \<times> connID \<Rightarrow> string option"

fun track :: "time \<Rightarrow> event \<Rightarrow> Manager \<Rightarrow> (string \<times> connID \<Rightarrow> string option) \<Rightarrow> string \<times> connID \<Rightarrow> string option" where
  "track t (EvAcquire ip (Some c)) m own =
     (case fst (AcquireProxyConn t ip (Some c) m) of Inl _ \<Rightarrow> own | Inr p \<Rightarrow> own((ip, c) \<mapsto> pID p))"
| "track t (EvUnregister f ip pid c) m own = own((ip, c) := None)"
| "track t _ m own = own"

fun allowed :: "event \<Rightarrow> world \<Rightarrow> bool" where
  "allowed (EvUnregister f ip pid c) w = (owner w (ip, c) = Some pid \<or> owner w (ip, c) = None)"
| "allowed (EvDynamic f ip req c refresh) w = fresh_proxy (mgr w) c"
| "allowed _ w = True"

inductive mgr_step :: "world \<Rightarrow> world \<Rightarrow> bool" where
  happens: "clock w \<le> t \<Longrightarrow> allowed e w \<Longrightarrow>
     mgr_step w \<lparr>clock = t, mgr = perform t e (mgr w), owner = track t e (mgr w) (owner w)\<rparr>"

inductive_cases mgr_stepE: "mgr_step w w'"

section \<open>The connection sets\<close>

text \<open>Only acquiring and unregistering touch them.\<close>

lemma conns_helpers [simp]:
  "conns (removeProxy pid m) = conns m" "conns (withDB g m) = conns m" "conns (addEvent f t ip pid ev d m) = conns m"
  "conns (cancelQueueRetry m) = conns m" "conns (scheduleQueueRetry m) = conns m"
  "conns (deferQueueRetry t dl m) = conns m" "conns (restoreProbe ip probe m) = conns m"
  "conns (markProbeFailed f t pid err m) = conns m" "conns (failProbe f t ip probe m) = conns m"
  "conns (releaseDraining ip pid m) = conns m"
  by (simp_all add: removeProxy_def withDB_def addEvent_def cancelQueueRetry_def scheduleQueueRetry_def Let_def
      deferQueueRetry_def restoreProbe_def markProbeFailed_def failProbe_def releaseDraining_def split: option.split)

lemma conns_loops [simp]:
  "conns (dropDynamic f t n pids m) = conns m" "conns (restoreAmbiguousProbes ip ps m) = conns m"
  "conns (markAmbiguousProbesFailed f n t ip ps m) = conns m"
  "conns (fold (releaseDraining ip) pids m) = conns m"
proof -
  show "conns (dropDynamic f t n pids m) = conns m"
    by (induction f t n pids m rule: dropDynamic.induct) (auto split: option.split)
  show "conns (markAmbiguousProbesFailed f n t ip ps m) = conns m"
    by (induction f n t ip ps m rule: markAmbiguousProbesFailed.induct) auto
  show "conns (restoreAmbiguousProbes ip ps m) = conns m" unfolding restoreAmbiguousProbes_def
    by (rule fold_inv [of "\<lambda>m'. conns m' = conns m"]) auto
  show "conns (fold (releaseDraining ip) pids m) = conns m"
    by (rule fold_inv [of "\<lambda>m'. conns m' = conns m"]) auto
qed

lemma conns_sections [simp]:
  "conns (releaseLocked f t ip b m) = conns m" "conns (releaseIfExpired f t ip m) = conns m"
  "conns (snd (enqueuePendingLease f t ip r m)) = conns m" "conns (snd (reserveIdle f t ip r m)) = conns m"
  "conns (snd (deferCheckedProxy t pid ip r m)) = conns m"
  "conns (snd (canceledProbeAssignment pid ps ip r m)) = conns m"
  "conns (snd (activateCheckedProxy f t pid ip r x m)) = conns m"
  "conns (snd (absorbEvidence f t ip ps ev m)) = conns m"
  "conns (snd (detachOld ip old m)) = conns m" "conns (snd (installDynamic g t ip req c r m)) = conns m"
  by (simp_all add: releaseLocked_def releaseIfExpired_def enqueuePendingLease_def reserveIdle_def deferCheckedProxy_def
      canceledProbeAssignment_def activateCheckedProxy_def absorbEvidence_def detachOld_def installDynamic_def
      Let_def split_beta split: option.split)

lemma conns_perform:
  assumes "\<And>ip c. e \<noteq> EvAcquire ip c" and "\<And>f ip pid c. e \<noteq> EvUnregister f ip pid c"
  shows "conns (perform t e m) = conns m"
  using assms
  by (cases e) (simp_all add: CloseClientConnections_def reserveProxyForLease_def afterProbe_def
      restorePendingSnapshot_def frontBackoffAssignment_def processQueueAsync_def workerDone_def timerFired_def
      stopQueueProcessing_def nextQueuedClient_def AddProxy_def UpdateProxy_def SetProxyDisabled_def DeleteProxy_def
      recordHealth_def activateDynamicProxy_def Let_def split_beta split: option.split sum.split list.split, blast+)

lemma registered_cong: "conns m' = conns m \<Longrightarrow> registered m' ip = registered m ip"
  by (simp add: registered_def)

lemma registered_acquired:
  "c' \<in> set (registered (acquired ip pid c p m) ip') \<longleftrightarrow> ip' = ip \<and> c' = c \<or> c' \<in> set (registered m ip')"
  by (auto simp: registered_def acquired_def)

lemma conns_UnregisterConn: "conns (snd (UnregisterConn f t ip pid c m)) = conns (dropConn ip c m)"
  by (simp add: UnregisterConn_def Let_def split: option.split)

lemma registered_dropConn:
  "c' \<in> set (registered (dropConn ip c m) ip') \<longleftrightarrow> \<not> (ip' = ip \<and> c' = c) \<and> c' \<in> set (registered m ip')"
  by (auto simp: registered_def dropConn_def Let_def filter_empty_conv split: option.splits if_splits)

section \<open>The invariant of the machine\<close>

definition connsOn :: "(string \<times> connID \<Rightarrow> string option) \<Rightarrow> string \<Rightarrow> nat" where
  "connsOn own pid = card {k. own k = Some pid}"

definition world_inv :: "world \<Rightarrow> bool" where
  "world_inv w \<longleftrightarrow> mgr_inv (connsOn (owner w)) (clock w) (mgr w) \<and> finite (dom (owner w))
     \<and> (\<forall>ip c. c \<in> set (registered (mgr w) ip) \<longleftrightarrow> owner w (ip, c) \<noteq> None)"

definition world_start :: "world \<Rightarrow> bool" where
  "world_start w \<longleftrightarrow> mgr_inv (\<lambda>_. 0) (clock w) (mgr w) \<and> owner w = (\<lambda>_. None) \<and> conns (mgr w) = []"

lemma finite_owned: "finite (dom own) \<Longrightarrow> finite {k. own k = Some pid}"
  by (rule finite_subset [of _ "dom own"]) auto

lemma connsOn_upd:
  assumes "finite (dom own)" and "own k = None"
  shows "connsOn (own(k \<mapsto> pid)) = (connsOn own)(pid := Suc (connsOn own pid))"
proof
  fix x
  have "{k'. (own(k \<mapsto> pid)) k' = Some x} = (if x = pid then insert k {k'. own k' = Some x} else {k'. own k' = Some x})"
    using assms(2) by auto
  then show "connsOn (own(k \<mapsto> pid)) x = ((connsOn own)(pid := Suc (connsOn own pid))) x"
    using assms finite_owned [OF assms(1)] by (simp add: connsOn_def)
qed

lemma connsOn_del:
  assumes "finite (dom own)" and "own k = Some pid"
  shows "connsOn (own(k := None)) = (connsOn own)(pid := connsOn own pid - 1)"
proof
  fix x
  have "{k'. (own(k := None)) k' = Some x} = (if x = pid then {k'. own k' = Some x} - {k} else {k'. own k' = Some x})"
    using assms(2) by auto
  then show "connsOn (own(k := None)) x = ((connsOn own)(pid := connsOn own pid - 1)) x"
    using assms by (simp add: connsOn_def)
qed

lemma connsOn_empty [simp]: "connsOn (\<lambda>_. None) = (\<lambda>_. 0)"
  by (simp add: connsOn_def fun_eq_iff)

lemma world_start_inv: "world_start w \<Longrightarrow> world_inv w"
  unfolding world_start_def world_inv_def
  by (auto simp: registered_def)

lemma perform_inv:
  assumes "mgr_inv B now m" and "now \<le> t" and "\<And>ip c. e \<noteq> EvAcquire ip c"
    and "\<And>f ip pid c. e \<noteq> EvUnregister f ip pid c"
    and "\<And>f ip req c r. e = EvDynamic f ip req c r \<Longrightarrow> fresh_proxy m c"
  shows "mgr_inv B t (perform t e m)"
proof -
  note inv = mgr_inv_later [OF assms(1,2)]
  show ?thesis
    using assms(3-5) inv
    by (cases e)
      (auto simp: closeClient_inv workerDone_inv timerFired_inv
        intro!: reserveProxyForLease_inv afterProbe_inv restorePendingSnapshot_inv frontBackoffAssignment_inv
          processQueueAsync_inv stopQueueProcessing_inv nextQueuedClient_inv AddProxy_inv UpdateProxy_inv
          SetProxyDisabled_inv DeleteProxy_inv recordHealth_inv activateDynamicProxy_inv)
qed

lemma world_inv_step:
  assumes inv: "world_inv w" and "mgr_step w w'"
  shows "world_inv w'"
  using assms(2)
proof (cases rule: mgr_step.cases)
  case (happens t e)
  note m = mgr_inv_later [of "connsOn (owner w)" "clock w" "mgr w" t]
  from inv happens(2) have minv: "mgr_inv (connsOn (owner w)) t (mgr w)" and fin: "finite (dom (owner w))"
    and reg: "\<And>ip c. c \<in> set (registered (mgr w) ip) \<longleftrightarrow> owner w (ip, c) \<noteq> None"
    using m by (auto simp: world_inv_def)
  show ?thesis
  proof (cases "(\<exists>ip c. e = EvAcquire ip c) \<or> (\<exists>f ip pid c. e = EvUnregister f ip pid c)")
    case False
    then have e: "\<And>ip c. e \<noteq> EvAcquire ip c" "\<And>f ip pid c. e \<noteq> EvUnregister f ip pid c" by blast+
    have "track t e (mgr w) (owner w) = owner w" using e by (cases e) auto
    moreover have "mgr_inv (connsOn (owner w)) t (perform t e (mgr w))"
      by (rule perform_inv [OF minv order_refl e]) (use happens(3) in auto)
    ultimately show ?thesis
      using happens(1) fin reg registered_cong [OF conns_perform [OF e]] by (simp add: world_inv_def)
  next
    case True
    then consider (acq) ip mc where "e = EvAcquire ip mc" | (unreg) f ip pid c where "e = EvUnregister f ip pid c"
      by blast
    then show ?thesis
    proof cases
      case acq
      obtain r m' where run: "AcquireProxyConn t ip mc (mgr w) = (r, m')" by fastforce
      from run show ?thesis
      proof (cases rule: AcquireProxyConn_cases)
        case refused
        then have "track t e (mgr w) (owner w) = owner w"
          using run acq by (cases mc) (auto split: sum.split)
        then show ?thesis using happens(1) acq run refused minv fin reg by (simp add: world_inv_def)
      next
        case (acquired c l p)
        then have none: "owner w (ip, c) = None" using reg by blast
        have p: "get (proxies (mgr w)) (lvProxyID l) = Some p" using acquired(2) by (simp add: usable_def)
        have "pID p = lvProxyID l" using mgr_inv_proxy [OF minv p] by simp
        then have own: "track t e (mgr w) (owner w) = (owner w)((ip, c) \<mapsto> lvProxyID l)"
          using acq run acquired by simp
        from acquired_inv [OF minv p acquired(3)]
        have "mgr_inv (connsOn ((owner w)((ip, c) \<mapsto> lvProxyID l))) t m'"
          using acquired(5) connsOn_upd [OF fin none] by simp
        then show ?thesis
          using happens(1) acq run own fin reg acquired(5) by (auto simp: world_inv_def registered_acquired)
      qed
    next
      case unreg
      have own: "track t e (mgr w) (owner w) = (owner w)((ip, c) := None)" using unreg by simp
      have reg': "c' \<in> set (registered (perform t e (mgr w)) ip') \<longleftrightarrow> ((owner w)((ip, c) := None)) (ip', c') \<noteq> None"
        for ip' c'
        using unreg reg registered_cong [OF conns_UnregisterConn] registered_dropConn by simp
      have "mgr_inv (connsOn ((owner w)((ip, c) := None))) t (perform t e (mgr w))"
      proof (cases "owner w (ip, c)")
        case None
        then have "c \<notin> set (registered (mgr w) ip)" using reg by blast
        moreover have "(owner w)((ip, c) := None) = owner w" using None by (simp add: fun_upd_idem)
        ultimately show ?thesis using UnregisterConn_unknown [OF minv] unreg by simp
      next
        case (Some pid')
        then have "pid' = pid" "c \<in> set (registered (mgr w) ip)" using happens(3) unreg reg by auto
        then show ?thesis using UnregisterConn_inv [OF minv] connsOn_del [OF fin Some] unreg by simp
      qed
      then show ?thesis using happens(1) own fin reg' by (auto simp: world_inv_def intro: finite_subset)
    qed
  qed
qed

interpretation manager: step_system world_start mgr_step world_inv
  by unfold_locales (auto intro: world_start_inv world_inv_step)

section \<open>The abstract lease table\<close>

text \<open>
  What the manager promises about leases: a table from clients to a proxy with an expiry, changed by
  granting a proxy that nobody else holds and by revoking. Renewals and moves are grants.
\<close>

type_synonym leaseTable = "string \<Rightarrow> (string \<times> time) option"

inductive table_step :: "time \<times> leaseTable \<Rightarrow> time \<times> leaseTable \<Rightarrow> bool" where
  keep: "t \<le> t' \<Longrightarrow> table_step (t, A) (t', A)"
| revoke: "t \<le> t' \<Longrightarrow> table_step (t, A) (t', A(ip := None))"
| grant: "t \<le> t' \<Longrightarrow> (\<And>ip' e'. A ip' = Some (pid, e') \<Longrightarrow> t' < e' \<Longrightarrow> ip' = ip) \<Longrightarrow>
     table_step (t, A) (t', A(ip \<mapsto> (pid, e)))"

definition table_exclusive :: "time \<times> leaseTable \<Rightarrow> bool" where
  "table_exclusive s \<longleftrightarrow> (case s of (t, A) \<Rightarrow>
     \<forall>ip ip' pid e e'. A ip = Some (pid, e) \<longrightarrow> A ip' = Some (pid, e') \<longrightarrow> t < e \<longrightarrow> t < e' \<longrightarrow> ip = ip')"

lemma table_exclusive_step: "table_exclusive s \<Longrightarrow> table_step s s' \<Longrightarrow> table_exclusive s'"
  by (erule table_step.cases) (fastforce simp: table_exclusive_def split: if_splits)+

interpretation table: step_system table_exclusive table_step table_exclusive
  by unfold_locales (auto intro: table_exclusive_step)

definition leaseTable :: "Manager \<Rightarrow> leaseTable" where
  "leaseTable m = (\<lambda>ip. map_option (\<lambda>l. (lvProxyID l, lvExpiresAt l)) (get (leases m) ip))"

definition abstractWorld :: "world \<Rightarrow> time \<times> leaseTable" where
  "abstractWorld w = (clock w, leaseTable (mgr w))"

lemma leaseTable_cong: "leases m' = leases m \<Longrightarrow> leaseTable m' = leaseTable m"
  by (simp add: leaseTable_def)

lemma leaseTable_stampQueued [simp]: "leaseTable (stampQueued t ip m) = leaseTable m"
  by (auto simp: leaseTable_def stampQueued_def split: option.split)

lemma leaseTable_enqueue [simp]:
  "leaseTable (enqueueNew t ip m) = leaseTable m" "leaseTable (enqueueRefresh t ip m) = leaseTable m"
  by (simp_all add: enqueueNew_def enqueueRefresh_def leaseTable_cong [of "m\<lparr>pendingNew := x\<rparr>" m for x]
      leaseTable_cong [of "m\<lparr>pendingRefs := x\<rparr>" m for x])

lemma leases_more [simp]:
  "leases (removeProxy pid m) = leases m" "leases (deferQueueRetry t dl m) = leases m"
  "leases (releaseDraining ip pid m) = leases m" "leases (scheduleQueueRetry m) = leases m"
  by (simp_all add: removeProxy_def deferQueueRetry_def releaseDraining_def scheduleQueueRetry_def Let_def
      split: option.split)

lemma leases_loops [simp]:
  "leases (dropDynamic f t n pids m) = leases m" "leases (fold (releaseDraining ip) pids m) = leases m"
proof -
  show "leases (dropDynamic f t n pids m) = leases m"
    by (induction f t n pids m rule: dropDynamic.induct) (auto split: option.split)
  show "leases (fold (releaseDraining ip) pids m) = leases m"
    by (rule fold_inv [of "\<lambda>m'. leases m' = leases m"]) auto
qed

lemma leaseTable_releaseLocked: "leaseTable (releaseLocked f t ip b m) = (leaseTable m)(ip := None)"
  by (auto simp: releaseLocked_def leaseTable_def Let_def fun_eq_iff split: option.split)

lemma leaseTable_enqueuePendingLease [simp]: "leaseTable (snd (enqueuePendingLease f t ip r m)) = leaseTable m"
  by (auto simp: enqueuePendingLease_def Let_def leaseTable_cong [OF leases_frame(1)] split: option.split)

lemma leaseTable_reserveIdle [simp]: "leaseTable (snd (reserveIdle f t ip r m)) = leaseTable m"
  by (simp add: reserveIdle_def Let_def split_beta leaseTable_cong [of "m\<lparr>proxies := ps\<rparr>" m for ps] split: option.split)

lemma leaseTable_reserveProxyForLease:
  "leaseTable (snd (reserveProxyForLease f g t ip r m)) \<in> {leaseTable m, (leaseTable m)(ip := None)}"
  by (auto simp: reserveProxyForLease_def releaseIfExpired_def Let_def leaseTable_releaseLocked split: option.split)

lemma leaseTable_deferred [simp]:
  "leaseTable (snd (deferCheckedProxy t pid ip r m)) = leaseTable m"
  "leaseTable (snd (canceledProbeAssignment pid ps ip r m)) = leaseTable m"
  by (auto simp: deferCheckedProxy_def canceledProbeAssignment_def Let_def
      leaseTable_cong [OF modifyProxy_frame(1)] leaseTable_cong [OF leases_restoreAmbiguousProbes] split: option.split)

lemma leaseTable_activateCheckedProxy:
  "leaseTable (snd (activateCheckedProxy f t pid ip r x m)) = (leaseTable m)(ip \<mapsto> (pid, t + LeaseTTL (mCfg m)))"
  by (auto simp: activateCheckedProxy_def Let_def leaseTable_def fun_eq_iff split: option.split)

lemma leaseTable_afterProbe:
  assumes "leaseTable (snd (afterProbe f t stopped ev ip r pid res ps m)) \<noteq> leaseTable m"
  shows "(\<exists>p. checkedBy ip pid m = Some p) \<and>
    (\<exists>e. leaseTable (snd (afterProbe f t stopped ev ip r pid res ps m)) = (leaseTable m)(ip \<mapsto> (pid, e)))"
proof -
  have keep: "leaseTable (restoreAmbiguousProbes ip qs m') = leaseTable m'"
    "leaseTable (modifyProxy pid g m') = leaseTable m'"
    "leaseTable (markProbeFailed g' t pid err m') = leaseTable m'"
    "leaseTable (snd (absorbEvidence f t ip ps ev m')) = leaseTable m'" for qs m' g g' err
    by (simp_all add: leaseTable_def)
  show ?thesis
    using assms
    by (auto simp: afterProbe_def Let_def split_beta keep leaseTable_activateCheckedProxy
        split: option.splits if_splits sum.splits)
qed

lemma leaseTable_activateDynamicProxy:
  "leaseTable (snd (snd (activateDynamicProxy f t ip req c r m)))
     \<in> {leaseTable m, (leaseTable m)(ip \<mapsto> (pID c, pProviderExpiresAt c))}"
proof -
  have inst: "leaseTable (snd (installDynamic g t ip req c r m')) = (leaseTable m')(ip \<mapsto> (pID c, pProviderExpiresAt c))" for g m'
    by (auto simp: installDynamic_def Let_def leaseTable_def dynamicLease_def fun_eq_iff)
  have "leaseTable (snd (detachOld ip old (m\<lparr>mDB := db\<rparr>))) = leaseTable m" for old db
    by (simp add: leaseTable_def)
  then show ?thesis
    by (simp add: activateDynamicProxy_def Let_def split_beta inst leaseTable_cong [of "m\<lparr>mDB := db\<rparr>" m for db]
        split: option.split)
qed

text \<open>All other events keep the table.\<close>

lemma leases_AcquireProxyConn [simp]: "leases (snd (AcquireProxyConn t ip mc m)) = leases m"
proof -
  obtain r m' where run: "AcquireProxyConn t ip mc m = (r, m')" by fastforce
  then show ?thesis by (cases rule: AcquireProxyConn_cases) (use run in \<open>auto simp: acquired_def\<close>)
qed

lemma leaseTable_frontBackoffAssignment [simp]: "leaseTable (snd (frontBackoffAssignment t ip r m)) = leaseTable m"
  by (simp add: frontBackoffAssignment_def split: option.split)

lemma leases_other:
  assumes "\<And>f ip. e \<noteq> EvRelease f ip" "\<And>f g ip r. e \<noteq> EvReserve f g ip r"
    "\<And>f b ev ip r pid res ps. e \<noteq> EvAfterProbe f b ev ip r pid res ps"
    "\<And>f ip req c r. e \<noteq> EvDynamic f ip req c r" "\<And>ip r. e \<noteq> EvBackoff ip r"
  shows "leases (perform t e m) = leases m"
  using assms
  by (cases e) (simp_all add: UnregisterConn_def CloseClientConnections_def
      restorePendingSnapshot_def processQueueAsync_def workerDone_def timerFired_def
      stopQueueProcessing_def nextQueuedClient_def AddProxy_def UpdateProxy_def SetProxyDisabled_def DeleteProxy_def
      recordHealth_def Let_def split_beta split: option.split sum.split list.split, blast+)

lemma leaseTable_perform:
  "leaseTable (perform t e m) = leaseTable m
   \<or> (\<exists>ip. leaseTable (perform t e m) = (leaseTable m)(ip := None))
   \<or> (\<exists>ip pid x. leaseTable (perform t e m) = (leaseTable m)(ip \<mapsto> (pid, x)) \<and>
        ((\<exists>p. checkedBy ip pid m = Some p) \<or> (\<exists>f req c r. e = EvDynamic f ip req c r \<and> pid = pID c)))"
proof (cases "(\<exists>f ip. e = EvRelease f ip) \<or> (\<exists>f g ip r. e = EvReserve f g ip r)
    \<or> (\<exists>f b ev ip r pid res ps. e = EvAfterProbe f b ev ip r pid res ps)
    \<or> (\<exists>f ip req c r. e = EvDynamic f ip req c r) \<or> (\<exists>ip r. e = EvBackoff ip r)")
  case False
  then have "leases (perform t e m) = leases m" by (intro leases_other) auto
  then show ?thesis using leaseTable_cong by blast
next
  case True
  then show ?thesis
  proof (elim disjE exE)
    fix f b ev ip r pid res ps
    assume "e = EvAfterProbe f b ev ip r pid res ps"
    then show ?thesis using leaseTable_afterProbe [of f t b ev ip r pid res ps m] by fastforce
  next
    fix f g ip r
    assume "e = EvReserve f g ip r"
    then show ?thesis using leaseTable_reserveProxyForLease [of f g t ip r m] by fastforce
  next
    fix f ip req c r
    assume "e = EvDynamic f ip req c r"
    then show ?thesis using leaseTable_activateDynamicProxy [of f t ip req c r m] by fastforce
  qed (auto simp: leaseTable_releaseLocked)
qed

section \<open>Runs\<close>

text \<open>Runs as lists of events at given instants, for concrete executions.\<close>

fun runEvents :: "(time \<times> event) list \<Rightarrow> world \<Rightarrow> world option" where
  "runEvents [] w = Some w"
| "runEvents ((t, e) # es) w =
     (if clock w \<le> t \<and> allowed e w
      then runEvents es \<lparr>clock = t, mgr = perform t e (mgr w), owner = track t e (mgr w) (owner w)\<rparr>
      else None)"

lemma runEvents_reachable: "runEvents es w = Some w' \<Longrightarrow> mgr_step\<^sup>*\<^sup>* w w'"
  by (induction es w rule: runEvents.induct)
    (auto split: if_splits intro: converse_rtranclp_into_rtranclp happens)

definition exampleWorld :: world where
  "exampleWorld = \<lparr>clock = 1, mgr = exampleManager, owner = (\<lambda>_. None)\<rparr>"

lemma exampleWorld_start: "world_start exampleWorld"
proof -
  have p: "get (proxies exampleManager) = [''p1'' \<mapsto> examplePoolProxy ''p1'' ''10.0.0.1:1080'',
      ''p2'' \<mapsto> examplePoolProxy ''p2'' ''10.0.0.2:1080'']"
    by (auto simp: exampleManager_def fun_eq_iff)
  have "proxies_ok (\<lambda>_. 0) (proxies exampleManager) (proxyOrder exampleManager)"
    unfolding proxies_ok_def p
    by (auto simp: exampleManager_def keys_ok_def examplePoolProxy_def newPoolProxy_def split: if_splits)
  moreover have "leases exampleManager = []" "conns exampleManager = []" "pendingNew exampleManager = []"
    "pendingRefs exampleManager = []" "queueRetry exampleManager = False" "queueTimer exampleManager = None"
    by (simp_all add: exampleManager_def blankManager_def)
  ultimately show ?thesis
    by (simp add: world_start_def exampleWorld_def mgr_inv_def leases_ok_def conns_ok_def timer_ok_def exclusive_def held_def)
qed

text \<open>A client leases the first proxy and opens a connection through it.\<close>

abbreviation noFaults :: dbfaults where
  "noFaults \<equiv> \<lambda>_ _. False"

definition exampleRun :: "(time \<times> event) list" where
  "exampleRun =
     [(2, EvReserve noFaults noFaults ''192.168.1.5'' False),
      (3, EvAfterProbe noFaults False None ''192.168.1.5'' False ''p1'' (Inr ''203.0.113.7'') []),
      (4, EvAcquire ''192.168.1.5'' (Some 1))]"

definition exampleLeased :: world where
  "exampleLeased = the (runEvents exampleRun exampleWorld)"

lemma exampleLeased_reachable: "mgr_step\<^sup>*\<^sup>* exampleWorld exampleLeased"
proof -
  have "runEvents exampleRun exampleWorld \<noteq> None" by code_simp
  then show ?thesis using runEvents_reachable by (auto simp: exampleLeased_def)
qed

text \<open>
  Two requests of one client that overlap leave a proxy behind: both find no lease and reserve, both
  activate, and the second activation replaces the lease of the first without freeing its proxy, which
  stays bound to the client without a lease. Without a front proxy nothing orders the requests.
\<close>

definition overlappingRun :: "(time \<times> event) list" where
  "overlappingRun =
     [(2, EvReserve noFaults noFaults ''192.168.1.5'' False), (2, EvReserve noFaults noFaults ''192.168.1.5'' False),
      (3, EvAfterProbe noFaults False None ''192.168.1.5'' False ''p1'' (Inr ''203.0.113.7'') []),
      (3, EvAfterProbe noFaults False None ''192.168.1.5'' False ''p2'' (Inr ''203.0.113.8'') [])]"

lemma overlapping_requests_leak:
  "(case runEvents overlappingRun exampleWorld of
      None \<Rightarrow> False
    | Some w \<Rightarrow> map_option lvProxyID (get (leases (mgr w)) ''192.168.1.5'') = Some ''p2''
        \<and> map_option (\<lambda>p. (pStatus p, pClientIP p)) (get (proxies (mgr w)) ''p1'') = Some (ProxyActive, ''192.168.1.5'')
        \<and> \<not> proxyHasActiveLease 3 ''p1'' (mgr w) \<and> takeIdleProxy 3 (mgr w) = None)"
  by code_simp

section \<open>Properties\<close>

lemma held_leaseTable:
  assumes "mgr_inv B now m"
  shows "held t (leases m) ip pid \<longleftrightarrow> (\<exists>e. leaseTable m ip = Some (pid, e) \<and> t < e)"
  using mgr_inv_lease [OF assms, of ip] by (auto simp: held_def holdsLease_def leaseTable_def)

lemma section_refines:
  assumes "world_inv w" and "mgr_step w w'"
  shows "table_step (abstractWorld w) (abstractWorld w')"
proof -
  from assms(2) show ?thesis
  proof (cases rule: mgr_step.cases)
    case (happens t e)
    have minv: "mgr_inv (connsOn (owner w)) t (mgr w)"
      using assms(1) happens(2) by (auto simp: world_inv_def intro: mgr_inv_later)
    note excl = mgr_invD(7) [OF minv] and held = held_leaseTable [OF minv]
    have abs: "abstractWorld w = (clock w, leaseTable (mgr w))"
      "abstractWorld w' = (t, leaseTable (perform t e (mgr w)))"
      by (simp_all add: abstractWorld_def happens(1))
    from leaseTable_perform [of t e "mgr w"] show ?thesis
    proof (elim disjE exE conjE)
      fix ip pid x p
      assume tab: "leaseTable (perform t e (mgr w)) = (leaseTable (mgr w))(ip \<mapsto> (pid, x))"
        and "checkedBy ip pid (mgr w) = Some p"
      then have "\<not> held t (leases (mgr w)) c pid" for c using checkedBy_not_held [OF minv] by blast
      then show ?thesis unfolding abs tab using happens(2) held by (intro grant) auto
    next
      fix ip pid x f req c r
      assume tab: "leaseTable (perform t e (mgr w)) = (leaseTable (mgr w))(ip \<mapsto> (pid, x))"
        and "e = EvDynamic f ip req c r" "pid = pID c"
      with happens(3) have "fresh_proxy (mgr w) c" by simp
      from fresh_proxyD(2) [OF this] have "leaseTable (mgr w) ip' \<noteq> Some (pid, e')" for ip' e'
        by (auto simp: leaseTable_def \<open>pid = pID c\<close>)
      then show ?thesis unfolding abs tab using happens(2) by (intro grant) auto
    qed (use happens(2) abs keep revoke in metis)+
  qed
qed

interpretation implements: step_refinement world_start mgr_step world_inv table_step abstractWorld
  by unfold_locales (rule section_refines)

text \<open>
  C2. The manager implements an exclusive lease table. Seen through the abstraction that keeps only
  who holds which proxy until when, every section of the manager, in any state reachable under any
  interleaving, is a step of the abstract table: it keeps it, revokes one lease, or grants a client a
  proxy that no other client holds in force at that instant. So every run of the manager is a run of
  the table.
\<close>

theorem manager_refines_lease_table:
  assumes "world_start w0" and "mgr_step\<^sup>*\<^sup>* w0 w" and "mgr_step w w'"
  shows "table_step (abstractWorld w) (abstractWorld w') \<and> table_step\<^sup>*\<^sup>* (abstractWorld w0) (abstractWorld w)"
  using implements.reachable_refines [OF assms] implements.run_refines [OF assms(2) world_start_inv [OF assms(1)]]
  by simp

theorem manager_refines_lease_table_witness:
  "table_step (abstractWorld exampleWorld) (abstractWorld (the (runEvents [(2, EvProcessQueue)] exampleWorld)))"
proof -
  have "runEvents [(2, EvProcessQueue)] exampleWorld
      = Some \<lparr>clock = 2, mgr = perform 2 EvProcessQueue (mgr exampleWorld), owner = owner exampleWorld\<rparr>"
    by (simp add: exampleWorld_def)
  moreover have "mgr_step exampleWorld \<lparr>clock = 2, mgr = perform 2 EvProcessQueue (mgr exampleWorld),
      owner = track 2 EvProcessQueue (mgr exampleWorld) (owner exampleWorld)\<rparr>"
    by (rule happens) (simp_all add: exampleWorld_def)
  ultimately show ?thesis
    using manager_refines_lease_table [OF exampleWorld_start rtranclp.rtrancl_refl] by simp
qed

lemma reachable_mgr_inv:
  assumes "world_start w0" and "mgr_step\<^sup>*\<^sup>* w0 w" and "clock w \<le> t"
  shows "mgr_inv (connsOn (owner w)) t (mgr w)"
  using manager.inv_reachable [OF assms(1,2)] assms(3) by (auto simp: world_inv_def intro: mgr_inv_later)

text \<open>
  C1. Exits are exclusive. In every reachable state and at every later instant, two leases in force on
  one proxy belong to the same client, a proxy with a lease in force is not being checked for anybody,
  and the proxy that a reservation would pick is an enabled pool proxy that no client holds.
\<close>

theorem leases_are_exclusive:
  assumes "world_start w0" and "mgr_step\<^sup>*\<^sup>* w0 w" and "clock w \<le> t"
  shows "(\<forall>ip ip' l l'. get (leases (mgr w)) ip = Some l \<longrightarrow> get (leases (mgr w)) ip' = Some l' \<longrightarrow>
        t < lvExpiresAt l \<longrightarrow> t < lvExpiresAt l' \<longrightarrow> lvProxyID l = lvProxyID l' \<longrightarrow> ip = ip')
    \<and> (\<forall>ip l p. get (leases (mgr w)) ip = Some l \<longrightarrow> t < lvExpiresAt l \<longrightarrow>
        get (proxies (mgr w)) (lvProxyID l) = Some p \<longrightarrow> pStatus p \<noteq> ProxyChecking)
    \<and> (\<forall>pid. takeIdleProxy t (mgr w) = Some pid \<longrightarrow>
        (\<exists>p. get (proxies (mgr w)) pid = Some p \<and> \<not> pDisabled p \<and> pSource p = ProxySourcePool) \<and>
        (\<forall>ip l. get (leases (mgr w)) ip = Some l \<longrightarrow> t < lvExpiresAt l \<longrightarrow> lvProxyID l \<noteq> pid))"
proof -
  note inv = reachable_mgr_inv [OF assms]
  have held: "held t (leases (mgr w)) ip (lvProxyID l)"
    if "get (leases (mgr w)) ip = Some l" "t < lvExpiresAt l" for ip l
    using that mgr_inv_lease [OF inv] by (auto simp: held_def holdsLease_def)
  have excl: "exclusive t (leases (mgr w)) (proxies (mgr w))" by (rule mgr_invD(7) [OF inv])
  have "ip = ip'" if "get (leases (mgr w)) ip = Some l" "get (leases (mgr w)) ip' = Some l'" "t < lvExpiresAt l"
    "t < lvExpiresAt l'" "lvProxyID l = lvProxyID l'" for ip ip' l l'
    using held [OF that(1,3)] held [OF that(2,4)] that(5) excl by (auto simp: exclusive_def)
  moreover have "pStatus p \<noteq> ProxyChecking" if "get (leases (mgr w)) ip = Some l" "t < lvExpiresAt l"
    "get (proxies (mgr w)) (lvProxyID l) = Some p" for ip l p
    using held [OF that(1,2)] that(3) excl by (auto simp: exclusive_def)
  moreover have "(\<exists>p. get (proxies (mgr w)) pid = Some p \<and> \<not> pDisabled p \<and> pSource p = ProxySourcePool) \<and>
      (\<forall>ip l. get (leases (mgr w)) ip = Some l \<longrightarrow> t < lvExpiresAt l \<longrightarrow> lvProxyID l \<noteq> pid)"
    if take: "takeIdleProxy t (mgr w) = Some pid" for pid
  proof -
    from take inv obtain p where "get (proxies (mgr w)) pid = Some p" "\<not> pDisabled p" "pSource p = ProxySourcePool"
      and "\<not> proxyHasActiveLease t pid (mgr w)" by (rule takeIdleProxyE)
    then show ?thesis using held proxyHasActiveLease_iff [OF inv, of t pid] by blast
  qed
  ultimately show ?thesis by blast
qed

theorem leases_are_exclusive_witness:
  "takeIdleProxy 5 (mgr exampleLeased) = Some ''p2''
   \<and> (\<exists>p. get (proxies (mgr exampleLeased)) ''p2'' = Some p \<and> \<not> pDisabled p \<and> pSource p = ProxySourcePool)
   \<and> get (leases (mgr exampleLeased)) ''192.168.1.5'' \<noteq> None"
proof -
  have facts: "clock exampleLeased \<le> 5" "takeIdleProxy 5 (mgr exampleLeased) = Some ''p2''" by code_simp+
  have "\<not> Option.is_none (get (leases (mgr exampleLeased)) ''192.168.1.5'')" by code_simp
  with leases_are_exclusive [OF exampleWorld_start exampleLeased_reachable facts(1)] facts(2) show ?thesis
    by (auto simp: Option.is_none_def)
qed

text \<open>
  C13. The connection counters are sound. In every reachable state the counter of a proxy is not
  negative and never exceeds the number of connections that are registered with it, so a proxy
  without open connections counts none and cannot be kept draining by a stale count.
\<close>

theorem connection_counts_bounded:
  assumes "world_start w0" and "mgr_step\<^sup>*\<^sup>* w0 w" and "get (proxies (mgr w)) pid = Some p"
  shows "0 \<le> pActiveConns p
    \<and> pActiveConns p \<le> int (card {(ip, c). c \<in> set (registered (mgr w) ip) \<and> owner w (ip, c) = Some pid})"
proof -
  have inv: "world_inv w" by (rule manager.inv_reachable [OF assms(1,2)])
  then have "{(ip, c). c \<in> set (registered (mgr w) ip) \<and> owner w (ip, c) = Some pid} = {k. owner w k = Some pid}"
    by (auto simp: world_inv_def)
  then show ?thesis
    using mgr_inv_proxy [OF reachable_mgr_inv [OF assms(1,2) order_refl] assms(3)] by (simp add: connsOn_def)
qed

theorem connection_counts_bounded_witness:
  "\<exists>p. get (proxies (mgr exampleLeased)) ''p1'' = Some p \<and> pActiveConns p = 1
     \<and> 1 \<le> card {(ip, c). c \<in> set (registered (mgr exampleLeased) ip) \<and> owner exampleLeased (ip, c) = Some ''p1''}"
proof -
  have "map_option pActiveConns (get (proxies (mgr exampleLeased)) ''p1'') = Some 1" by code_simp
  then obtain p where p: "get (proxies (mgr exampleLeased)) ''p1'' = Some p" "pActiveConns p = 1" by auto
  with connection_counts_bounded [OF exampleWorld_start exampleLeased_reachable p(1)] show ?thesis by auto
qed

text \<open>
  C5. A client reaches only its own exit. When a reachable manager hands a connection a proxy, the
  client has an unexpired active lease on exactly that proxy, the proxy is bound to the client, no
  other client's lease on it is in force, the caller gets the stored address and credentials, and the
  state changes only by registering the connection and counting it.
\<close>

theorem acquire_gives_own_exit:
  assumes "world_start w0" and "mgr_step\<^sup>*\<^sup>* w0 w" and "clock w \<le> t"
    and "AcquireProxyConn t ip (Some c) (mgr w) = (Inr p, m')"
  shows "\<exists>l q. get (leases (mgr w)) ip = Some l \<and> lvStatus l = LeaseActive \<and> t \<le> lvExpiresAt l
    \<and> get (proxies (mgr w)) (lvProxyID l) = Some q \<and> pStatus q = ProxyActive \<and> pClientIP q = ip
    \<and> p = q\<lparr>pActiveConns := pActiveConns q + 1\<rparr> \<and> c \<notin> set (registered (mgr w) ip)
    \<and> m' = acquired ip (lvProxyID l) c q (mgr w)
    \<and> (t < lvExpiresAt l \<longrightarrow> (\<forall>ip' l'. get (leases (mgr w)) ip' = Some l' \<longrightarrow> lvProxyID l' = lvProxyID l \<longrightarrow>
          t < lvExpiresAt l' \<longrightarrow> ip' = ip))"
  using assms(4)
proof (cases rule: AcquireProxyConn_cases)
  case (acquired c' l q)
  have "ip' = ip" if "t < lvExpiresAt l" "get (leases (mgr w)) ip' = Some l'" "lvProxyID l' = lvProxyID l"
    "t < lvExpiresAt l'" for ip' l'
  proof -
    note inv = reachable_mgr_inv [OF assms(1-3)]
    have "held t (leases (mgr w)) ip' (lvProxyID l)" "held t (leases (mgr w)) ip (lvProxyID l)"
      using that acquired(2) mgr_inv_lease [OF inv that(2)] by (auto simp: held_def holdsLease_def usable_def)
    then show ?thesis using mgr_invD(7) [OF inv] by (auto simp: exclusive_def)
  qed
  with acquired show ?thesis by (intro exI [of _ l] exI [of _ q]) (auto simp: usable_def)
qed simp

theorem acquire_gives_own_exit_witness:
  "\<exists>l q. get (leases (mgr exampleLeased)) ''192.168.1.5'' = Some l \<and> lvProxyID l = ''p1'' \<and> 6 \<le> lvExpiresAt l
     \<and> get (proxies (mgr exampleLeased)) ''p1'' = Some q \<and> pClientIP q = ''192.168.1.5''"
proof -
  let ?run = "AcquireProxyConn 6 ''192.168.1.5'' (Some 2) (mgr exampleLeased)"
  have ok: "\<not> isl (fst ?run)" "clock exampleLeased \<le> 6" by code_simp+
  then have run: "?run = (Inr (projr (fst ?run)), snd ?run)" by (cases ?run) (auto simp: isl_def sum.case_eq_if)
  have "map_option lvProxyID (get (leases (mgr exampleLeased)) ''192.168.1.5'') = Some ''p1''" by code_simp
  moreover obtain l q where "get (leases (mgr exampleLeased)) ''192.168.1.5'' = Some l" "6 \<le> lvExpiresAt l"
    "get (proxies (mgr exampleLeased)) (lvProxyID l) = Some q" "pClientIP q = ''192.168.1.5''"
    using acquire_gives_own_exit [OF exampleWorld_start exampleLeased_reachable ok(2) run] by blast
  ultimately show ?thesis by (intro exI [of _ l] exI [of _ q]) simp
qed

text \<open>
  C25. The wait queue is never abandoned. In every reachable state the retry flag is set exactly while
  a timer of the current epoch is armed, and that timer's callback clears it while every older timer
  does nothing. So whenever \<open>processQueueAsync\<close> runs on a manager that is not stopped, with a client
  waiting and a proxy idle, a worker is active afterwards or a live timer is armed.
\<close>

theorem queue_is_never_abandoned:
  assumes "world_start w0" and "mgr_step\<^sup>*\<^sup>* w0 w"
  shows "(queueRetry (mgr w) \<longleftrightarrow> queueTimer (mgr w) = Some (queueEpoch (mgr w)))
    \<and> (queueRetry (mgr w) \<longrightarrow> \<not> queueRetry (snd (timerFired t (queueEpoch (mgr w)) (mgr w))))
    \<and> (epoch \<noteq> queueEpoch (mgr w) \<longrightarrow> timerFired t epoch (mgr w) = (False, mgr w))
    \<and> (\<not> queueStopped (mgr w) \<longrightarrow> hasQueued (mgr w) \<longrightarrow> hasIdleProxy t (mgr w) \<longrightarrow>
        (let m' = snd (processQueueAsync t (mgr w)) in
           queueActive m' \<or> queueRetry m' \<and> queueTimer m' = Some (queueEpoch m')))"
  using mgr_invD(6) [OF reachable_mgr_inv [OF assms order_refl]]
  by (auto simp: timer_ok_def timerFired_def processQueueAsync_def scheduleQueueRetry_def Let_def)

theorem queue_is_never_abandoned_witness:
  "let w = the (runEvents [(2, EvDeferQueue 5), (3, EvBackoff ''192.168.1.9'' False), (3, EvProcessQueue)] exampleWorld)
   in queueRetry (mgr w) \<and> queueTimer (mgr w) = Some 1 \<and> queueTimer (mgr w) = Some (queueEpoch (mgr w))"
proof -
  let ?es = "[(2, EvDeferQueue 5), (3, EvBackoff ''192.168.1.9'' False), (3, EvProcessQueue)]"
  let ?w = "the (runEvents ?es exampleWorld)"
  have "runEvents ?es exampleWorld \<noteq> None" by code_simp
  from option.collapse [OF this, symmetric] have "mgr_step\<^sup>*\<^sup>* exampleWorld ?w"
    by (rule runEvents_reachable)
  moreover have "queueRetry (mgr ?w)" "queueTimer (mgr ?w) = Some 1" by code_simp+
  ultimately show ?thesis using queue_is_never_abandoned [OF exampleWorld_start] by (simp add: Let_def)
qed

end
