(* ===== verification/LeaseEngine.thy ===== *)
theory LeaseEngine
  imports ManagerMachine
begin

text \<open>
  internal/manager/manager.go, the loops that run the sections: \<open>ensureLease\<close> with the resolution of
  ambiguous probes, and the queue worker \<open>processQueues\<close>. The loops may run for ever when other
  goroutines keep freeing proxies, so they are partial functions whose value is \<open>None\<close> then.
\<close>

section \<open>The environment of a run\<close>

text \<open>
  The n-th section of a run reads the clock as \<open>leClock n\<close>, meets the database faults \<open>leFaults n\<close>, sees
  the context ended when \<open>leStopped n\<close>, and starts from what the other goroutines made of the state,
  \<open>leOthers n\<close>. A probe returns its result and the state it leaves the manager in, for it acts on the
  circuit and others run meanwhile. \<open>leGate\<close> tells whether the assignment gate was entered before the
  context ended.
\<close>

record leaseEnv =
  leClock :: "nat \<Rightarrow> time"
  leFaults :: "nat \<Rightarrow> dbfaults"
  leStopped :: "nat \<Rightarrow> bool"
  leOthers :: "nat \<Rightarrow> Manager \<Rightarrow> Manager"
  leProbe :: "nat \<Rightarrow> Proxy \<Rightarrow> Manager \<Rightarrow> probeResult \<times> Manager"
  leGate :: bool

definition ambiguousQueueRetryDelay :: duration where
  "ambiguousQueueRetryDelay = 5 * Second"

section \<open>Resolving ambiguous probes\<close>

definition activeCrossValidationProxy :: "ambiguousProbe list \<Rightarrow> Manager \<Rightarrow> Proxy option" where
  "activeCrossValidationProxy probes m =
     Option.bind
       (List.find (\<lambda>pid. case get (proxies m) pid of
            None \<Rightarrow> False
          | Some p \<Rightarrow> \<not> (pid \<in> apProxyID ` set probes \<or> pDisabled p
                          \<or> list_ex (\<lambda>a. sameEndpoint (apAddress a) (pAddress p)) probes)
                      \<and> (pStatus p = ProxyActive \<or> pStatus p = ProxyDraining)) (proxyOrder m))
       (get (proxies m))"

definition applyRecentCrossEvidence ::
    "dbfaults \<Rightarrow> time \<Rightarrow> string \<Rightarrow> ambiguousProbe list \<Rightarrow> Manager \<Rightarrow> ambiguousProbe list \<times> bool \<times> Manager" where
  "applyRecentCrossEvidence f now ip probes m =
     (case RecentFrontEvidence (Some (connector m)) of
        None \<Rightarrow> (probes, False, m)
      | Some ev \<Rightarrow>
          (case partitionAmbiguousProbesByEvidence probes ev of
             (unresolved, validated) \<Rightarrow>
               if validated = [] then (probes, False, m)
               else (unresolved, True, markAmbiguousProbesFailed f 0 now ip validated m)))"

abbreviation wakeQueue :: "time \<Rightarrow> Manager \<Rightarrow> Manager" where
  "wakeQueue now m \<equiv> snd (processQueueAsync now m)"

text \<open>The state after evidence has settled some or all of the probes; \<open>None\<close> when it settled none.\<close>

definition settledByEvidence ::
    "leaseEnv \<Rightarrow> nat \<Rightarrow> string \<Rightarrow> ambiguousProbe list \<Rightarrow> Manager \<Rightarrow> Manager option" where
  "settledByEvidence env n ip probes m =
     (let now = leClock env n in
      case applyRecentCrossEvidence (leFaults env n) now ip probes m of
        (probes, resolved, m) \<Rightarrow>
          if probes = [] then Some (wakeQueue now m)
          else if resolved then
            Some (wakeQueue now (restoreAmbiguousProbes ip probes (deferQueueRetry now ambiguousQueueRetryDelay m)))
          else None)"

text \<open>
  The cross-validation over a proxy in use: \<open>Inl\<close> ends the resolution in a state, \<open>Inr\<close> goes on with the
  probes, one more among them when the candidate failed ambiguously as well.
\<close>

definition crossValidate ::
    "leaseEnv \<Rightarrow> nat \<Rightarrow> string \<Rightarrow> ambiguousProbe list \<Rightarrow> pendingSnapshot \<Rightarrow> Manager
      \<Rightarrow> Manager + ambiguousProbe list \<times> Manager" where
  "crossValidate env n ip probes snap m =
     (case activeCrossValidationProxy probes m of
        None \<Rightarrow> Inr (probes, m)
      | Some candidate \<Rightarrow>
          (case leProbe env n candidate m of
             (r, m) \<Rightarrow>
               let now = leClock env n; err = resultErr r;
                   ev = frontEvidenceForProbeResult (connector m) (pAddress candidate) err in
               if leStopped env n
               then Inl (restorePendingSnapshot ip snap (restoreAmbiguousProbes ip probes m))
               else if FailureScopeOf err = FailureScopeShared
               then Inl (wakeQueue now (restoreAmbiguousProbes ip probes m))
               else if FailureScopeOf err = FailureScopeAmbiguous
               then (case AmbiguousFailureToken err of
                       Some token \<Rightarrow> Inr (probes @ [\<lparr>apProxyID = pID candidate, apAddress = pAddress candidate,
                                                      apToken = token, apErr = projl r\<rparr>], m)
                     | None \<Rightarrow> Inr (probes, m))
               else (case ev of
                 None \<Rightarrow> Inr (probes, m)
               | Some ev \<Rightarrow>
                   (case partitionAmbiguousProbesByEvidence probes ev of
                      (unresolved, validated) \<Rightarrow>
                        if validated = [] then Inr (probes, m)
                        else
                          let m = markAmbiguousProbesFailed (leFaults env n) 0 now ip validated m;
                              m = (if unresolved \<noteq> [] then deferQueueRetry now ambiguousQueueRetryDelay m else m)
                          in Inl (wakeQueue now (restoreAmbiguousProbes ip unresolved m))))))"

text \<open>The verdict on the front, when nothing settled the probes.\<close>

definition reportBatch :: "leaseEnv \<Rightarrow> nat \<Rightarrow> string \<Rightarrow> ambiguousProbe list \<Rightarrow> Manager \<Rightarrow> Manager" where
  "reportBatch env n ip probes m =
     (let now = leClock env n;
          (opened, m) =
            (if distinctAmbiguousEndpoints probes \<ge> 2 then
               (case ambiguousTokenRange probes of
                  Some (first, final) \<Rightarrow>
                    (case RecordAmbiguousBatchFailure now first final (connector m) of
                       (opened, c) \<Rightarrow> (opened, m\<lparr>connector := c\<rparr>))
                | None \<Rightarrow> (False, m))
             else (False, m));
          m = leOthers env n m;
          m = (if \<not> opened then deferQueueRetry now ambiguousQueueRetryDelay m else m)
      in wakeQueue now (restoreAmbiguousProbes ip probes m))"

definition resolveAmbiguousLeaseBatch ::
    "leaseEnv \<Rightarrow> nat \<Rightarrow> string \<Rightarrow> ambiguousProbe list \<Rightarrow> pendingSnapshot \<Rightarrow> Manager \<Rightarrow> Manager" where
  "resolveAmbiguousLeaseBatch env n ip probes snap m =
     (let m = leOthers env n m in
      if leStopped env n then restorePendingSnapshot ip snap (restoreAmbiguousProbes ip probes m)
      else case settledByEvidence env n ip probes m of
        Some m \<Rightarrow> m
      | None \<Rightarrow>
          (case crossValidate env (n + 1) ip probes snap (leOthers env (n + 1) m) of
             Inl m \<Rightarrow> m
           | Inr (probes, m) \<Rightarrow>
               let m = leOthers env (n + 2) m in
               (case settledByEvidence env (n + 2) ip probes m of
                  Some m \<Rightarrow> m
                | None \<Rightarrow> reportBatch env (n + 3) ip probes m)))"

section \<open>Leasing\<close>

partial_function (option) leaseLoop ::
    "leaseEnv \<Rightarrow> nat \<Rightarrow> string \<Rightarrow> bool \<Rightarrow> pendingSnapshot \<Rightarrow> ambiguousProbe list \<Rightarrow> Manager
      \<Rightarrow> (Assignment \<times> Manager) option" where
  "leaseLoop env n ip refresh snap ambiguous m =
     (case reserveProxyForLease (leFaults env n) (leFaults env (n + 1)) (leClock env n) ip refresh
             (leOthers env n m) of
        (Inl pending, m) \<Rightarrow>
          Some (pending, if ambiguous \<noteq> [] then resolveAmbiguousLeaseBatch env (n + 1) ip ambiguous snap m else m)
      | (Inr proxy, m) \<Rightarrow>
          (case leProbe env n proxy m of
             (r, m) \<Rightarrow>
               (case afterProbe (leFaults env (n + 2)) (leClock env (n + 1)) (leStopped env (n + 1))
                       (frontEvidenceForProbeResult (connector m) (pAddress proxy) (resultErr r))
                       ip refresh (pID proxy) r ambiguous (leOthers env (n + 1) m) of
                  (Again ambiguous, m) \<Rightarrow> leaseLoop env (n + 2) ip refresh snap ambiguous m
                | (Answer wake a, m) \<Rightarrow> Some (a, if wake then wakeQueue (leClock env (n + 1)) m else m)
                | (ResolveBatch ambiguous a, m) \<Rightarrow>
                    Some (a, resolveAmbiguousLeaseBatch env (n + 2) ip ambiguous snap m))))"

definition ensureLease :: "leaseEnv \<Rightarrow> string \<Rightarrow> bool \<Rightarrow> Manager \<Rightarrow> (Assignment \<times> Manager) option" where
  "ensureLease env ip refresh m =
     (let now = leClock env 0; m = leOthers env 0 m in
      if leStopped env 0 \<or> FrontEnabled (Some (connector m)) \<and> (\<not> leGate env \<or> leStopped env 1)
      then Some (assignmentCanceled now ip m, m)
      else
        (case frontBackoffAssignment now ip refresh m of
           (Some a, m) \<Rightarrow> Some (a, if asStatus a = LeasePending then wakeQueue now m else m)
         | (None, m) \<Rightarrow> leaseLoop env 1 ip refresh (takeSnapshot ip m) [] m))"

text \<open>\<open>AdminLeaseContext\<close> and \<open>AdminRefreshContext\<close>, and the entries without checks.\<close>

definition adminEnsure :: "leaseEnv \<Rightarrow> string \<Rightarrow> bool \<Rightarrow> Manager \<Rightarrow> ((goError + Assignment) \<times> Manager) option" where
  "adminEnsure env ip refresh m =
     (if Option.bind (ParseIP ip) To4 = None
      then Some (Inl (ErrString ''valid IPv4 client_ip is required''), m)
      else map_option (\<lambda>(a, m). (Inr a, m)) (ensureLease env ip refresh m))"

definition LeaseContext :: "leaseEnv \<Rightarrow> string \<Rightarrow> Manager \<Rightarrow> (Assignment \<times> Manager) option" where
  "LeaseContext env ip m = ensureLease env ip False m"

definition RefreshContext :: "leaseEnv \<Rightarrow> string \<Rightarrow> Manager \<Rightarrow> (Assignment \<times> Manager) option" where
  "RefreshContext env ip m = ensureLease env ip True m"

text \<open>The queue worker: the i-th client it serves meets the environment \<open>envs i\<close>.\<close>

partial_function (option) processQueues ::
    "(nat \<Rightarrow> leaseEnv) \<Rightarrow> nat \<Rightarrow> Manager \<Rightarrow> Manager option" where
  "processQueues envs i m =
     (case nextQueuedClient (leClock (envs i) 0) m of
        (None, m) \<Rightarrow> Some m
      | (Some (ip, refresh), m) \<Rightarrow>
          (case ensureLease (envs i) ip refresh m of
             None \<Rightarrow> None
           | Some (a, m) \<Rightarrow> if asStatus a \<noteq> LeaseActive then Some m else processQueues envs (i + 1) m))"

section \<open>Termination\<close>

text \<open>The proxies that a reservation can still take, and whether the client has a lease to lose.\<close>

definition idleSet :: "Manager \<Rightarrow> string set" where
  "idleSet m = {pid. \<exists>p. get (proxies m) pid = Some p \<and> pStatus p = ProxyIdle}"

definition leaseFlag :: "string \<Rightarrow> Manager \<Rightarrow> nat" where
  "leaseFlag ip m = (if get (leases m) ip = None then 0 else 1)"

lemma finite_idleSet: "finite (idleSet m)"
proof -
  have "idleSet m \<subseteq> dom (get (proxies m))" by (auto simp: idleSet_def)
  then show ?thesis by (rule finite_subset) (rule finite_dom_map_of)
qed

text \<open>A change is calm for a client when it frees no proxy and gives the client no lease.\<close>

definition calm :: "string \<Rightarrow> Manager \<Rightarrow> Manager \<Rightarrow> bool" where
  "calm ip m m' \<longleftrightarrow> idleSet m' \<subseteq> idleSet m \<and> leaseFlag ip m' \<le> leaseFlag ip m"

lemma calm_refl [simp]: "calm ip m m"
  by (simp add: calm_def)

lemma calm_trans: "calm ip m m' \<Longrightarrow> calm ip m' m'' \<Longrightarrow> calm ip m m''"
  by (auto simp: calm_def)

lemma calm_modify: "(\<And>p. pStatus (g p) \<noteq> ProxyIdle) \<Longrightarrow> calm ip m (modifyProxy pid g m)"
  by (auto simp: calm_def idleSet_def leaseFlag_def get_modifyProxy split: if_splits)

lemma calm_markProbeFailed: "calm ip m (markProbeFailed f t pid err m)"
proof -
  have "calm ip m (modifyProxy pid (\<lambda>p. p\<lparr>pFailureCount := pFailureCount p + 1, pSuccessCount := 0,
      pLastHealthDetail := errorText err, pStatus := ProxyUnhealthy, pClientIP := [], pDrainingFor := []\<rparr>) m)"
    by (rule calm_modify) simp
  then show ?thesis by (simp add: markProbeFailed_def calm_def idleSet_def leaseFlag_def)
qed

lemma calm_failProbe: "calm ip m (failProbe f t c probe m)"
  by (auto simp: failProbe_def disableChecked_def calm_markProbeFailed intro: calm_modify split: option.split)

lemma calm_markAmbiguousProbesFailed: "calm ip m (markAmbiguousProbesFailed f n t c ps m)"
  by (induction f n t c ps m rule: markAmbiguousProbesFailed.induct) (auto intro: calm_trans calm_failProbe)

lemma calm_absorbEvidence: "calm ip m (snd (absorbEvidence f t c ps ev m))"
  by (simp add: absorbEvidence_def calm_markAmbiguousProbesFailed split: option.split prod.split)

lemma calm_afterProbe_again:
  assumes "afterProbe f t stopped ev ip r pid res ps m = (Again qs, m')"
  shows "calm c m m'"
proof -
  have "calm c m (markProbeFailed g t pid e (snd (absorbEvidence f t ip ps ev m)))" for g e
    by (rule calm_trans [OF calm_absorbEvidence calm_markProbeFailed])
  moreover have "calm c m (modifyProxy pid disableChecked m)" by (rule calm_modify) (simp add: disableChecked_def)
  ultimately show ?thesis
    using assms by (auto simp: afterProbe_def Let_def split_beta split: option.splits if_splits sum.splits)
qed

text \<open>Reserving a proxy uses up an idle proxy or the client's expired lease.\<close>

definition engine_order :: "string \<Rightarrow> (Manager \<times> Manager) set" where
  "engine_order ip = measures [leaseFlag ip, \<lambda>m. card (idleSet m)]"

lemma engine_order_calm:
  assumes "(m', m) \<in> engine_order ip" and "calm ip m' m''"
  shows "(m'', m) \<in> engine_order ip"
proof -
  have "card (idleSet m'') \<le> card (idleSet m')"
    using assms(2) finite_idleSet by (auto simp: calm_def intro: card_mono)
  with assms show ?thesis by (auto simp: engine_order_def calm_def)
qed

lemma calm_engine_order:
  assumes "calm ip m m'" and "(m'', m') \<in> engine_order ip"
  shows "(m'', m) \<in> engine_order ip"
proof -
  have "card (idleSet m') \<le> card (idleSet m)"
    using assms(1) finite_idleSet by (auto simp: calm_def intro: card_mono)
  with assms show ?thesis by (auto simp: engine_order_def calm_def)
qed

lemma reserveIdle_order:
  assumes "reserveIdle f t ip r m = (Inr q, m')"
  shows "leaseFlag ip m' = leaseFlag ip m \<and> card (idleSet m') < card (idleSet m)"
proof -
  from assms obtain pid where pid: "takeIdleProxy t m = Some pid"
    and m': "m' = m\<lparr>proxies := put pid (checkFor ip (the (get (proxies m) pid))) (proxies m)\<rparr>"
    by (auto simp: reserveIdle_def Let_def split: option.splits prod.splits)
  from takeIdleProxy_Some [OF pid] have "pid \<in> idleSet m"
    by (auto simp: idleCandidate_def idleSet_def split: option.splits)
  moreover have "idleSet m' = idleSet m - {pid}" by (auto simp: idleSet_def m' checkFor_def)
  ultimately show ?thesis using finite_idleSet [of m] by (simp add: card_Diff1_less leaseFlag_def m' del: card_Diff_insert)
qed

lemma reserveProxyForLease_order:
  assumes "reserveProxyForLease f g t ip r m = (Inr q, m')"
  shows "(m', m) \<in> engine_order ip"
proof -
  let ?m = "releaseIfExpired f t ip m"
  have res: "reserveIdle g t ip r ?m = (Inr q, m')"
    using assms by (auto simp: reserveProxyForLease_def Let_def split: option.splits if_splits)
  have "?m = m \<or> leaseFlag ip ?m < leaseFlag ip m"
  proof (cases "?m = m")
    case False
    then obtain l where "get (leases m) ip = Some l" "?m = releaseLocked f t ip True m"
      by (auto simp: releaseIfExpired_def split: option.splits if_splits)
    moreover have "leaseTable ?m ip = None" using calculation by (simp add: leaseTable_releaseLocked)
    ultimately show ?thesis by (auto simp: leaseFlag_def leaseTable_def)
  qed simp
  with reserveIdle_order [OF res] show ?thesis by (auto simp: engine_order_def)
qed

definition calm_env :: "string \<Rightarrow> leaseEnv \<Rightarrow> bool" where
  "calm_env ip env \<longleftrightarrow> (\<forall>n m. calm ip m (leOthers env n m)) \<and> (\<forall>n p m. calm ip m (snd (leProbe env n p m)))"

lemma leaseLoop_returns:
  assumes "calm_env ip env"
  shows "\<exists>r. leaseLoop env n ip refresh snap ambiguous m = Some r"
proof -
  have "wf (engine_order ip)" by (simp add: engine_order_def)
  then show ?thesis
  proof (induction m arbitrary: n ambiguous rule: wf_induct_rule)
    case (less m)
    obtain x m1 where res: "reserveProxyForLease (leFaults env n) (leFaults env (n + 1)) (leClock env n) ip refresh
        (leOthers env n m) = (x, m1)" by fastforce
    show ?case
    proof (cases x)
      case (Inl a)
      then show ?thesis using res by (subst leaseLoop.simps) simp
    next
      case (Inr q)
      obtain r m2 where probe: "leProbe env n q m1 = (r, m2)" by fastforce
      obtain st m3 where after: "afterProbe (leFaults env (n + 2)) (leClock env (n + 1)) (leStopped env (n + 1))
          (frontEvidenceForProbeResult (connector m2) (pAddress q) (resultErr r)) ip refresh (pID q) r ambiguous
          (leOthers env (n + 1) m2) = (st, m3)" by fastforce
      show ?thesis
      proof (cases st)
        case (Again qs)
        have "(m1, leOthers env n m) \<in> engine_order ip" using reserveProxyForLease_order res Inr by blast
        moreover have "calm ip m (leOthers env n m)" "calm ip m1 m2" "calm ip m2 (leOthers env (n + 1) m2)"
          using assms probe unfolding calm_env_def by (auto dest: spec [of _ n]) (metis snd_conv)
        moreover have "calm ip (leOthers env (n + 1) m2) m3" using calm_afterProbe_again after Again by blast
        ultimately have "(m3, m) \<in> engine_order ip"
          by (meson calm_engine_order calm_trans engine_order_calm)
        from less.IH [OF this, of "n + 2" qs] show ?thesis
          using res Inr probe after Again by (subst leaseLoop.simps) simp
      qed (use res Inr probe after in \<open>subst leaseLoop.simps, simp\<close>)+
    qed
  qed
qed

lemma ensureLease_returns:
  assumes "calm_env ip env"
  shows "\<not> Option.is_none (ensureLease env ip refresh m)"
  using leaseLoop_returns [OF assms]
  by (auto simp: ensureLease_def Let_def Option.is_none_def split: option.split prod.split)

text \<open>
  C10. Asking for a lease returns. Whatever the probes report, the database does and the clock says, as
  long as no other goroutine frees a proxy or leases one to the same client during the call, the loop
  of \<open>ensureLease\<close> ends with an answer: every round uses up an idle proxy or an expired lease.
\<close>

theorem ensureLease_terminates:
  assumes "calm_env ip env"
  shows "\<exists>a m'. ensureLease env ip refresh m = Some (a, m')"
  using ensureLease_returns [OF assms, of refresh m] by (auto simp: Option.is_none_def)

text \<open>An environment in which nobody interferes and every proxy answers.\<close>

definition exampleEnv :: leaseEnv where
  "exampleEnv = \<lparr>leClock = \<lambda>n. 100 + int n, leFaults = \<lambda>_ _ _. False, leStopped = \<lambda>_. False,
     leOthers = \<lambda>_ m. m, leProbe = \<lambda>_ _ m. (Inr ''203.0.113.9'', m), leGate = True\<rparr>"

lemma ensureLease_terminates_witness:
  "\<exists>a m'. ensureLease exampleEnv ''192.168.1.5'' False exampleManager = Some (a, m')"
  by (rule ensureLease_terminates) (simp add: calm_env_def exampleEnv_def)

section \<open>Answers are honest\<close>

text \<open>What an answer rests on: the table of leases and the two wait queues.\<close>

definition answerBase :: "Manager \<Rightarrow> LeaseView table \<times> string list \<times> string list" where
  "answerBase m = (leases m, pendingNew m, pendingRefs m)"

lemma answerBase_modifyProxy [simp]: "answerBase (modifyProxy pid g m) = answerBase m"
  by (simp add: answerBase_def modifyProxy_def split: option.split)

lemma answerBase_fields [simp]:
  "answerBase (m\<lparr>queueActive := b\<rparr>) = answerBase m" "answerBase (m\<lparr>connector := c\<rparr>) = answerBase m"
  "answerBase (addEvent f t ip pid e d m) = answerBase m" "answerBase (withDB h m) = answerBase m"
  "answerBase (deferQueueRetry t delay m) = answerBase m" "answerBase (cancelQueueRetry m) = answerBase m"
  by (simp_all add: answerBase_def addEvent_def withDB_def deferQueueRetry_def cancelQueueRetry_def)

lemma answerBase_scheduleQueueRetry [simp]: "answerBase (scheduleQueueRetry m) = answerBase m"
  by (simp add: scheduleQueueRetry_def Let_def answerBase_def cancelQueueRetry_def)

lemma answerBase_wakeQueue [simp]: "answerBase (wakeQueue t m) = answerBase m"
  by (simp add: processQueueAsync_def)

lemma answerBase_markProbeFailed [simp]: "answerBase (markProbeFailed f t pid e m) = answerBase m"
  by (simp add: markProbeFailed_def)

lemma answerBase_restoreAmbiguousProbes [simp]: "answerBase (restoreAmbiguousProbes ip ps m) = answerBase m"
  unfolding restoreAmbiguousProbes_def
  by (induction ps arbitrary: m) (simp_all add: restoreProbe_def split: option.split)

lemma answerBase_markAmbiguousProbesFailed [simp]: "answerBase (markAmbiguousProbesFailed f n t ip ps m) = answerBase m"
  by (induction f n t ip ps m rule: markAmbiguousProbesFailed.induct) (simp_all add: failProbe_def split: option.split)

text \<open>In a quiet environment the probes and the other goroutines leave leases and queues alone.\<close>

definition quiet_env :: "leaseEnv \<Rightarrow> bool" where
  "quiet_env env \<longleftrightarrow> (\<forall>n m. answerBase (leOthers env n m) = answerBase m)
     \<and> (\<forall>n p m. answerBase (snd (leProbe env n p m)) = answerBase m)"

definition canceled :: "leaseEnv \<Rightarrow> bool" where
  "canceled env \<longleftrightarrow> \<not> leGate env \<or> (\<exists>n. leStopped env n)"

definition honest :: "bool \<Rightarrow> string \<Rightarrow> bool \<Rightarrow> Assignment \<Rightarrow> LeaseView table \<times> string list \<times> string list \<Rightarrow> bool" where
  "honest stopped ip refresh a basis \<longleftrightarrow>
     (case basis of (ls, new, refs) \<Rightarrow>
        asClientIP a = ip
        \<and> (case asStatus a of
             LeaseActive \<Rightarrow> (\<exists>l. get ls ip = Some l \<and> lvStatus l = LeaseActive
                               \<and> lvProxyID l = asProxyID a \<and> lvExpiresAt l = asExpiresAt a)
           | LeasePending \<Rightarrow> ip \<in> set new \<or> refresh \<and> ip \<in> set refs \<or> stopped
           | LeaseBlocked \<Rightarrow> False))"

lemma quiet_others: "quiet_env env \<Longrightarrow> answerBase (leOthers env n m) = answerBase m"
  by (simp add: quiet_env_def)

lemma quiet_probe: "quiet_env env \<Longrightarrow> leProbe env n p m = (r, m') \<Longrightarrow> answerBase m' = answerBase m"
  by (metis quiet_env_def snd_conv)

lemma honest_stopped: "asClientIP a = ip \<Longrightarrow> asStatus a = LeasePending \<Longrightarrow> honest True ip r a basis"
  by (simp add: honest_def split: prod.split)

lemma settledByEvidence_base:
  "settledByEvidence env n ip ps m = Some m' \<Longrightarrow> answerBase m' = answerBase m"
  by (auto simp: settledByEvidence_def applyRecentCrossEvidence_def Let_def split: option.splits prod.splits if_splits)

lemma crossValidate_base:
  assumes "quiet_env env" and "\<not> leStopped env n"
  shows "crossValidate env n ip ps s m = Inl m' \<Longrightarrow> answerBase m' = answerBase m"
    and "crossValidate env n ip ps s m = Inr (ps', m') \<Longrightarrow> answerBase m' = answerBase m"
  using assms quiet_probe [OF assms(1)]
  by (auto simp: crossValidate_def Let_def split: option.splits prod.splits sum.splits if_splits)

lemma reportBatch_base: "quiet_env env \<Longrightarrow> answerBase (reportBatch env n ip ps m) = answerBase m"
  by (simp add: reportBatch_def Let_def split_beta quiet_others split: option.split)

lemma resolve_base:
  assumes "quiet_env env" and "\<not> canceled env"
  shows "answerBase (resolveAmbiguousLeaseBatch env n ip ps s m) = answerBase m"
proof -
  have go: "\<not> leStopped env k" for k using assms(2) by (simp add: canceled_def)
  note cv = crossValidate_base [OF assms(1) go]
  show ?thesis
    by (auto simp: resolveAmbiguousLeaseBatch_def Let_def go quiet_others [OF assms(1)] reportBatch_base [OF assms(1)]
          dest!: settledByEvidence_base cv split: option.split sum.split prod.split)
qed

lemma honest_weaken: "honest b ip r a basis \<Longrightarrow> (b \<Longrightarrow> b') \<Longrightarrow> honest b' ip r a basis"
  by (auto simp: honest_def split: prod.splits leaseStatus.splits)

lemma enqueued:
  "ip \<in> set (pendingNew (enqueueNew t ip m))" "ip \<in> set (pendingRefs (enqueueRefresh t ip m))"
  by (simp_all add: enqueueNew_def enqueueRefresh_def stampQueued_def split: option.split)

lemma enqueuePendingLease_honest: "enqueuePendingLease f t ip r m = (a, m') \<Longrightarrow> honest False ip r a (answerBase m')"
  by (auto simp: enqueuePendingLease_def Let_def honest_def assignment_def pendingAnswer_def enqueued answerBase_def
        addEvent_def split: option.splits if_splits)

lemma reserve_honest:
  "reserveProxyForLease f g t ip r m = (Inl a, m') \<Longrightarrow> honest False ip r a (answerBase m')"
  by (auto simp: reserveProxyForLease_def reserveIdle_def Let_def intro: enqueuePendingLease_honest
        split: option.splits if_splits prod.splits)
     (auto simp: honest_def assignment_def answerBase_def)

lemma deferCheckedProxy_honest: "deferCheckedProxy t pid ip r m = (a, m') \<Longrightarrow> honest False ip r a (answerBase m')"
  by (auto simp: deferCheckedProxy_def Let_def honest_def assignment_def pendingAnswer_def enqueued answerBase_def
        split: option.splits if_splits)

lemma activateCheckedProxy_honest:
  "activateCheckedProxy f t pid ip r e m = (a, m') \<Longrightarrow> honest False ip r a (answerBase m')"
  by (auto simp: activateCheckedProxy_def Let_def honest_def assignment_def answerBase_def addEvent_def withDB_def)

lemma canceledProbeAssignment_honest: "canceledProbeAssignment pid ps ip r m = (a, m') \<Longrightarrow> honest True ip r a basis"
  by (auto simp: canceledProbeAssignment_def Let_def assignment_def pendingAnswer_def intro!: honest_stopped
        split: option.splits if_splits)

lemma afterProbe_honest:
  assumes "afterProbe f t stopped ev ip r pid res ps m = (st, m')"
  shows "case st of Again _ \<Rightarrow> True | Answer _ a \<Rightarrow> honest stopped ip r a (answerBase m')
         | ResolveBatch _ a \<Rightarrow> honest False ip r a (answerBase m')"
  using assms
  by (auto simp: afterProbe_def Let_def
        dest: canceledProbeAssignment_honest deferCheckedProxy_honest enqueuePendingLease_honest activateCheckedProxy_honest
        intro: honest_weaken split: option.splits if_splits prod.splits sum.splits)

lemma unexpiredLease_honest:
  assumes "unexpiredLease t ip m = Some l"
  shows "honest b ip r (assignment ip (lvProxyID l) LeaseActive (lvExpiresAt l)) (answerBase m)"
  using assms by (auto simp: unexpiredLease_def honest_def assignment_def answerBase_def split: option.splits if_splits)

lemma frontBackoffAssignment_honest:
  "frontBackoffAssignment t ip r m = (Some a, m') \<Longrightarrow> honest False ip r a (answerBase m')"
  by (auto simp: frontBackoffAssignment_def unexpiredLease_honest split: option.splits if_splits)
     (auto simp: honest_def assignment_def pendingAnswer_def answerBase_def enqueued)

lemma base_leases: "answerBase m' = answerBase m \<Longrightarrow> leases m' = leases m"
  by (simp add: answerBase_def)

lemmas queue_leases = answerBase_wakeQueue [THEN base_leases] answerBase_fields(5) [THEN base_leases]

lemma restored_leases: "leases (restorePendingSnapshot ip s (restoreAmbiguousProbes ip ps m)) = leases m"
  by (simp add: restorePendingSnapshot_def)

lemma crossValidate_leases:
  assumes "quiet_env env"
  shows "crossValidate env n ip ps s m = Inl m' \<Longrightarrow> leases m' = leases m"
    and "crossValidate env n ip ps s m = Inr (ps', m') \<Longrightarrow> leases m' = leases m"
proof -
  have probe: "leases (snd (leProbe env n p m)) = leases m" for n p m
    using assms by (simp add: quiet_env_def answerBase_def)
  show "crossValidate env n ip ps s m = Inl m' \<Longrightarrow> leases m' = leases m"
    "crossValidate env n ip ps s m = Inr (ps', m') \<Longrightarrow> leases m' = leases m"
    by (auto simp: crossValidate_def Let_def restored_leases queue_leases split_beta probe split: option.splits if_splits)
qed

lemma resolve_leases:
  assumes "quiet_env env"
  shows "leases (resolveAmbiguousLeaseBatch env n ip ps s m) = leases m"
proof -
  note others = base_leases [OF quiet_others [OF assms]]
  note report = base_leases [OF reportBatch_base [OF assms]]
  have settled: "leases m2 = leases m1" if "settledByEvidence env k ip qs m1 = Some m2" for k qs m1 m2
    using settledByEvidence_base [OF that] by (rule base_leases)
  let ?m = "leOthers env n m"
  let ?cv = "crossValidate env (n + 1) ip ps s (leOthers env (n + 1) ?m)"
  show ?thesis
  proof (cases "leStopped env n \<or> settledByEvidence env n ip ps ?m \<noteq> None")
    case True
    with settled [of n ps ?m] show ?thesis
      by (auto simp: resolveAmbiguousLeaseBatch_def Let_def restored_leases others)
  next
    case False
    then have R: "resolveAmbiguousLeaseBatch env n ip ps s m =
      (case ?cv of Inl m \<Rightarrow> m
       | Inr (probes, m) \<Rightarrow> (case settledByEvidence env (n + 2) ip probes (leOthers env (n + 2) m) of
           Some m \<Rightarrow> m | None \<Rightarrow> reportBatch env (n + 3) ip probes (leOthers env (n + 2) m)))"
      by (simp add: resolveAmbiguousLeaseBatch_def Let_def split: sum.split option.split)
    show ?thesis
    proof (cases ?cv)
      case (Inl m1)
      with crossValidate_leases(1) [OF assms Inl] R show ?thesis by (simp add: others)
    next
      case (Inr r)
      obtain qs m1 where r: "r = (qs, m1)" by fastforce
      have "leases m1 = leases m" using crossValidate_leases(2) [OF assms Inr [unfolded r]] by (simp add: others)
      with R Inr r settled [of "n + 2" qs "leOthers env (n + 2) m1"] show ?thesis
        by (auto simp: others report split: option.split)
    qed
  qed
qed

lemma resolve_honest:
  assumes "quiet_env env" and "honest False ip r a (answerBase m)"
  shows "honest (canceled env) ip r a (answerBase (resolveAmbiguousLeaseBatch env n ip ps s m))"
proof (cases "canceled env")
  case False
  then show ?thesis using assms resolve_base by simp
next
  case True
  then show ?thesis using assms(2) resolve_leases [OF assms(1)]
    by (auto simp: honest_def answerBase_def split: leaseStatus.splits)
qed

lemmas leaseLoop_induct = leaseLoop.raw_induct [rotated, consumes 1, case_names round]

lemma leaseLoop_honest:
  assumes "leaseLoop env n ip r s ps m = Some res" and "quiet_env env"
  shows "honest (canceled env) ip r (fst res) (answerBase (snd res))"
  using assms
proof (induction env n ip r s ps m res rule: leaseLoop_induct)
  case (round loop env n ip r s ps m res)
  note quiet = \<open>quiet_env env\<close>
  have weak: "honest False ip r a b \<Longrightarrow> honest (canceled env) ip r a b" for a b by (erule honest_weaken) simp
  obtain x m1 where reserve: "reserveProxyForLease (leFaults env n) (leFaults env (n + 1)) (leClock env n) ip r
        (leOthers env n m) = (x, m1)" by fastforce
  show ?case
  proof (cases x)
    case (Inl a)
    have "honest False ip r a (answerBase m1)" using reserve Inl reserve_honest by blast
    then show ?thesis using round.hyps reserve Inl resolve_honest [OF quiet] by (auto intro: weak)
  next
    case (Inr q)
    obtain pr m2 where probe: "leProbe env n q m1 = (pr, m2)" by fastforce
    obtain st m3 where after: "afterProbe (leFaults env (n + 2)) (leClock env (n + 1)) (leStopped env (n + 1))
          (frontEvidenceForProbeResult (connector m2) (pAddress q) (resultErr pr)) ip r (pID q) pr ps
          (leOthers env (n + 1) m2) = (st, m3)" by fastforce
    note honest = afterProbe_honest [OF after]
    show ?thesis
    proof (cases st)
      case (Again qs)
      then have "loop env (n + 2) ip r s qs m3 = Some res"
        using round.hyps reserve Inr probe after by simp
      then show ?thesis using round.IH quiet by blast
    next
      case (Answer w a)
      then show ?thesis using round.hyps reserve Inr probe after honest
        by (auto simp: canceled_def intro: honest_weaken)
    next
      case (ResolveBatch qs a)
      then show ?thesis using round.hyps reserve Inr probe after honest resolve_honest [OF quiet] by auto
    qed
  qed
qed

text \<open>
  C11. Answers are honest. In a quiet environment, the answer of \<open>ensureLease\<close> is about its client; when it
  says active, the table holds exactly the lease it names; when it says pending, the client stands in
  a wait queue, unless its request was canceled; and it never says blocked.
\<close>

theorem lease_answers_are_honest:
  assumes "quiet_env env" and "ensureLease env ip refresh m = Some (a, m')"
  shows "honest (canceled env) ip refresh a (answerBase m')"
proof -
  let ?m = "leOthers env 0 m" and ?t = "leClock env 0"
  have weak: "honest False ip refresh a b \<Longrightarrow> honest (canceled env) ip refresh a b" for a b
    by (erule honest_weaken) simp
  have stop: "canceled env" if "leStopped env 0 \<or> \<not> leGate env \<or> leStopped env 1"
    using that by (auto simp: canceled_def)
  have "honest True ip refresh (assignmentCanceled ?t ip ?m) (answerBase ?m)"
    by (auto simp: assignmentCanceled_def unexpiredLease_honest split: option.split)
       (simp add: pendingAnswer_def assignment_def honest_stopped)
  moreover have "honest False ip refresh b (answerBase m'')"
    if "frontBackoffAssignment ?t ip refresh ?m = (Some b, m'')" for b m''
    by (rule frontBackoffAssignment_honest [OF that])
  ultimately show ?thesis
    using assms(2) leaseLoop_honest [OF _ assms(1), of 1 ip refresh _ "[]" _ "(a, m')"]
    by (auto simp: ensureLease_def Let_def stop weak split: option.splits prod.splits if_splits)
qed

lemma lease_answers_are_honest_witness:
  "case ensureLease exampleEnv ''192.168.1.5'' False exampleManager of
     None \<Rightarrow> False | Some (a, m') \<Rightarrow> honest (canceled exampleEnv) ''192.168.1.5'' False a (answerBase m')"
proof -
  have quiet: "quiet_env exampleEnv" by (simp add: quiet_env_def exampleEnv_def)
  have "calm_env ''192.168.1.5'' exampleEnv" by (simp add: calm_env_def exampleEnv_def)
  then have "\<not> Option.is_none (ensureLease exampleEnv ''192.168.1.5'' False exampleManager)"
    by (rule ensureLease_returns)
  with lease_answers_are_honest [OF quiet] show ?thesis by (fastforce simp: Option.is_none_def)
qed

end
