(* ===== verification/DnsProxy.thy ===== *)
theory DnsProxy
  imports FakeIP Config
begin

text \<open>
  internal/dnsproxy/dnsproxy.go: the DNS server that answers address queries from the fake pool and
  passes the rest to the configured upstream. The message library is an argument: \<open>SetReply\<close>, the names
  of the query types and the exchange with the upstream. The listeners of \<open>Run\<close> are not modelled.
\<close>

section \<open>Messages\<close>

record DnsQuestion =
  qName :: string
  qType :: nat

record DnsAnswer =
  rrName :: string
  rrType :: nat
  rrClass :: nat
  rrTtl :: nat
  rrA :: "ip option"

record DnsMsg =
  msgAuthoritative :: bool
  msgRcode :: nat
  msgQuestion :: "DnsQuestion list"
  msgAnswer :: "DnsAnswer list"

text \<open>What the server uses of the library.\<close>

record dnsLib =
  setReply :: "DnsMsg \<Rightarrow> DnsMsg"
  typeToString :: "nat \<Rightarrow> string"
  upstreamExchange :: "string \<Rightarrow> DnsMsg \<Rightarrow> goError + DnsMsg"

definition TypeA :: nat where "TypeA = 1"
definition TypeAAAA :: nat where "TypeAAAA = 28"
definition ClassINET :: nat where "ClassINET = 1"
definition RcodeSuccess :: nat where "RcodeSuccess = 0"
definition RcodeServerFailure :: nat where "RcodeServerFailure = 2"

section \<open>The server\<close>

definition blockedType :: "dnsLib \<Rightarrow> DNSConfig \<Rightarrow> nat \<Rightarrow> bool" where
  "blockedType lib cfg qtype \<longleftrightarrow>
     qtype = TypeAAAA \<or> list_ex (\<lambda>blocked. EqualFold blocked (typeToString lib qtype)) (dnsBlockedQTyp cfg)"

definition upstreamAddress :: "string \<Rightarrow> string" where
  "upstreamAddress upstream =
     (case SplitHostPort upstream of Inl _ \<Rightarrow> JoinHostPort upstream ''53'' | Inr _ \<Rightarrow> upstream)"

definition exchange :: "dnsLib \<Rightarrow> DNSConfig \<Rightarrow> DnsMsg \<Rightarrow> goError + DnsMsg" where
  "exchange lib cfg r = upstreamExchange lib (upstreamAddress (dnsUpstream cfg)) r"

text \<open>\<open>handle\<close> writes exactly one message on each path; it is the first component.\<close>

definition dnsHandle :: "dnsLib \<Rightarrow> DNSConfig \<Rightarrow> DnsMsg \<Rightarrow> FakeIPStore \<Rightarrow> DnsMsg \<times> FakeIPStore" where
  "dnsHandle lib cfg r fake =
     (let resp = (setReply lib r)\<lparr>msgAuthoritative := True\<rparr> in
      case msgQuestion r of
        [] \<Rightarrow> (resp, fake)
      | q # _ \<Rightarrow>
          if blockedType lib cfg (qType q) then (resp\<lparr>msgRcode := RcodeSuccess\<rparr>, fake)
          else if qType q = TypeA then
            (case Get fake (qName q) of
               (addr, fake) \<Rightarrow>
                 (resp\<lparr>msgAnswer := msgAnswer resp @
                    [\<lparr>rrName = qName q, rrType = TypeA, rrClass = ClassINET, rrTtl = 30, rrA = To4 addr\<rparr>]\<rparr>, fake))
          else
            (case exchange lib cfg r of
               Inl _ \<Rightarrow> (resp\<lparr>msgRcode := RcodeServerFailure\<rparr>, fake)
             | Inr msg \<Rightarrow> (msg, fake)))"

text \<open>The pool after a sequence of requests.\<close>

fun dnsServe :: "dnsLib \<Rightarrow> DNSConfig \<Rightarrow> DnsMsg list \<Rightarrow> FakeIPStore \<Rightarrow> FakeIPStore" where
  "dnsServe lib cfg [] fake = fake"
| "dnsServe lib cfg (r # rs) fake = dnsServe lib cfg rs (snd (dnsHandle lib cfg r fake))"

section \<open>What reaches the pool\<close>

text \<open>The name that a request allocates an address for.\<close>

definition allocates :: "dnsLib \<Rightarrow> DNSConfig \<Rightarrow> DnsMsg \<Rightarrow> string list" where
  "allocates lib cfg r =
     (case msgQuestion r of
        [] \<Rightarrow> []
      | q # _ \<Rightarrow> if qType q = TypeA \<and> \<not> blockedType lib cfg TypeA then [qName q] else [])"

lemma dnsHandle_pool: "snd (dnsHandle lib cfg r fake) = getAll fake (allocates lib cfg r)"
  by (auto simp: dnsHandle_def allocates_def Let_def split: list.split prod.split sum.split)

lemma getAll_append: "getAll s (xs @ ys) = getAll (getAll s xs) ys"
  by (induction s xs rule: getAll.induct) auto

lemma dnsServe_pool: "dnsServe lib cfg rs fake = getAll fake (concat (map (allocates lib cfg) rs))"
  by (induction rs arbitrary: fake) (simp_all add: dnsHandle_pool getAll_append)

definition addressQuery :: "dnsLib \<Rightarrow> DNSConfig \<Rightarrow> DnsMsg \<Rightarrow> string \<Rightarrow> bool" where
  "addressQuery lib cfg r name \<longleftrightarrow>
     (\<exists>q qs. msgQuestion r = q # qs \<and> qType q = TypeA \<and> qName q = name) \<and> \<not> blockedType lib cfg TypeA"

lemma dnsHandle_addressQuery:
  assumes "addressQuery lib cfg r name"
  shows "msgAnswer (fst (dnsHandle lib cfg r fake)) = msgAnswer (setReply lib r) @
    [\<lparr>rrName = name, rrType = TypeA, rrClass = ClassINET, rrTtl = 30, rrA = To4 (fst (Get fake name))\<rparr>]"
  using assms by (auto simp: addressQuery_def dnsHandle_def Let_def split: prod.split)

text \<open>Every name keeps its first answer, which has four bytes.\<close>

definition short_answers :: "FakeIPStore \<Rightarrow> bool" where
  "short_answers s \<longleftrightarrow> (\<forall>d a. get (nameToIP s) d = Some a \<longrightarrow> length a = 4)"

lemma short_answers_Get: "short_answers s \<Longrightarrow> short_answers (snd (Get s d)) \<and> length (fst (Get s d)) = 4"
  by (auto simp: short_answers_def Get_def Let_def split: option.splits if_splits)

lemma Get_keeps: "get (nameToIP s) n = Some a \<Longrightarrow> get (nameToIP (snd (Get s d))) n = Some a"
  by (auto simp: Get_def Let_def split: option.split)

lemma short_answers_getAll: "short_answers s \<Longrightarrow> short_answers (getAll s ds)"
  by (induction s ds rule: getAll.induct) (auto simp: short_answers_Get)

lemma getAll_keeps: "get (nameToIP s) n = Some a \<Longrightarrow> get (nameToIP (getAll s ds)) n = Some a"
  by (induction s ds rule: getAll.induct) (auto simp: Get_keeps)

lemma short_answers_New: "NewFakeIPStore cidr = Inr s \<Longrightarrow> short_answers s"
  by (simp add: short_answers_def NewFakeIPStore_Inr(6))

text \<open>A library for the examples: it copies the question and knows two types.\<close>

definition exampleLib :: dnsLib where
  "exampleLib = \<lparr>setReply = (\<lambda>r. \<lparr>msgAuthoritative = False, msgRcode = 0, msgQuestion = msgQuestion r, msgAnswer = []\<rparr>),
     typeToString = (\<lambda>t. if t = 1 then ''A'' else if t = 28 then ''AAAA'' else ''MX''),
     upstreamExchange = (\<lambda>_ _. Inl (ErrString ''i/o timeout''))\<rparr>"

definition exampleDNS :: DNSConfig where
  "exampleDNS = \<lparr>dnsListen = ''0.0.0.0:5353'', dnsFakeIPCIDR = ''198.18.0.0/15'', dnsUpstream = ''1.1.1.1'', dnsBlockedQTyp = []\<rparr>"

definition exampleQuery :: "nat \<Rightarrow> string \<Rightarrow> DnsMsg" where
  "exampleQuery t name = \<lparr>msgAuthoritative = False, msgRcode = 0,
     msgQuestion = [\<lparr>qName = name, qType = t\<rparr>], msgAnswer = []\<rparr>"

definition examplePool :: FakeIPStore where
  "examplePool = projr (NewFakeIPStore ''198.18.0.0/15'')"

lemma examplePool_New: "NewFakeIPStore ''198.18.0.0/15'' = Inr examplePool"
proof -
  have "\<not> isl (NewFakeIPStore ''198.18.0.0/15'')" by code_simp
  then show ?thesis by (simp add: examplePool_def)
qed

section \<open>Properties\<close>

text \<open>
  The DNS server never asks the upstream for an address. Whatever the upstream would answer, a
  request whose first question is of type A or AAAA gets the same reply and leaves the same pool; an
  AAAA request gets the bare reply, with no record added to it and no error.
\<close>

theorem address_queries_stay_local:
  assumes "msgQuestion r = q # qs" and "qType q = TypeA \<or> qType q = TypeAAAA"
  shows "dnsHandle lib cfg r fake = dnsHandle (lib\<lparr>upstreamExchange := ex\<rparr>) cfg r fake
    \<and> (qType q = TypeAAAA \<longrightarrow> dnsHandle lib cfg r fake =
      ((setReply lib r)\<lparr>msgAuthoritative := True, msgRcode := RcodeSuccess\<rparr>, fake))"
  using assms by (auto simp: dnsHandle_def Let_def blockedType_def TypeA_def TypeAAAA_def split: prod.split)

lemma address_queries_stay_local_witness:
  "dnsHandle exampleLib exampleDNS (exampleQuery 28 ''a.example.'') examplePool =
     ((setReply exampleLib (exampleQuery 28 ''a.example.''))\<lparr>msgAuthoritative := True, msgRcode := RcodeSuccess\<rparr>, examplePool)"
  using address_queries_stay_local [of "exampleQuery 28 ''a.example.''" "\<lparr>qName = ''a.example.'', qType = 28\<rparr>" "[]"
      exampleLib exampleDNS examplePool] by (simp add: exampleQuery_def TypeAAAA_def)

text \<open>
  The server answers consistently. At any point of its life an address query gets one record of
  type A for the name it asked, living 30 seconds, and every later query for the same name, whatever
  the case of its letters and with or without the final dot, gets the same address, no matter what was
  asked in between and whether the pool has wrapped around.
\<close>

theorem dns_answers_consistently:
  assumes "NewFakeIPStore cidr = Inr s" and "\<And>r. msgAnswer (setReply lib r) = []"
    and "addressQuery lib cfg r name" and "addressQuery lib cfg r' name'" and "fakeName name' = fakeName name"
  shows "\<exists>a. length a = 4 \<and> msgAnswer (fst (dnsHandle lib cfg r (dnsServe lib cfg earlier s))) =
      [\<lparr>rrName = name, rrType = TypeA, rrClass = ClassINET, rrTtl = 30, rrA = Some a\<rparr>]
    \<and> msgAnswer (fst (dnsHandle lib cfg r' (dnsServe lib cfg (earlier @ r # between) s))) =
      [\<lparr>rrName = name', rrType = TypeA, rrClass = ClassINET, rrTtl = 30, rrA = Some a\<rparr>]"
proof -
  let ?s = "dnsServe lib cfg earlier s" and ?l = "allocates lib cfg"
  define a where "a = fst (Get ?s name)"
  have "short_answers ?s" by (simp add: dnsServe_pool short_answers_getAll short_answers_New [OF assms(1)])
  then have len: "length a = 4" by (simp add: a_def short_answers_Get)
  have "?l r = [name]" using assms(3) by (auto simp: addressQuery_def allocates_def)
  then have later: "dnsServe lib cfg (earlier @ r # between) s = getAll (snd (Get ?s name)) (concat (map ?l between))"
    by (simp add: dnsServe_pool getAll_append)
  have "get (nameToIP (snd (Get ?s name))) (fakeName name) = Some a" by (simp add: a_def Get_nameToIP)
  then have "Get (dnsServe lib cfg (earlier @ r # between) s) name' = (a, dnsServe lib cfg (earlier @ r # between) s)"
    unfolding later by (intro Get_known) (simp add: getAll_keeps assms(5))
  then show ?thesis
    using dnsHandle_addressQuery [OF assms(3)] dnsHandle_addressQuery [OF assms(4)] assms(2) len
    by (intro exI [of _ a]) (simp add: To4_def flip: a_def)
qed

lemma dns_answers_consistently_witness:
  "\<exists>a. rrA (hd (msgAnswer (fst (dnsHandle exampleLib exampleDNS (exampleQuery 1 ''a.example.'') examplePool)))) = Some a
     \<and> rrA (hd (msgAnswer (fst (dnsHandle exampleLib exampleDNS (exampleQuery 1 ''A.Example'')
          (dnsServe exampleLib exampleDNS [exampleQuery 1 ''a.example.'', exampleQuery 1 ''b.example.''] examplePool))))) = Some a"
proof -
  have q: "addressQuery exampleLib exampleDNS (exampleQuery 1 n) n" for n
    by (simp add: addressQuery_def exampleQuery_def TypeA_def TypeAAAA_def blockedType_def exampleDNS_def)
  have "fakeName ''A.Example'' = fakeName ''a.example.''" by code_simp
  from dns_answers_consistently [OF examplePool_New _ q q this, where earlier = "[]" and between = "[exampleQuery 1 ''b.example.'']"]
  show ?thesis by (auto simp: exampleLib_def)
qed

end
