(* ===== verification/Gateway.thy ===== *)
theory Gateway
  imports LeaseEngine DnsProxy Routing
begin

text \<open>
  internal/gateway/gateway.go and originaldst_linux.go: what the gateway does with one redirected
  connection. The result of a handler is the sequence of its visible actions and the manager it
  leaves; the socket option, the resolver and the dials are arguments, and so is what the other
  goroutines make of the manager between two actions. The accept loop of \<open>Run\<close> is not modelled.
\<close>

section \<open>State\<close>

record Gateway =
  gwCfg :: GatewayConfig
  gwDNS :: DNSConfig
  gwRouter :: "Matcher option"
  gwFallback :: "Matcher option"

definition newGateway :: "GatewayConfig \<Rightarrow> DNSConfig \<Rightarrow> Matcher option \<Rightarrow> Gateway" where
  "newGateway cfg dns router = \<lparr>gwCfg = cfg, gwDNS = dns, gwRouter = router, gwFallback = router\<rparr>"

definition SetRouter :: "Matcher option \<Rightarrow> Gateway \<Rightarrow> Gateway" where
  "SetRouter router g = g\<lparr>gwRouter := (if router = None then gwFallback g else router)\<rparr>"

definition routeAction :: "Gateway \<Rightarrow> string \<Rightarrow> string" where
  "routeAction g target =
     (case gwRouter g of None \<Rightarrow> ActionProxy | Some router \<Rightarrow> ActionFor (Some router) target)"

section \<open>Addresses\<close>

definition makeAddress :: "string \<Rightarrow> int \<Rightarrow> string" where
  "makeAddress host port = JoinHostPort host (Itoa port)"

definition parseHostPort :: "string \<Rightarrow> goError + string \<times> int" where
  "parseHostPort addr =
     (case SplitHostPort addr of
        Inl err \<Rightarrow> Inl err
      | Inr (host, portStr) \<Rightarrow>
          (case Atoi portStr of
             None \<Rightarrow> Inl (ErrString (''invalid syntax: '' @ portStr))
           | Some port \<Rightarrow> if TrimSpace host = [] then Inl (ErrString ''empty host'') else Inr (host, port)))"

text \<open>The outcome of the system call for the original destination: four bytes of address, two of port.\<close>

datatype sockopt =
    NotTCP
  | SockoptError goError
  | SockAddr "byte list" "byte list"

definition be16 :: "byte list \<Rightarrow> nat" where
  "be16 b = 256 * unat (b ! 0) + unat (b ! 1)"

definition originalDst :: "sockopt \<Rightarrow> goError + string" where
  "originalDst r =
     (case r of
        NotTCP \<Rightarrow> Inl (ErrString ''not a tcp connection'')
      | SockoptError err \<Rightarrow> Inl err
      | SockAddr addr port \<Rightarrow> Inr (makeAddress (ipString (v4InV6Prefix @ addr)) (int (be16 port))))"

text \<open>On other platforms than Linux (originaldst_stub.go) there is no such lookup.\<close>

definition originalDstElsewhere :: "goError + string" where
  "originalDstElsewhere = Inl (ErrString ''transparent proxy original destination lookup is only implemented on linux'')"

record gwClient =
  gcID :: connID
  gcRemote :: string
  gcLocal :: string
  gcSockopt :: sockopt

definition targetAddress :: "Gateway \<Rightarrow> gwClient \<Rightarrow> goError + string" where
  "targetAddress g c =
     (if gwTransparentProxy (gwCfg g) then originalDst (gcSockopt c)
      else case SplitHostPort (gcLocal c) of
        Inl err \<Rightarrow> Inl err
      | Inr (host, port) \<Rightarrow>
          Inr (JoinHostPort (if host = [] \<or> host = ''::'' then ''127.0.0.1'' else host) port))"

definition remoteIP :: "string \<Rightarrow> string" where
  "remoteIP addr = (case SplitHostPort addr of Inl _ \<Rightarrow> [] | Inr (host, _) \<Rightarrow> host)"

definition rewriteFakeIPTarget :: "FakeIPStore \<Rightarrow> string \<Rightarrow> string" where
  "rewriteFakeIPTarget fake target =
     (case SplitHostPort target of
        Inl _ \<Rightarrow> target
      | Inr (host, port) \<Rightarrow>
          (case ParseIP host of
             None \<Rightarrow> target
           | Some ip \<Rightarrow>
               (case Lookup fake ip of
                  None \<Rightarrow> target
                | Some name \<Rightarrow> JoinHostPort name port)))"

definition isBlockedTarget :: "Gateway \<Rightarrow> string \<Rightarrow> bool" where
  "isBlockedTarget g target =
     (case SplitHostPort target of
        Inl _ \<Rightarrow> True
      | Inr (_, port) \<Rightarrow> list_ex (\<lambda>blocked. blocked = port) (gwBlockedPorts (gwCfg g)))"

section \<open>Direct connections\<close>

text \<open>The n-th dial of a handler and the resolver that asks the configured upstream.\<close>

record gwEnv =
  geDial :: "nat \<Rightarrow> string \<Rightarrow> goError + conn"
  geLookup :: "string \<Rightarrow> string \<Rightarrow> goError + ip list"
  geConnect :: connectEnv
  geClock :: "nat \<Rightarrow> time"
  geFaults :: dbfaults
  geOthers :: "nat \<Rightarrow> Manager \<Rightarrow> Manager"

definition lookupDirect :: "gwEnv \<Rightarrow> Gateway \<Rightarrow> string \<Rightarrow> goError + ip list" where
  "lookupDirect env g host =
     (case geLookup env (upstreamAddress (dnsUpstream (gwDNS g))) host of
        Inl err \<Rightarrow> Inl err
      | Inr addrs \<Rightarrow>
          (case List.map_filter To4 addrs of
             [] \<Rightarrow> Inl (ErrString ''no A records'')
           | ips \<Rightarrow> Inr ips))"

text \<open>The result and the addresses that were dialed, in order.\<close>

fun dialAddrs :: "gwEnv \<Rightarrow> nat \<Rightarrow> string \<Rightarrow> ip list \<Rightarrow> goError option \<Rightarrow> (goError + conn) \<times> string list" where
  "dialAddrs env n port [] lastErr =
     (Inl (case lastErr of Some err \<Rightarrow> err | None \<Rightarrow> ErrString ''no direct address''), [])"
| "dialAddrs env n port (ip # ips) lastErr =
     (let address = JoinHostPort (ipString ip) port in
      case geDial env n address of
        Inr upstream \<Rightarrow> (Inr upstream, [address])
      | Inl err \<Rightarrow> (case dialAddrs env (Suc n) port ips (Some err) of (r, ds) \<Rightarrow> (r, address # ds)))"

definition dialDirect :: "gwEnv \<Rightarrow> Gateway \<Rightarrow> string \<Rightarrow> (goError + conn) \<times> string list" where
  "dialDirect env g target =
     (case SplitHostPort target of
        Inl err \<Rightarrow> (Inl err, [])
      | Inr (host, port) \<Rightarrow>
          if ParseIP host \<noteq> None then (geDial env 0 target, [target])
          else (case lookupDirect env g host of
                  Inl err \<Rightarrow> (Inl err, [])
                | Inr ips \<Rightarrow> dialAddrs env 0 port ips None))"

section \<open>Relaying\<close>

text \<open>
  One direction of \<open>relay\<close>. A read yields bytes and maybe an error; the n-th write takes all the bytes
  or fails after some of them. The result is what the other side received; a script that ends stands
  for a read that fails with no bytes, which is what closing the connection causes.
\<close>

fun copySide :: "(byte list \<times> bool) list \<Rightarrow> (nat \<Rightarrow> nat option) \<Rightarrow> nat \<Rightarrow> byte list" where
  "copySide [] wfail n = []"
| "copySide ((chunk, failed) # reads) wfail n =
     (if chunk \<noteq> [] then
        (case wfail n of
           Some k \<Rightarrow> take k chunk
         | None \<Rightarrow> if failed then chunk else chunk @ copySide reads wfail (Suc n))
      else if failed then [] else copySide reads wfail n)"

section \<open>The handlers\<close>

datatype gwEvent =
    DialDirect string
  | Registered string
  | DialExit string string
  | Relay
  | CloseUpstream
  | Unregistered string
  | CloseClient

definition relayed :: "goError + conn \<Rightarrow> gwEvent list" where
  "relayed r = (case r of Inl _ \<Rightarrow> [] | Inr _ \<Rightarrow> [Relay, CloseUpstream])"

definition handleDirect :: "gwEnv \<Rightarrow> Gateway \<Rightarrow> string \<Rightarrow> gwEvent list" where
  "handleDirect env g target =
     (case dialDirect env g target of (r, dialed) \<Rightarrow> map DialDirect dialed @ relayed r)"

text \<open>\<open>ConnectProxy\<close> of the manager, and \<open>UnregisterConn\<close> with the wake-up it ends with.\<close>

definition ConnectProxy :: "connectEnv \<Rightarrow> Proxy \<Rightarrow> string \<Rightarrow> Manager \<Rightarrow> (goError + conn) \<times> Manager" where
  "ConnectProxy env p target m =
     (case Connect env (Some (connector m))
             \<lparr>Address = pAddress p, Username = pUsername p, Password = pPassword p\<rparr> target of
        (r, mc, _) \<Rightarrow> (r, case mc of Some c \<Rightarrow> m\<lparr>connector := c\<rparr> | None \<Rightarrow> m))"

definition unregisterAndWake :: "dbfaults \<Rightarrow> time \<Rightarrow> string \<Rightarrow> string \<Rightarrow> connID \<Rightarrow> Manager \<Rightarrow> Manager" where
  "unregisterAndWake f now ip pid c m =
     (case UnregisterConn f now ip pid c m of (wake, m) \<Rightarrow> if wake then wakeQueue now m else m)"

definition handleProxy ::
    "gwEnv \<Rightarrow> connID \<Rightarrow> string \<Rightarrow> string \<Rightarrow> Manager \<Rightarrow> gwEvent list \<times> Manager" where
  "handleProxy env c ip target m =
     (case AcquireProxyConn (geClock env 0) ip (Some c) (geOthers env 0 m) of
        (Inl _, m) \<Rightarrow> ([], m)
      | (Inr p, m) \<Rightarrow>
          (case ConnectProxy (geConnect env) p target (geOthers env 1 m) of
             (r, m) \<Rightarrow>
               ([Registered (pID p), DialExit (pAddress p) target] @ relayed r @ [Unregistered (pID p)],
                unregisterAndWake (geFaults env) (geClock env 1) ip (pID p) c (geOthers env 2 m))))"

definition handle :: "gwEnv \<Rightarrow> Gateway \<Rightarrow> FakeIPStore \<Rightarrow> gwClient \<Rightarrow> Manager \<Rightarrow> gwEvent list \<times> Manager" where
  "handle env g fake c m =
     (let ip = remoteIP (gcRemote c); drop = ([CloseClient], m) in
      if ip = [] then drop
      else case targetAddress g c of
        Inl _ \<Rightarrow> drop
      | Inr target \<Rightarrow>
          let target = rewriteFakeIPTarget fake target in
          if isBlockedTarget g target then drop
          else let action = routeAction g target in
            if action = ActionBlock then drop
            else if action = ActionDirect then (handleDirect env g target @ [CloseClient], m)
            else (case handleProxy env (gcID c) ip target m of (es, m) \<Rightarrow> (es @ [CloseClient], m)))"

section \<open>The contract of connection accounting\<close>

text \<open>
  What the gateway relies on: acquiring registers the connection or changes no registration, and
  unregistering removes it, whatever happened in between.
\<close>

locale conn_accounting =
  fixes acquire :: "time \<Rightarrow> string \<Rightarrow> connID \<Rightarrow> 's \<Rightarrow> (goError + Proxy) \<times> 's"
    and unregister :: "dbfaults \<Rightarrow> time \<Rightarrow> string \<Rightarrow> string \<Rightarrow> connID \<Rightarrow> 's \<Rightarrow> 's"
    and holds :: "'s \<Rightarrow> string \<Rightarrow> connID set"
  assumes acquire_fails: "acquire t ip c s = (Inl err, s') \<Longrightarrow> holds s' = holds s"
    and acquire_registers: "acquire t ip c s = (Inr p, s') \<Longrightarrow>
      c \<notin> holds s ip \<and> holds s' = (holds s)(ip := insert c (holds s ip))"
    and unregister_removes: "holds (unregister f t ip pid c s) = (holds s)(ip := holds s ip - {c})"
begin

lemma bracket:
  assumes "acquire t ip c s = (Inr p, s1)" and "holds s2 = holds s1"
  shows "holds (unregister f u ip pid c s2) = holds s"
  using acquire_registers [OF assms(1)] assms(2) by (simp add: unregister_removes)

lemma bracket_removes: "c \<notin> holds (unregister f u ip pid c s) ip"
  by (simp add: unregister_removes)

lemma bracket_others: "ip' \<noteq> ip \<Longrightarrow> holds (unregister f u ip pid c s) ip' = holds s ip'"
  by (simp add: unregister_removes)

end

definition held_conns :: "Manager \<Rightarrow> string \<Rightarrow> connID set" where
  "held_conns m ip = set (registered m ip)"

lemma held_conns_cong: "conns m' = conns m \<Longrightarrow> held_conns m' = held_conns m"
  by (simp add: held_conns_def registered_def fun_eq_iff)

lemma conns_wakeQueue [simp]: "conns (wakeQueue t m) = conns m"
  by (simp add: processQueueAsync_def scheduleQueueRetry_def cancelQueueRetry_def Let_def)

lemma conns_unregister: "conns (snd (UnregisterConn f t ip pid c m)) = conns (dropConn ip c m)"
  by (simp add: UnregisterConn_def Let_def withDB_def removeProxy_def split: option.split)

lemma conns_unregisterAndWake: "conns (unregisterAndWake f t ip pid c m) = conns (dropConn ip c m)"
  by (simp add: unregisterAndWake_def split_beta conns_unregister)

lemma conns_ConnectProxy [simp]: "conns (snd (ConnectProxy env p target m)) = conns m"
  by (simp add: ConnectProxy_def split_beta split: option.split)

lemma held_conns_dropConn: "held_conns (dropConn ip c m) = (held_conns m)(ip := held_conns m ip - {c})"
  by (auto simp: held_conns_def registered_def dropConn_def fun_eq_iff Let_def filter_empty_conv split: option.split)

interpretation accounting: conn_accounting
    "\<lambda>t ip c. AcquireProxyConn t ip (Some c)" unregisterAndWake held_conns
proof unfold_locales
  fix t ip c s s' and err :: goError
  assume "AcquireProxyConn t ip (Some c) s = (Inl err, s')"
  then show "held_conns s' = held_conns s" by (cases rule: AcquireProxyConn_cases) auto
next
  fix t ip c s s' and p :: Proxy
  assume "AcquireProxyConn t ip (Some c) s = (Inr p, s')"
  then show "c \<notin> held_conns s ip \<and> held_conns s' = (held_conns s)(ip := insert c (held_conns s ip))"
    by (cases rule: AcquireProxyConn_cases)
       (auto simp: acquired_def held_conns_def registered_def fun_eq_iff split: option.splits)
next
  fix f t ip pid c s
  show "held_conns (unregisterAndWake f t ip pid c s) = (held_conns s)(ip := held_conns s ip - {c})"
    using held_conns_cong [OF conns_unregisterAndWake] held_conns_dropConn by simp
qed

section \<open>The branches of the handler\<close>

text \<open>The decision of the gateway about a connection.\<close>

datatype gwDecision = Refused | GoDirect string | GoProxy string string

definition decideTarget :: "Gateway \<Rightarrow> string \<Rightarrow> string \<Rightarrow> gwDecision" where
  "decideTarget g ip target =
     (if ip = [] \<or> isBlockedTarget g target \<or> routeAction g target = ActionBlock then Refused
      else if routeAction g target = ActionDirect then GoDirect target
      else GoProxy ip target)"

definition decide :: "Gateway \<Rightarrow> FakeIPStore \<Rightarrow> gwClient \<Rightarrow> gwDecision" where
  "decide g fake c =
     (case targetAddress g c of
        Inl _ \<Rightarrow> Refused
      | Inr target \<Rightarrow> decideTarget g (remoteIP (gcRemote c)) (rewriteFakeIPTarget fake target))"

lemma handle_decide:
  "handle env g fake c m =
     (case decide g fake c of
        Refused \<Rightarrow> ([CloseClient], m)
      | GoDirect target \<Rightarrow> (handleDirect env g target @ [CloseClient], m)
      | GoProxy ip target \<Rightarrow> (case handleProxy env (gcID c) ip target m of (es, m) \<Rightarrow> (es @ [CloseClient], m)))"
  by (simp add: handle_def decide_def decideTarget_def Let_def split: sum.split)

lemma decide_target:
  "decide g fake c = GoDirect target \<Longrightarrow> \<not> isBlockedTarget g target"
  "decide g fake c = GoProxy ip target \<Longrightarrow> \<not> isBlockedTarget g target \<and> ip = remoteIP (gcRemote c) \<and> ip \<noteq> []"
  by (auto simp: decide_def decideTarget_def split: sum.splits if_splits)

lemma relayed_events: "set (relayed r) \<subseteq> {Relay, CloseUpstream}"
  by (auto simp: relayed_def split: sum.split)

lemma handleProxy_cases:
  obtains (refused) m0 err where "AcquireProxyConn (geClock env 0) ip (Some c) (geOthers env 0 m) = (Inl err, m0)"
      "handleProxy env c ip target m = ([], m0)"
  | (session) p m1 r m2 where "AcquireProxyConn (geClock env 0) ip (Some c) (geOthers env 0 m) = (Inr p, m1)"
      "ConnectProxy (geConnect env) p target (geOthers env 1 m1) = (r, m2)"
      "handleProxy env c ip target m =
         ([Registered (pID p), DialExit (pAddress p) target] @ relayed r @ [Unregistered (pID p)],
          unregisterAndWake (geFaults env) (geClock env 1) ip (pID p) c (geOthers env 2 m2))"
proof (cases "AcquireProxyConn (geClock env 0) ip (Some c) (geOthers env 0 m)")
  case (Pair x m1)
  show ?thesis
  proof (cases x)
    case (Inl err)
    then show ?thesis using Pair by (intro refused) (simp_all add: handleProxy_def)
  next
    case (Inr p)
    obtain r m2 where "ConnectProxy (geConnect env) p target (geOthers env 1 m1) = (r, m2)" by fastforce
    then show ?thesis using Pair Inr by (intro session) (simp_all add: handleProxy_def)
  qed
qed

lemma afterLast_subset: "set (afterLast s c) \<subseteq> set s"
  by (auto simp: afterLast_def before_def dest: set_takeWhileD)

lemma afterLast_free: "c \<notin> set (afterLast s c)"
  by (auto simp: afterLast_def before_def dest: set_takeWhileD)

lemma SplitHostPort_port:
  assumes "SplitHostPort target = Inr (host, port)"
  shows "port_chars port"
proof -
  have "set (tl r) \<subseteq> set r" for r :: string by (cases r) auto
  from this [of "after target (CHR '']'')"]
  show ?thesis
    using assms afterLast_subset [of target "CHR '':''"] afterLast_free [of "CHR '':''" target]
    by (auto simp: SplitHostPort_def Let_def port_chars_def host_chars_def split: if_splits)
qed

lemma dialAddrs_port:
  assumes "port_chars port" and "\<forall>ip \<in> set ips. length ip = 4" and "a \<in> set (snd (dialAddrs env n port ips e))"
  shows "\<exists>host. SplitHostPort a = Inr (host, port)"
  using assms
proof (induction env n port ips e rule: dialAddrs.induct)
  case (2 env n port ip ips e)
  have "host_chars (ipString ip)" using 2(3) using ip4String_port_chars [of ip] by (simp add: ipString_def To4_def port_chars_def)
  then have "SplitHostPort (JoinHostPort (ipString ip) port) = Inr (ipString ip, port)"
    using 2(2) by (rule SplitHostPort_JoinHostPort)
  with 2 show ?case by (auto simp: Let_def split: sum.splits prod.splits)
qed simp

lemma To4_is_short: "To4 a = Some b \<Longrightarrow> length b = 4"
  by (auto simp: To4_def split: if_splits)

lemma map_filter_elem: "List.map_filter f xs = ys \<Longrightarrow> y \<in> set ys \<Longrightarrow> \<exists>x. f x = Some y"
  by (induction xs arbitrary: ys) (auto simp: map_filter_simps split: option.splits)

lemma lookupDirect_length: "lookupDirect env g host = Inr ips \<Longrightarrow> \<forall>ip \<in> set ips. length ip = 4"
  using map_filter_elem [of To4] To4_is_short
  by (fastforce simp: lookupDirect_def split: sum.splits list.splits)

lemma relayed_cases: "relayed r = [] \<or> relayed r = [Relay, CloseUpstream]"
  by (simp add: relayed_def split: sum.split)

lemma usable_exclusive:
  assumes "mgr_inv B t m" and "usable t ip m l p"
  shows "t < lvExpiresAt l \<longrightarrow> (\<forall>ip' l'. get (leases m) ip' = Some l' \<longrightarrow> lvProxyID l' = lvProxyID l \<longrightarrow>
    t < lvExpiresAt l' \<longrightarrow> ip' = ip)"
proof (intro impI allI)
  fix ip' l'
  assume *: "t < lvExpiresAt l" "get (leases m) ip' = Some l'" "lvProxyID l' = lvProxyID l" "t < lvExpiresAt l'"
  have "held t (leases m) ip' (lvProxyID l)" "held t (leases m) ip (lvProxyID l)"
    using * assms mgr_inv_lease [OF assms(1) *(2)] by (auto simp: held_def holdsLease_def usable_def)
  then show "ip' = ip" using mgr_invD(7) [OF assms(1)] by (auto simp: exclusive_def)
qed

text \<open>A client of the example world opens a connection to a web server; the exit does not answer.\<close>

definition exampleGateway :: Gateway where
  "exampleGateway = newGateway (cfgGateway exampleConfig) exampleDNS None"

definition exampleVisitor :: "nat \<Rightarrow> gwClient" where
  "exampleVisitor n = \<lparr>gcID = n, gcRemote = ''192.168.1.5:40000'', gcLocal = ''192.168.1.1:15001'',
     gcSockopt = SockAddr [93, 184, 216, 34] [1, 187]\<rparr>"

definition exampleGwEnv :: gwEnv where
  "exampleGwEnv = \<lparr>geDial = (\<lambda>_ _. Inl (ErrString ''connection refused'')), geLookup = (\<lambda>_ _. Inl (ErrString ''connection refused'')),
     geConnect = \<lparr>ctxErr = (\<lambda>_. None), resolveHost = (\<lambda>_ _. Inl (ErrString ''connection refused'')), dial = (\<lambda>_ _. Inl (ErrString ''connection refused'')),
       deadlineErr = None, beginAt = 6, resolveAt = 7, others = (\<lambda>c. c)\<rparr>,
     geClock = (\<lambda>n. 6 + int n), geFaults = noFaults, geOthers = (\<lambda>_ m. m)\<rparr>"

definition exampleSession :: "gwEvent list \<times> Manager" where
  "exampleSession = handle exampleGwEnv exampleGateway examplePool (exampleVisitor 2) (mgr exampleLeased)"

lemma exampleSession_trace: "fst exampleSession = [Registered ''p1'', DialExit ''10.0.0.1:1080'' ''93.184.216.34:443'',
    Unregistered ''p1'', CloseClient]"
  by code_simp

section \<open>Properties\<close>

text \<open>
  C26. Blocked ports are never dialed. Every address that the gateway dials for a connection, directly or
  through an exit, has a port, and that port is not one of the blocked ones. This holds for every
  outcome of the resolver and of the dials, after the fake address has been replaced by its name.
\<close>

theorem blocked_ports_are_never_dialed:
  assumes "DialDirect a \<in> set (fst (handle env g fake c m)) \<or> DialExit exit a \<in> set (fst (handle env g fake c m))"
  shows "\<exists>host port. SplitHostPort a = Inr (host, port) \<and> port \<notin> set (gwBlockedPorts (gwCfg g))"
proof (cases "decide g fake c")
  case Refused
  with assms show ?thesis by (simp add: handle_decide)
next
  case (GoDirect target)
  obtain host port where sp: "SplitHostPort target = Inr (host, port)" and ok: "port \<notin> set (gwBlockedPorts (gwCfg g))"
    using decide_target(1) [OF GoDirect] by (auto simp: isBlockedTarget_def list_ex_iff split: sum.splits)
  have "a \<in> set (snd (dialDirect env g target))"
    using assms GoDirect relayed_events by (auto simp: handle_decide handleDirect_def split_beta)
  then have "\<exists>host. SplitHostPort a = Inr (host, port)"
    using sp dialAddrs_port [OF SplitHostPort_port [OF sp] lookupDirect_length]
    by (auto simp: dialDirect_def split: if_splits sum.splits)
  with ok show ?thesis by blast
next
  case (GoProxy ip target)
  have "a = target"
    using assms GoProxy relayed_events
    by (cases rule: handleProxy_cases [of env ip "gcID c" m target]) (auto simp: handle_decide)
  then show ?thesis
    using decide_target(2) [OF GoProxy] by (auto simp: isBlockedTarget_def list_ex_iff split: sum.splits)
qed

lemma blocked_ports_are_never_dialed_witness:
  "\<exists>host port. SplitHostPort ''93.184.216.34:443'' = Inr (host, port) \<and> port \<notin> set (gwBlockedPorts (gwCfg exampleGateway))"
  using exampleSession_trace unfolding exampleSession_def
  by (intro blocked_ports_are_never_dialed [of _ exampleGwEnv exampleGateway examplePool "exampleVisitor 2"
        "mgr exampleLeased" "''10.0.0.1:1080''"]) simp

text \<open>
  C6. A client leaves only through its own exit. When the gateway, run on a reachable manager, dials an
  exit for a connection, the address it dials is that of a proxy in use by the client the connection
  comes from, on which the client has an active, unexpired lease; and as long as that lease is in force
  no other client has one on the same proxy.
\<close>

theorem gateway_dials_own_exit:
  assumes "world_start w0" and "mgr_step\<^sup>*\<^sup>* w0 w" and "clock w \<le> geClock env 0"
    and "geOthers env 0 m = mgr w" and "DialExit address target \<in> set (fst (handle env g fake c m))"
  shows "\<exists>l p. usable (geClock env 0) (remoteIP (gcRemote c)) (mgr w) l p \<and> pAddress p = address
    \<and> (geClock env 0 < lvExpiresAt l \<longrightarrow> (\<forall>ip' l'. get (leases (mgr w)) ip' = Some l' \<longrightarrow>
          lvProxyID l' = lvProxyID l \<longrightarrow> geClock env 0 < lvExpiresAt l' \<longrightarrow> ip' = remoteIP (gcRemote c)))"
proof (cases "decide g fake c")
  case (GoProxy ip target')
  have ip: "ip = remoteIP (gcRemote c)" using decide_target(2) [OF GoProxy] by simp
  show ?thesis
  proof (cases rule: handleProxy_cases [of env ip "gcID c" m target', case_names refused session])
    case (session p m1 r m2)
    have "address = pAddress p"
      using assms(5) GoProxy session(3) relayed_events by (auto simp: handle_decide)
    moreover obtain l q where "usable (geClock env 0) ip (mgr w) l q" "pAddress p = pAddress q"
      using session(1) unfolding assms(4) by (cases rule: AcquireProxyConn_cases) auto
    ultimately show ?thesis
      using usable_exclusive [OF reachable_mgr_inv [OF assms(1-3)], of ip l q] ip
      by (intro exI [of _ l] exI [of _ q]) simp
  qed (use assms(5) GoProxy in \<open>simp add: handle_decide\<close>)
next
  case (GoDirect target')
  with assms(5) relayed_events show ?thesis by (auto simp: handle_decide handleDirect_def split_beta)
qed (use assms(5) in \<open>simp add: handle_decide\<close>)

lemma gateway_dials_own_exit_witness:
  "\<exists>l p. usable 6 ''192.168.1.5'' (mgr exampleLeased) l p \<and> pAddress p = ''10.0.0.1:1080''"
proof -
  have ip: "remoteIP (gcRemote (exampleVisitor 2)) = ''192.168.1.5''" by code_simp
  have now: "clock exampleLeased \<le> geClock exampleGwEnv 0" by code_simp
  have "DialExit ''10.0.0.1:1080'' ''93.184.216.34:443'' \<in>
      set (fst (handle exampleGwEnv exampleGateway examplePool (exampleVisitor 2) (mgr exampleLeased)))"
    using exampleSession_trace by (simp add: exampleSession_def)
  from gateway_dials_own_exit [OF exampleWorld_start exampleLeased_reachable now _ this] ip
  show ?thesis by (auto simp: exampleGwEnv_def)
qed

text \<open>
  C18. Sessions are balanced. Whatever happens, the gateway ends a connection by closing it; before that
  it has refused it, or dialed directly, or held one registration around the dial of an exit; relaying
  is followed by closing the upstream, and the registration is dropped last. When the other goroutines
  leave the registrations alone, those after the handler are those before it, and in any case the
  connection of a session is not registered any more.
\<close>

theorem sessions_are_balanced:
  assumes "handle env g fake c m = (es, m')" and "\<And>n m. held_conns (geOthers env n m) = held_conns m"
  shows "held_conns m' = held_conns m \<and> (\<exists>relay. relay \<in> {[], [Relay, CloseUpstream]}
    \<and> (es = [CloseClient]
       \<or> (\<exists>dialed. es = map DialDirect dialed @ relay @ [CloseClient])
       \<or> (\<exists>pid exit target. gcID c \<notin> held_conns m' (remoteIP (gcRemote c))
            \<and> es = [Registered pid, DialExit exit target] @ relay @ [Unregistered pid, CloseClient])))"
proof (cases "decide g fake c")
  case (GoDirect target)
  then show ?thesis using assms(1) relayed_cases [of "fst (dialDirect env g target)"]
    by (auto simp: handle_decide handleDirect_def split_beta)
next
  case (GoProxy ip target)
  have ip: "remoteIP (gcRemote c) = ip" using decide_target(2) [OF GoProxy] by simp
  show ?thesis
  proof (cases rule: handleProxy_cases [of env ip "gcID c" m target, case_names refused session])
    case (refused m0 err)
    then show ?thesis using assms GoProxy accounting.acquire_fails [OF refused(1)] by (auto simp: handle_decide)
  next
    case (session p m1 r m2)
    have "held_conns (geOthers env 2 m2) = held_conns m1"
      using held_conns_cong [OF conns_ConnectProxy, of "geConnect env" p target "geOthers env 1 m1"] session(2) assms(2)
      by simp
    from accounting.bracket [OF session(1) this]
    have "held_conns m' = held_conns m" using assms session(3) GoProxy by (auto simp: handle_decide)
    moreover have "gcID c \<notin> held_conns m' ip"
      using assms(1) session(3) GoProxy accounting.bracket_removes by (auto simp: handle_decide)
    ultimately show ?thesis using assms(1) session(3) GoProxy relayed_cases [of r] ip by (auto simp: handle_decide)
  qed
qed (use assms(1) in \<open>auto simp: handle_decide\<close>)

lemma sessions_are_balanced_witness:
  "held_conns (snd exampleSession) = held_conns (mgr exampleLeased) \<and> last (fst exampleSession) = CloseClient"
  using sessions_are_balanced [of exampleGwEnv exampleGateway examplePool "exampleVisitor 2" "mgr exampleLeased"
      "fst exampleSession" "snd exampleSession"] exampleSession_trace
  by (simp add: exampleSession_def exampleGwEnv_def)

text \<open>
  The relay is transparent. What one side receives is a prefix of what the other side sent, in order;
  it is everything that was read, up to and including the bytes that came with the first failing read,
  unless a write fails.
\<close>

theorem relay_is_transparent:
  shows "prefix (copySide reads wfail n) (concat (map fst reads))
    \<and> (wfail = (\<lambda>_. None) \<longrightarrow> copySide reads wfail n =
         concat (map fst (takeWhile (Not \<circ> snd) reads)) @
         (case dropWhile (Not \<circ> snd) reads of [] \<Rightarrow> [] | r # _ \<Rightarrow> fst r))"
  by (induction reads wfail n rule: copySide.induct)
     (auto split: option.split simp: take_is_prefix prefix_order.trans [OF take_is_prefix])

lemma relay_is_transparent_witness:
  "copySide [([1, 2], False), ([3], True), ([4], False)] (\<lambda>_. None) 0 = [1, 2, 3]"
  using relay_is_transparent [of "[([1, 2], False), ([3], True), ([4], False)]" "\<lambda>_. None" 0] by simp

end
