(* ===== verification/PoolImport.thy ===== *)
theory PoolImport
  imports LeaseEngine
begin

text \<open>
  internal/manager/manager.go, filling and pruning the pool: the text and JSON formats of proxy lists,
  the import loops, and the operations on many proxies. SHA-1, JSON decoding, \<open>url.Parse\<close> and the HTTP
  exchange of a subscription are arguments.
\<close>

section \<open>Parsing one proxy\<close>

definition hex_digits :: "byte list \<Rightarrow> string" where
  "hex_digits bs = concat (map (\<lambda>b. [hex_char (unat b div 16), hex_char (unat b mod 16)]) bs)"

definition proxyID :: "(string \<Rightarrow> byte list) \<Rightarrow> ProxyInput \<Rightarrow> string" where
  "proxyID sha1 i =
     ''proxy-'' @ take 12 (hex_digits (sha1 (inAddress i @ ''|'' @ inUsername i @ ''|'' @ inPassword i)))"

definition proxyInput :: "(string \<Rightarrow> byte list) \<Rightarrow> string \<Rightarrow> string \<Rightarrow> string \<Rightarrow> ProxyInput" where
  "proxyInput sha1 address username password =
     (let i = \<lparr>inID = [], inAddress = address, inUsername = username, inPassword = password, inDisabled = False\<rparr>
      in i\<lparr>inID := proxyID sha1 i\<rparr>)"

definition parseProxyURL ::
    "(string \<Rightarrow> byte list) \<Rightarrow> (string \<Rightarrow> goError + URL) \<Rightarrow> string \<Rightarrow> goError + ProxyInput" where
  "parseProxyURL sha1 parseURL raw =
     (let parts = Split (TrimPrefix raw ''socks5://'') (CHR '':'') in
      if HasPrefix raw ''socks5://'' \<and> Count raw (CHR ''@'') = 0 \<and> length parts \<ge> 4 then
        (if Atoi (parts ! 1) = None then Inl (ErrString ''invalid port'')
         else Inr (proxyInput sha1 (JoinHostPort (parts ! 0) (parts ! 1)) (parts ! 2) (Join (drop 3 parts) (CHR '':''))))
      else case parseURL raw of
        Inl err \<Rightarrow> Inl err
      | Inr u \<Rightarrow>
          if urlScheme u \<noteq> ''socks5'' \<and> urlScheme u \<noteq> ''socks'' then Inl (ErrString ''only socks5 URLs are supported'')
          else if Hostname u = [] \<or> Port u = [] then Inl (ErrString ''host and port are required'')
          else if Atoi (Port u) = None then Inl (ErrString ''invalid port'')
          else case urlUser u of
            None \<Rightarrow> Inr (proxyInput sha1 (JoinHostPort (Hostname u) (Port u)) [] [])
          | Some (username, password) \<Rightarrow>
              Inr (proxyInput sha1 (JoinHostPort (Hostname u) (Port u)) username password))"

definition parseProxyLine ::
    "(string \<Rightarrow> byte list) \<Rightarrow> (string \<Rightarrow> goError + URL) \<Rightarrow> string \<Rightarrow> goError + ProxyInput" where
  "parseProxyLine sha1 parseURL line =
     (if Contains line ''://'' then parseProxyURL sha1 parseURL line
      else
        let parts = Split line (CHR '':'') in
        if length parts < 2 then Inl (ErrString ''expected host:port[:username:password]'')
        else if parts ! 0 = [] \<or> parts ! 1 = [] then Inl (ErrString ''host and port are required'')
        else if Atoi (parts ! 1) = None then Inl (ErrString ''invalid port'')
        else Inr (proxyInput sha1 (JoinHostPort (parts ! 0) (parts ! 1))
                    (if length parts \<ge> 3 then parts ! 2 else [])
                    (if length parts \<ge> 4 then Join (drop 3 parts) (CHR '':'') else [])))"

section \<open>Importing\<close>

text \<open>The n-th section of an administration run: its clock, its database and what others did before it.\<close>

record adminEnv =
  aeClock :: "nat \<Rightarrow> time"
  aeFaults :: "nat \<Rightarrow> faults"
  aeOthers :: "nat \<Rightarrow> Manager \<Rightarrow> Manager"

record ImportResult =
  irImported :: nat
  irSkipped :: nat
  irErrors :: "string list"

definition noImports :: ImportResult where
  "noImports = \<lparr>irImported = 0, irSkipped = 0, irErrors = []\<rparr>"

text \<open>\<open>AddProxy\<close> with the wake-up it ends with when it succeeds.\<close>

definition addAndWake :: "adminEnv \<Rightarrow> nat \<Rightarrow> ProxyInput \<Rightarrow> Manager \<Rightarrow> (goError + Proxy) \<times> Manager" where
  "addAndWake env n i m =
     (case AddProxy (aeFaults env n) (aeClock env n) i (aeOthers env n m) of
        (Inl err, m) \<Rightarrow> (Inl err, m)
      | (Inr p, m) \<Rightarrow> (Inr p, wakeQueue (aeClock env n) m))"

definition refuseItem :: "string \<Rightarrow> goError \<Rightarrow> ImportResult \<Rightarrow> ImportResult" where
  "refuseItem label err res =
     res\<lparr>irSkipped := irSkipped res + 1, irErrors := irErrors res @ [label @ '': '' @ errorText err]\<rparr>"

definition importItem ::
    "adminEnv \<Rightarrow> nat \<Rightarrow> string \<Rightarrow> goError + ProxyInput \<Rightarrow> ImportResult \<times> Manager \<Rightarrow> ImportResult \<times> Manager" where
  "importItem env n label item st =
     (case st of (res, m) \<Rightarrow>
        case item of
          Inl err \<Rightarrow> (refuseItem label err res, m)
        | Inr i \<Rightarrow>
            (case addAndWake env n i m of
               (Inl err, m) \<Rightarrow>
                 (if Contains (errorText err) ''already exists'' then (res\<lparr>irSkipped := irSkipped res + 1\<rparr>, m)
                  else (refuseItem label err res, m))
             | (Inr _, m) \<Rightarrow> (res\<lparr>irImported := irImported res + 1\<rparr>, m)))"

definition lineLabel :: "nat \<Rightarrow> string" where
  "lineLabel n = ''line '' @ Itoa_nat n"

definition itemLabel :: "nat \<Rightarrow> string" where
  "itemLabel n = ''item '' @ Itoa_nat n"

definition listedLine :: "string \<Rightarrow> bool" where
  "listedLine line \<longleftrightarrow> \<not> (TrimSpace line = [] \<or> HasPrefix (TrimSpace line) ''#'')"

fun importLines ::
    "adminEnv \<Rightarrow> (string \<Rightarrow> goError + ProxyInput) \<Rightarrow> nat \<Rightarrow> string list \<Rightarrow> ImportResult \<times> Manager
      \<Rightarrow> ImportResult \<times> Manager" where
  "importLines env parse n [] st = st"
| "importLines env parse n (line # rest) st =
     importLines env parse (Suc n) rest
       (if listedLine line then importItem env (Suc n) (lineLabel (Suc n)) (parse (TrimSpace line)) st else st)"

definition maxImportLine :: nat where
  "maxImportLine = 1024 * 1024"

definition ErrTooLong :: goError where
  "ErrTooLong = ErrString ''bufio.Scanner: token too long''"

text \<open>The scanner stops before the first line that does not fit its buffer.\<close>

definition scanImport :: "string \<Rightarrow> string list \<times> bool" where
  "scanImport content = ScanLines maxImportLine content"

definition ImportProxies ::
    "adminEnv \<Rightarrow> (string \<Rightarrow> goError + ProxyInput) \<Rightarrow> string \<Rightarrow> Manager \<Rightarrow> ImportResult \<times> Manager" where
  "ImportProxies env parse content m =
     (case scanImport content of (ls, tooLong) \<Rightarrow>
        case importLines env parse 0 ls (noImports, m) of
          (res, m) \<Rightarrow>
            (if tooLong then res\<lparr>irErrors := irErrors res @ [errorText ErrTooLong]\<rparr> else res, m))"

text \<open>
  The items of a JSON subscription. A port that is a number is truncated to an integer; any other
  value has the text that \<open>fmt.Sprint\<close> gives it, which for a missing port is \<open><nil>\<close>.
\<close>

datatype payloadPort = PortNumber int | PortText string

record payloadItem =
  piIP :: string
  piHost :: string
  piPort :: payloadPort
  piUsername :: string
  piPassword :: string

definition missingPort :: payloadPort where
  "missingPort = PortText ''<nil>''"

definition payloadInput :: "(string \<Rightarrow> byte list) \<Rightarrow> payloadItem \<Rightarrow> goError + ProxyInput" where
  "payloadInput sha1 item =
     (let host = (if TrimSpace (piIP item) = [] then TrimSpace (piHost item) else TrimSpace (piIP item));
          port = (case piPort item of PortNumber n \<Rightarrow> Itoa n | PortText t \<Rightarrow> t) in
      if host = [] \<or> port = [] then Inl (ErrString ''host and port are required'')
      else Inr (proxyInput sha1 (JoinHostPort host port) (piUsername item) (piPassword item)))"

fun importItems ::
    "adminEnv \<Rightarrow> (string \<Rightarrow> byte list) \<Rightarrow> nat \<Rightarrow> payloadItem list \<Rightarrow> ImportResult \<times> Manager \<Rightarrow> ImportResult \<times> Manager" where
  "importItems env sha1 n [] st = st"
| "importItems env sha1 n (item # items) st =
     importItems env sha1 (Suc n) items (importItem env (Suc n) (itemLabel (Suc n)) (payloadInput sha1 item) st)"

definition ImportProxyPayload ::
    "adminEnv \<Rightarrow> (string \<Rightarrow> byte list) \<Rightarrow> (string \<Rightarrow> goError + URL) \<Rightarrow> (string \<Rightarrow> payloadItem list option) \<Rightarrow> string
      \<Rightarrow> Manager \<Rightarrow> ImportResult \<times> Manager" where
  "ImportProxyPayload env sha1 parseURL decode body m =
     (case decode body of
        Some (item # items) \<Rightarrow> importItems env sha1 0 (item # items) (noImports, m)
      | _ \<Rightarrow> ImportProxies env (parseProxyLine sha1 parseURL) body m)"

text \<open>The subscription: the request or the exchange fails, reading fails, or there is a status and a body.\<close>

definition oneError :: "string \<Rightarrow> ImportResult" where
  "oneError text = \<lparr>irImported = 0, irSkipped = 1, irErrors = [text]\<rparr>"

definition maxSubscription :: nat where
  "maxSubscription = 32 * 1024 * 1024"

definition ImportProxiesFromURL ::
    "adminEnv \<Rightarrow> (string \<Rightarrow> byte list) \<Rightarrow> (string \<Rightarrow> goError + URL) \<Rightarrow> (string \<Rightarrow> payloadItem list option)
      \<Rightarrow> (string \<Rightarrow> goError + int \<times> (goError + string)) \<Rightarrow> string \<Rightarrow> Manager \<Rightarrow> ImportResult \<times> Manager" where
  "ImportProxiesFromURL env sha1 parseURL decode fetch rawURL m =
     (let rawURL = TrimSpace rawURL in
      if rawURL = [] then (oneError ''url is required'', m)
      else case fetch rawURL of
        Inl err \<Rightarrow> (oneError (errorText err), m)
      | Inr (_, Inl err) \<Rightarrow> (oneError (errorText err), m)
      | Inr (statusCode, Inr body) \<Rightarrow>
          if statusCode < 200 \<or> 300 \<le> statusCode
          then (oneError (''subscription returned HTTP '' @ Itoa statusCode), m)
          else ImportProxyPayload env sha1 parseURL decode (take maxSubscription body) m)"

section \<open>Operations on many proxies\<close>

fun uniqueFrom :: "string list \<Rightarrow> string list \<Rightarrow> string list" where
  "uniqueFrom seen [] = []"
| "uniqueFrom seen (v # vs) =
     (let v = TrimSpace v in
      if v = [] \<or> v \<in> set seen then uniqueFrom seen vs else v # uniqueFrom (v # seen) vs)"

definition uniqueStrings :: "string list \<Rightarrow> string list" where
  "uniqueStrings vs = uniqueFrom [] vs"

record BatchResult =
  brUpdated :: nat
  brDeleted :: nat
  brSkipped :: nat
  brErrors :: "string list"

definition emptyBatch :: BatchResult where
  "emptyBatch = \<lparr>brUpdated = 0, brDeleted = 0, brSkipped = 0, brErrors = []\<rparr>"

definition batchError :: "string \<Rightarrow> goError \<Rightarrow> BatchResult \<Rightarrow> BatchResult" where
  "batchError pid err res =
     res\<lparr>brSkipped := brSkipped res + 1, brErrors := brErrors res @ [pid @ '': '' @ errorText err]\<rparr>"

fun disableEach :: "adminEnv \<Rightarrow> bool \<Rightarrow> nat \<Rightarrow> string list \<Rightarrow> BatchResult \<times> Manager \<Rightarrow> BatchResult \<times> Manager" where
  "disableEach env disabled n [] st = st"
| "disableEach env disabled n (pid # pids) (res, m) =
     disableEach env disabled (Suc n) pids
       (case SetProxyDisabled (aeFaults env n) (aeClock env n) pid disabled (aeOthers env n m) of
          (Inl err, m) \<Rightarrow> (batchError pid err res, m)
        | (Inr _, m) \<Rightarrow> (res\<lparr>brUpdated := brUpdated res + 1\<rparr>, wakeQueue (aeClock env n) m))"

definition SetProxiesDisabled :: "adminEnv \<Rightarrow> string list \<Rightarrow> bool \<Rightarrow> Manager \<Rightarrow> BatchResult \<times> Manager" where
  "SetProxiesDisabled env ids disabled m = disableEach env disabled 0 (uniqueStrings ids) (emptyBatch, m)"

fun deleteEach :: "adminEnv \<Rightarrow> nat \<Rightarrow> string list \<Rightarrow> BatchResult \<times> Manager \<Rightarrow> BatchResult \<times> Manager" where
  "deleteEach env n [] st = st"
| "deleteEach env n (pid # pids) (res, m) =
     deleteEach env (Suc n) pids
       (case DeleteProxy (aeFaults env n) pid (aeOthers env n m) of
          (Some err, m) \<Rightarrow> (batchError pid err res, m)
        | (None, m) \<Rightarrow> (res\<lparr>brDeleted := brDeleted res + 1\<rparr>, m))"

definition DeleteProxies :: "adminEnv \<Rightarrow> string list \<Rightarrow> Manager \<Rightarrow> BatchResult \<times> Manager" where
  "DeleteProxies env ids m = deleteEach env 1 (uniqueStrings ids) (emptyBatch, m)"

definition ClearIdleProxies :: "adminEnv \<Rightarrow> Manager \<Rightarrow> BatchResult \<times> Manager" where
  "ClearIdleProxies env m =
     (let m = aeOthers env 0 m in DeleteProxies env (clearableProxies m) m)"

section \<open>The import loops as one loop over items\<close>

definition quiet_admin :: "adminEnv \<Rightarrow> bool" where
  "quiet_admin env \<longleftrightarrow> (\<forall>n m. aeOthers env n m = m)"

fun runItems ::
    "adminEnv \<Rightarrow> (nat \<times> string \<times> (goError + ProxyInput)) list \<Rightarrow> ImportResult \<times> Manager \<Rightarrow> ImportResult \<times> Manager" where
  "runItems env [] st = st"
| "runItems env ((n, label, item) # items) st = runItems env items (importItem env n label item st)"

fun lineItems :: "(string \<Rightarrow> goError + ProxyInput) \<Rightarrow> nat \<Rightarrow> string list \<Rightarrow> (nat \<times> string \<times> (goError + ProxyInput)) list" where
  "lineItems parse n [] = []"
| "lineItems parse n (line # rest) =
     (if listedLine line then [(Suc n, lineLabel (Suc n), parse (TrimSpace line))] else []) @ lineItems parse (Suc n) rest"

lemma importLines_run: "importLines env parse n ls st = runItems env (lineItems parse n ls) st"
  by (induction env parse n ls st rule: importLines.induct) auto

lemma length_lineItems: "length (lineItems parse n ls) = length (filter listedLine ls)"
  by (induction parse n ls rule: lineItems.induct) auto

lemma wakeQueue_frame [simp]:
  "proxies (wakeQueue t m) = proxies m" "proxyOrder (wakeQueue t m) = proxyOrder m" "leases (wakeQueue t m) = leases m"
  "connector (wakeQueue t m) = connector m"
  by (simp_all add: processQueueAsync_def scheduleQueueRetry_def cancelQueueRetry_def Let_def)

text \<open>An input that the pool refuses whatever the database does, and one that is added.\<close>

definition refuses :: "Manager \<Rightarrow> ProxyInput \<Rightarrow> bool" where
  "refuses m i \<longleftrightarrow> inID i = [] \<or> isl (SplitHostPort (inAddress i)) \<or> frontAddressConflict m (inAddress i)
     \<or> get (proxies m) (inID i) \<noteq> None"

lemma newPoolProxy_ID [simp]: "pID (newPoolProxy i) = inID i"
  by (simp add: newPoolProxy_def)

lemma UpsertProxy_result: "UpsertProxy f t p db = (if f 0 then (Some sqlError, db) else (None, insertProxy t p db))"
  by (simp add: UpsertProxy_def exec_def)

lemma AddProxy_cases [consumes 1, case_names refused added]:
  assumes "AddProxy f t i m = (r, m')"
  obtains err where "r = Inl err" "m' = m" "refuses m i \<or> f 0"
    | "r = Inr (newPoolProxy i)" "\<not> refuses m i" "\<not> f 0" "get (proxies m) (inID i) = None"
      "m' = m\<lparr>mDB := insertProxy t (storeProxyOf (newPoolProxy i)) (mDB m),
             proxies := put (inID i) (newPoolProxy i) (proxies m), proxyOrder := sort (proxyOrder m @ [inID i])\<rparr>"
  using assms
  by (auto simp: AddProxy_def refuses_def UpsertProxy_result Let_def split: sum.splits if_splits)

lemma refuses_cong: "connector m' = connector m \<Longrightarrow> get (proxies m) \<subseteq>\<^sub>m get (proxies m') \<Longrightarrow> refuses m i \<Longrightarrow> refuses m' i"
  by (auto simp: refuses_def frontAddressConflict_def map_le_def dom_def)

text \<open>One item either is refused and changes nothing but the result, or adds one proxy.\<close>

lemma importItem_cases [consumes 2, case_names refused added]:
  assumes "importItem env n label item (res, m) = (res', m')" and "quiet_admin env"
  obtains "m' = m" "irImported res' = irImported res" "irSkipped res' = irSkipped res + 1"
      "\<And>i. item = Inr i \<Longrightarrow> refuses m i \<or> aeFaults env n 0"
    | i where "item = Inr i" "\<not> refuses m i" "irImported res' = irImported res + 1" "irSkipped res' = irSkipped res"
      "proxies m' = put (inID i) (newPoolProxy i) (proxies m)" "connector m' = connector m" "leases m' = leases m"
proof (cases item)
  case (Inl err)
  then show ?thesis using assms(1) that(1) by (auto simp: importItem_def refuseItem_def)
next
  case (Inr i)
  obtain r m1 where add: "AddProxy (aeFaults env n) (aeClock env n) i m = (r, m1)" by fastforce
  from add show ?thesis
  proof (cases rule: AddProxy_cases)
    case (refused err)
    then show ?thesis using assms Inr add that(1)
      by (auto simp: importItem_def addAndWake_def refuseItem_def quiet_admin_def split: if_splits)
  next
    case added
    then show ?thesis using assms Inr add that(2)
      by (auto simp: importItem_def addAndWake_def quiet_admin_def)
  qed
qed

lemma length_put_new: "get t k = None \<Longrightarrow> length (put k v t) = Suc (length t)"
  by (induction t) (auto split: if_splits)

lemma runItems_accounts:
  assumes "quiet_admin env" and "runItems env items (res, m) = (res', m')"
  shows "irImported res' + irSkipped res' = irImported res + irSkipped res + length items
    \<and> irImported res \<le> irImported res' \<and> length (proxies m') + irImported res = length (proxies m) + irImported res'
    \<and> get (proxies m) \<subseteq>\<^sub>m get (proxies m') \<and> leases m' = leases m \<and> connector m' = connector m"
  using assms(2)
proof (induction items arbitrary: res m)
  case (Cons x items)
  obtain n label item where x: "x = (n, label, item)" by (metis prod.exhaust)
  obtain res1 m1 where one: "importItem env n label item (res, m) = (res1, m1)" by fastforce
  have rest: "runItems env items (res1, m1) = (res', m')" using Cons.prems one by (simp add: x)
  from one assms(1) show ?case
  proof (cases rule: importItem_cases)
    case refused
    then show ?thesis using Cons.IH [OF rest] by simp
  next
    case (added i)
    then have "get (proxies m) (inID i) = None" by (simp add: refuses_def)
    with added have "get (proxies m) \<subseteq>\<^sub>m get (proxies m1)" "length (proxies m1) = Suc (length (proxies m))"
      by (auto simp: map_le_def dom_def length_put_new)
    then show ?thesis using Cons.IH [OF rest] added map_le_trans by fastforce
  qed
qed (simp add: map_le_def)

lemma runItems_refused:
  assumes "quiet_admin env" and "\<forall>(_, _, item) \<in> set items. case item of Inl _ \<Rightarrow> True | Inr i \<Rightarrow> refuses m i"
    and "runItems env items (res, m) = (res', m')"
  shows "irImported res' = irImported res \<and> m' = m"
  using assms(2,3)
proof (induction items arbitrary: res)
  case (Cons x items)
  obtain n label item where x: "x = (n, label, item)" by (metis prod.exhaust)
  obtain res1 m1 where one: "importItem env n label item (res, m) = (res1, m1)" by fastforce
  from one assms(1) show ?case
  proof (cases rule: importItem_cases)
    case refused
    then show ?thesis using Cons.IH [of res1] Cons.prems one by (simp add: x)
  next
    case (added i)
    then show ?thesis using Cons.prems(1) by (simp add: x)
  qed
qed simp

lemma runItems_leaves_refused:
  assumes "quiet_admin env" and "\<And>n. \<not> aeFaults env n 0" and "runItems env items (res, m) = (res', m')"
  shows "\<forall>(_, _, item) \<in> set items. case item of Inl _ \<Rightarrow> True | Inr i \<Rightarrow> refuses m' i"
  using assms(3)
proof (induction items arbitrary: res m)
  case (Cons x items)
  obtain n label item where x: "x = (n, label, item)" by (metis prod.exhaust)
  obtain res1 m1 where one: "importItem env n label item (res, m) = (res1, m1)" by fastforce
  have rest: "runItems env items (res1, m1) = (res', m')" using Cons.prems one by (simp add: x)
  have "refuses m1 i" if "item = Inr i" for i
    using one assms(1) by (cases rule: importItem_cases) (use that assms(2) in \<open>auto simp: refuses_def\<close>)
  then have "refuses m' i" if "item = Inr i" for i
    using that runItems_accounts [OF assms(1) rest] refuses_cong by blast
  then show ?case using Cons.IH [OF rest] by (auto simp: x split: sum.split)
qed simp

section \<open>Deleting\<close>

lemma DBDeleteProxy_ok: "(\<And>k. \<not> f k) \<Longrightarrow> fst (DBDeleteProxy f pid db) = None"
  by (simp add: DBDeleteProxy_def transact_def)

lemma DeleteProxy_get:
  assumes "\<And>k. \<not> f k"
  shows "get (proxies (snd (DeleteProxy f pid m))) k =
    (if k = pid \<and> (\<exists>p. get (proxies m) k = Some p \<and> \<not> inUse p) then None else get (proxies m) k)"
  using DBDeleteProxy_ok [of f pid "mDB m"] assms
  by (cases "DBDeleteProxy f pid (mDB m)") (auto simp: DeleteProxy_def removeProxy_def split: option.split)

lemma deleteEach_get:
  assumes "quiet_admin env" and "\<And>n k. \<not> aeFaults env n k"
  shows "get (proxies (snd (deleteEach env n pids (res, m)))) k =
    (if k \<in> set pids \<and> (\<exists>p. get (proxies m) k = Some p \<and> \<not> inUse p) then None else get (proxies m) k)"
proof (induction pids arbitrary: n res m)
  case (Cons pid pids)
  obtain e m1 where one: "DeleteProxy (aeFaults env n) pid (aeOthers env n m) = (e, m1)" by fastforce
  have "aeOthers env n m = m" using assms(1) by (simp add: quiet_admin_def)
  with one have m1: "get (proxies m1) k = (if k = pid \<and> (\<exists>p. get (proxies m) k = Some p \<and> \<not> inUse p)
      then None else get (proxies m) k)" for k
    using DeleteProxy_get [of "aeFaults env n" pid m k] assms(2) by simp
  then show ?case using Cons.IH [of "Suc n"] by (cases e) (auto simp: one)
qed simp

lemma set_uniqueFrom: "set (uniqueFrom seen vs) = {v \<in> TrimSpace ` set vs. v \<noteq> [] \<and> v \<notin> set seen}"
  by (induction seen vs rule: uniqueFrom.induct) (auto simp: Let_def)

lemma distinct_uniqueFrom: "distinct (uniqueFrom seen vs)"
  by (induction seen vs rule: uniqueFrom.induct) (auto simp: Let_def set_uniqueFrom)

section \<open>Properties\<close>

text \<open>A text with two proxies, a comment and a malformed line, and a run with nobody else around.\<close>

definition exampleAdmin :: adminEnv where
  "exampleAdmin = \<lparr>aeClock = (\<lambda>n. 100 + int n), aeFaults = (\<lambda>_ _. False), aeOthers = (\<lambda>_ m. m)\<rparr>"

definition exampleParse :: "string \<Rightarrow> goError + ProxyInput" where
  "exampleParse = parseProxyLine (\<lambda>t. map (of_nat \<circ> length) [t, t, t, t, t, t]) (\<lambda>_. Inl (ErrString ''parse''))"

definition exampleList :: string where
  "exampleList = ''10.0.0.7:1080:u:p:w'' @ [CHR 0x0A] @ ''# spare'' @ [CHR 0x0A] @ ''nonsense'' @ [CHR 0x0A]"

lemma scanImport_all:
  assumes "\<forall>l \<in> set (rawLines content). length l < 1048576"
  shows "scanImport content = (map dropCR (rawLines content), False)"
proof -
  have all: "takeWhile (\<lambda>l. length l < 1048576) (rawLines content) = rawLines content"
    using assms by (simp add: takeWhile_eq_all_conv)
  have "\<not> list_ex (\<lambda>l. 1048576 \<le> length l) (rawLines content)"
    using assms by (auto simp: list_ex_iff)
  then show ?thesis
    by (simp add: scanImport_def ScanLines_def maxImportLine_def all)
qed

text \<open>
  C28. Importing a list adds up, as far as the scanner reads it: up to the first line of a mebibyte or
  more. When nobody else changes the pool, every line before it that is neither blank nor a comment is
  counted once, as imported or as skipped; the pool grows by exactly the imported proxies and keeps the
  old ones unchanged, and no lease changes. When there is no such long line, that counts all lines of the
  text; when there is one, it and the lines behind it are neither imported nor counted, and the last
  error of the result says that a token was too long. When the database does not fail, importing the
  same list again imports nothing and leaves the manager as it is.
\<close>

theorem import_adds_up:
  assumes "quiet_admin env" and "ImportProxies env parse content m = (res, m')"
  shows "irImported res + irSkipped res =
        length (filter listedLine (map dropCR (takeWhile (\<lambda>l. length l < 1048576) (rawLines content))))
    \<and> (if \<forall>l \<in> set (rawLines content). length l < 1048576
       then irImported res + irSkipped res = length (filter listedLine (map dropCR (rawLines content)))
       else irErrors res \<noteq> [] \<and> last (irErrors res) = ''bufio.Scanner: token too long'')
    \<and> length (proxies m') = length (proxies m) + irImported res \<and> get (proxies m) \<subseteq>\<^sub>m get (proxies m')
    \<and> leases m' = leases m
    \<and> ((\<forall>n. \<not> aeFaults env n 0) \<and> quiet_admin env' \<longrightarrow>
         irImported (fst (ImportProxies env' parse content m')) = 0 \<and> snd (ImportProxies env' parse content m') = m')"
proof -
  define items where "items = lineItems parse 0 (fst (scanImport content))"
  obtain res1 m1 where run1: "runItems env items (noImports, m) = (res1, m1)" by fastforce
  then have res: "irImported res = irImported res1" "irSkipped res = irSkipped res1" and "m1 = m'"
    and long: "snd (scanImport content) \<longrightarrow> irErrors res \<noteq> [] \<and> last (irErrors res) = errorText ErrTooLong"
    using assms(2) by (auto simp: ImportProxies_def importLines_run items_def split_beta)
  with run1 have run: "runItems env items (noImports, m) = (res1, m')" by simp
  note accounts = runItems_accounts [OF assms(1) run]
  have read: "fst (scanImport content) = map dropCR (takeWhile (\<lambda>l. length l < 1048576) (rawLines content))"
    by (simp add: scanImport_def ScanLines_def maxImportLine_def)
  have count: "irImported res + irSkipped res = length (filter listedLine (fst (scanImport content)))"
    using accounts res by (simp add: items_def length_lineItems noImports_def)
  have stopped: "snd (scanImport content)" if "\<not> (\<forall>l \<in> set (rawLines content). length l < 1048576)"
    using that by (auto simp: scanImport_def ScanLines_def maxImportLine_def list_ex_iff not_less)
  have again: "irImported (fst (ImportProxies env' parse content m')) = 0 \<and> snd (ImportProxies env' parse content m') = m'"
    if "\<forall>n. \<not> aeFaults env n 0" "quiet_admin env'"
  proof -
    obtain r2 m2 where second: "runItems env' items (noImports, m') = (r2, m2)" by fastforce
    have "irImported r2 = irImported noImports \<and> m2 = m'"
      using runItems_refused [OF that(2) runItems_leaves_refused [OF assms(1) _ run] second] that(1) by blast
    then show ?thesis using second
      by (simp add: ImportProxies_def importLines_run split_beta noImports_def flip: items_def)
  qed
  have "if \<forall>l \<in> set (rawLines content). length l < 1048576
      then irImported res + irSkipped res = length (filter listedLine (map dropCR (rawLines content)))
      else irErrors res \<noteq> [] \<and> last (irErrors res) = ''bufio.Scanner: token too long''"
    using count scanImport_all stopped long by (auto simp: ErrTooLong_def)
  then show ?thesis
    using accounts res again count read by (simp add: noImports_def)
qed

lemma import_adds_up_witness:
  "length (proxies (snd (ImportProxies exampleAdmin exampleParse exampleList exampleManager))) = 3
   \<and> irImported (fst (ImportProxies exampleAdmin exampleParse exampleList
        (snd (ImportProxies exampleAdmin exampleParse exampleList exampleManager)))) = 0"
proof -
  have quiet: "quiet_admin exampleAdmin" by (simp add: quiet_admin_def exampleAdmin_def)
  let ?run = "ImportProxies exampleAdmin exampleParse exampleList exampleManager"
  have "rawLines exampleList = [''10.0.0.7:1080:u:p:w'', ''# spare'', ''nonsense'']" by code_simp
  then have scan: "scanImport exampleList = ([''10.0.0.7:1080:u:p:w'', ''# spare'', ''nonsense''], False)"
    by (simp add: scanImport_def ScanLines_def dropCR_def maxImportLine_def)
  have "irImported (fst (importLines exampleAdmin exampleParse 0 [''10.0.0.7:1080:u:p:w'', ''# spare'', ''nonsense'']
      (noImports, exampleManager))) = 1" "length (proxies exampleManager) = 2" by code_simp+
  then have "irImported (fst ?run) = 1" "length (proxies exampleManager) = 2"
    by (simp_all add: ImportProxies_def scan split_beta)
  then show ?thesis
    using import_adds_up [OF quiet, of exampleParse exampleList exampleManager "fst ?run" "snd ?run" exampleAdmin] quiet
    by (simp add: exampleAdmin_def)
qed

text \<open>What is behind a line that does not fit is lost without being counted, whatever it is.\<close>

lemma long_line_hides_rest:
  assumes "CHR 0x0A \<notin> set line" and "1048576 \<le> length line"
  shows "ImportProxies env parse (line @ CHR 0x0A # rest) m = (noImports\<lparr>irErrors := [''bufio.Scanner: token too long'']\<rparr>, m)"
proof -
  have "Split (line @ CHR 0x0A # rest) (CHR 0x0A) = line # Split rest (CHR 0x0A)"
    using assms(1) by (rule Split_append_sep)
  then have "rawLines (line @ CHR 0x0A # rest)
      = line # (if last (Split rest (CHR 0x0A)) = [] then butlast (Split rest (CHR 0x0A)) else Split rest (CHR 0x0A))"
    using Split_not_Nil [of rest "CHR 0x0A"] by (simp add: rawLines_def Let_def)
  then obtain ls where "rawLines (line @ CHR 0x0A # rest) = line # ls" ..
  then have "scanImport (line @ CHR 0x0A # rest) = ([], True)"
    using assms(2) by (simp add: scanImport_def ScanLines_def maxImportLine_def)
  then show ?thesis by (simp add: ImportProxies_def noImports_def ErrTooLong_def)
qed

text \<open>
  C38. A proxy line is read back. A line host, port, user name, password, joined by colons, yields these
  four fields, where the password may contain colons, whenever the host, the port and the user name
  contain none and the line does not look like a URL.
\<close>

theorem proxy_line_roundtrip:
  assumes "host \<noteq> []" and "CHR '':'' \<notin> set host" and "CHR '':'' \<notin> set username" and "0 \<le> port" and "port \<le> MaxInt64"
    and "\<not> Contains (Join [host, Itoa port, username, password] (CHR '':'')) ''://''"
  shows "parseProxyLine sha1 parseURL (Join [host, Itoa port, username, password] (CHR '':''))
    = Inr (proxyInput sha1 (JoinHostPort host (Itoa port)) username password)"
proof -
  have "CHR '':'' \<notin> set (Itoa port)" using Itoa_port_chars [OF assms(4)] by (simp add: port_chars_def)
  then have "Split (Join [host, Itoa port, username, password] (CHR '':'')) (CHR '':'')
      = host # Itoa port # username # Split password (CHR '':'')"
    using assms(2,3) by (simp add: Split_append_sep)
  moreover have "Itoa port \<noteq> []" using assms(4) by (simp add: Itoa_def Itoa_nat_not_Nil)
  moreover have "Atoi (Itoa port) = Some port" using assms(4,5) by (simp add: Atoi_Itoa)
  ultimately show ?thesis
    using assms(1,6) Split_not_Nil [of password "CHR '':''"] Join_Split [of password "CHR '':''"]
    by (cases "Split password (CHR '':'')") (auto simp: parseProxyLine_def Let_def)
qed

lemma proxy_line_roundtrip_witness:
  "parseProxyLine (\<lambda>_. [1, 2]) (\<lambda>_. Inl ErrEOF) ''10.0.0.7:1080:u:p:w'' = Inr (proxyInput (\<lambda>_. [1, 2]) (JoinHostPort ''10.0.0.7'' ''1080'') ''u'' ''p:w'')"
proof -
  have "Join [''10.0.0.7'', Itoa 1080, ''u'', ''p:w''] (CHR '':'') = ''10.0.0.7:1080:u:p:w''" "Itoa 1080 = ''1080''"
    "\<not> Contains ''10.0.0.7:1080:u:p:w'' ''://''" by code_simp+
  then show ?thesis
    using proxy_line_roundtrip [of "''10.0.0.7''" "''u''" 1080 "''p:w''" "\<lambda>_. [1, 2]" "\<lambda>_. Inl ErrEOF"] by (simp add: MaxInt64_def)
qed

text \<open>
  Deleting many proxies spares those in use. When nobody else interferes and the database does not
  fail, a batch deletion removes from the pool exactly the named proxies that are not in use, names
  being trimmed, and clearing the idle proxies removes no proxy in use.
\<close>

theorem batch_delete_spares_used:
  assumes "quiet_admin env" and "\<And>n k. \<not> aeFaults env n k"
  shows "get (proxies (snd (DeleteProxies env ids m))) pid =
      (case get (proxies m) pid of
         Some p \<Rightarrow> if pid \<noteq> [] \<and> pid \<in> TrimSpace ` set ids \<and> \<not> inUse p then None else Some p
       | None \<Rightarrow> None)
    \<and> (get (proxies m) pid = Some p \<and> inUse p \<longrightarrow> get (proxies (snd (ClearIdleProxies env m))) pid = Some p)"
proof -
  have "aeOthers env 0 m = m" using assms(1) by (simp add: quiet_admin_def)
  then show ?thesis
    by (auto simp: ClearIdleProxies_def DeleteProxies_def deleteEach_get [OF assms] uniqueStrings_def set_uniqueFrom
          split: option.split)
qed

lemma batch_delete_spares_used_witness:
  "get (proxies (snd (DeleteProxies exampleAdmin ['' p1 ''] exampleManager))) ''p1'' = None"
proof -
  have "TrimSpace '' p1 '' = ''p1''" by code_simp
  then show ?thesis
    using batch_delete_spares_used [of exampleAdmin "['' p1 '']" exampleManager "''p1''" undefined]
    by (auto simp: exampleAdmin_def quiet_admin_def exampleManager_def examplePoolProxy_def newPoolProxy_def inUse_def)
qed

text \<open>
  A subscription item without a port is not refused: the text of its missing port is taken as the port.
\<close>

lemma missing_port_is_imported:
  assumes "TrimSpace (piIP item) \<noteq> []" and "piPort item = missingPort"
  shows "\<exists>i. payloadInput sha1 item = Inr i \<and> inAddress i = JoinHostPort (TrimSpace (piIP item)) ''<nil>''"
  using assms by (simp add: payloadInput_def missingPort_def proxyInput_def Let_def)

end
