(* ===== verification/Restart.thy ===== *)
theory Restart
  imports ManagerMachine
begin

text \<open>
  internal/manager/manager.go, \<open>New\<close>: building the manager at start-up from the configuration and from
  what the database kept, and the read-only views of its state. \<open>url.Parse\<close> is an argument.
\<close>

section \<open>The environment of a start\<close>

text \<open>
  The two readings of the clock that decide (the second one is that of \<open>proxyHasActiveLeaseLocked\<close>), the
  error of the n-th query for rows, and the faults of the other database calls.
\<close>

record startEnv =
  seNow :: time
  seLater :: time
  seUpsert :: "nat \<Rightarrow> faults"
  seQuery :: "nat \<Rightarrow> goError option"
  seDeleteProxy :: "string \<Rightarrow> faults"
  seDeleteLease :: "string \<Rightarrow> faults"

text \<open>A result with the database that the run leaves, also when it fails.\<close>

type_synonym 'a started = "(goError + 'a) \<times> DB"

section \<open>The configured proxies\<close>

definition configuredRow :: "ProxyConfig \<Rightarrow> StoreProxy" where
  "configuredRow p = \<lparr>spID = pcID p, spAddress = pcAddress p, spUsername = pcUsername p,
     spPassword = pcPassword p, spDisabled = False, spCreatedAt = 0, spUpdatedAt = 0\<rparr>"

fun upsertConfigured :: "startEnv \<Rightarrow> nat \<Rightarrow> ProxyConfig list \<Rightarrow> Manager \<Rightarrow> goError option \<times> Manager" where
  "upsertConfigured env n [] m = (None, m)"
| "upsertConfigured env n (p # ps) m =
     (if frontAddressConflict m (pcAddress p)
      then (Some (ErrString (''proxy '' @ pcID p @ '' address must differ from front_proxy.address'')), m)
      else case UpsertProxy (seUpsert env n) (seNow env) (configuredRow p) (mDB m) of
        (Some err, db) \<Rightarrow> (Some err, m\<lparr>mDB := db\<rparr>)
      | (None, db) \<Rightarrow> upsertConfigured env (Suc n) ps (m\<lparr>mDB := db\<rparr>))"

section \<open>The stored proxies\<close>

definition restoredProxy :: "StoreProxy \<Rightarrow> DynamicProxy option \<Rightarrow> Proxy" where
  "restoredProxy p dynamic =
     (let q = \<lparr>pID = spID p, pAddress = spAddress p, pUsername = spUsername p, pPassword = spPassword p,
               pStatus = (if spDisabled p then ProxyDisabled else ProxyIdle), pClientIP = [], pDrainingFor = [],
               pActiveConns = 0, pFailureCount = 0, pSuccessCount = 0, pLastHealthDetail = [], pExitIP = [],
               pDisabled = spDisabled p, pSource = ProxySourcePool, pCountry = [], pDurationMinutes = 0,
               pProviderExpiresAt = 0\<rparr>
      in case dynamic of
           None \<Rightarrow> q
         | Some d \<Rightarrow> q\<lparr>pSource := ProxySourceAPI, pCountry := dpCountry d, pDurationMinutes := dpDurationMinutes d,
                       pProviderExpiresAt := dpProviderExpiresAt d\<rparr>)"

fun restoreProxies ::
    "startEnv \<Rightarrow> StoreProxy list \<Rightarrow> DynamicProxy table \<Rightarrow> Manager \<Rightarrow> goError option \<times> DynamicProxy table \<times> Manager" where
  "restoreProxies env [] dyn m = (None, dyn, m)"
| "restoreProxies env (p # ps) dyn m =
     (if frontAddressConflict m (spAddress p)
      then (Some (ErrString (''stored proxy '' @ spID p @ '' address must differ from front_proxy.address'')), dyn, m)
      else case get dyn (spID p) of
        Some d \<Rightarrow>
          if dpProviderExpiresAt d \<le> seNow env
          then restoreProxies env ps (del (spID p) dyn) (withDB (DBDeleteProxy (seDeleteProxy env (spID p)) (spID p)) m)
          else restoreProxies env ps (del (spID p) dyn)
                 (m\<lparr>proxies := put (spID p) (restoredProxy p (Some d)) (proxies m), proxyOrder := proxyOrder m @ [spID p]\<rparr>)
      | None \<Rightarrow>
          restoreProxies env ps dyn
            (m\<lparr>proxies := put (spID p) (restoredProxy p None) (proxies m), proxyOrder := proxyOrder m @ [spID p]\<rparr>))"

text \<open>Provider data without a proxy is dropped.\<close>

definition dropOrphans :: "startEnv \<Rightarrow> DynamicProxy table \<Rightarrow> Manager \<Rightarrow> Manager" where
  "dropOrphans env dyn m = fold (\<lambda>pid. withDB (DBDeleteProxy (seDeleteProxy env pid) pid)) (map fst dyn) m"

section \<open>The stored leases\<close>

definition leaseEnd :: "Proxy \<Rightarrow> StoreLease \<Rightarrow> time" where
  "leaseEnd p l =
     (if pSource p = ProxySourceAPI \<and> pProviderExpiresAt p < slExpiresAt l then pProviderExpiresAt p else slExpiresAt l)"

definition restoredLease :: "Proxy \<Rightarrow> StoreLease \<Rightarrow> LeaseView" where
  "restoredLease p l =
     \<lparr>lvClientIP = slClientIP l, lvProxyID = slProxyID l, lvStatus = LeaseActive, lvExpiresAt = leaseEnd p l,
      lvQueuedAt = 0, lvMode = (if pSource p = ProxySourceAPI then Some ProxySourceAPI else None),
      lvCountry = (if pSource p = ProxySourceAPI then pCountry p else []),
      lvDurationMinutes = (if pSource p = ProxySourceAPI then pDurationMinutes p else 0)\<rparr>"

definition restoreLease :: "startEnv \<Rightarrow> StoreLease \<Rightarrow> Manager \<Rightarrow> Manager" where
  "restoreLease env l m =
     (let drop = withDB (DeleteLease (seDeleteLease env (slClientIP l)) (slClientIP l)) m in
      case get (proxies m) (slProxyID l) of
        None \<Rightarrow> drop
      | Some p \<Rightarrow>
          if slExpiresAt l < seNow env \<or> leaseEnd p l \<le> seNow env then drop
          else m\<lparr>proxies := put (slProxyID l) (p\<lparr>pStatus := ProxyActive, pClientIP := slClientIP l\<rparr>) (proxies m),
                 leases := put (slClientIP l) (restoredLease p l) (leases m)\<rparr>)"

text \<open>Rented proxies that nobody holds are dropped.\<close>

definition dropUnleased :: "startEnv \<Rightarrow> string \<Rightarrow> Manager \<Rightarrow> Manager" where
  "dropUnleased env pid m =
     (case get (proxies m) pid of
        None \<Rightarrow> m
      | Some p \<Rightarrow> if pSource p = ProxySourceAPI \<and> \<not> proxyHasActiveLease (seLater env) pid m
                  then withDB (DBDeleteProxy (seDeleteProxy env pid) pid) (removeProxy pid m) else m)"

section \<open>The constructor\<close>

definition dynamicByID :: "DynamicProxy list \<Rightarrow> DynamicProxy table" where
  "dynamicByID ds = fold (\<lambda>d. put (dpProxyID d) d) ds []"

definition restoreState :: "startEnv \<Rightarrow> Manager \<Rightarrow> goError option \<times> Manager" where
  "restoreState env m =
     (case seQuery env 0 of
        Some err \<Rightarrow> (Some err, m)
      | None \<Rightarrow>
      (case seQuery env 1 of
        Some err \<Rightarrow> (Some err, m)
      | None \<Rightarrow>
        (case restoreProxies env (ListProxies (mDB m)) (dynamicByID (ListDynamicProxies (mDB m))) m of
           (Some err, _, m) \<Rightarrow> (Some err, m)
         | (None, dyn, m) \<Rightarrow>
             let m = dropOrphans env dyn m in
             (case seQuery env 2 of
                Some err \<Rightarrow> (Some err, m)
              | None \<Rightarrow>
                  let m = fold (restoreLease env) (ListLeases (mDB m)) m
                  in (None, fold (dropUnleased env) (proxyOrder m) m)))))"

definition New ::
    "startEnv \<Rightarrow> (string \<Rightarrow> URL option) \<Rightarrow> Config \<Rightarrow> DB \<Rightarrow> (Manager \<times> ProxyAPIState \<times> FakeIPStore) started" where
  "New env parseURL cfg db =
     (case newConnector (cfgFrontProxy cfg) (dnsUpstream (cfgDNS cfg)) of
        Inl err \<Rightarrow> (Inl err, db)
      | Inr c \<Rightarrow>
      (case newClient parseURL (cfgProxyAPI cfg) (cfgFrontProxy cfg) of
        Inl err \<Rightarrow> (Inl err, db)
      | Inr client \<Rightarrow>
      (case NewFakeIPStore (dnsFakeIPCIDR (cfgDNS cfg)) of
        Inl err \<Rightarrow> (Inl err, db)
      | Inr fake \<Rightarrow>
      (case upsertConfigured env 0 (cfgProxies cfg) (blankManager cfg db c) of
        (Some err, m) \<Rightarrow> (Inl err, mDB m)
      | (None, m) \<Rightarrow>
      (case restoreState env m of
        (Some err, m) \<Rightarrow> (Inl err, mDB m)
      | (None, m) \<Rightarrow> (Inr (m, \<lparr>papiConfig = cfgProxyAPI cfg, papiClient = Some client\<rparr>, fake), mDB m))))))"

text \<open>\<open>Start\<close> launches the background loops; the goroutine that it adds stops the queue with the context.\<close>

section \<open>Views\<close>

record ClientView =
  cvClientIP :: string
  cvStatus :: leaseStatus
  cvProxyID :: string
  cvProxyAddress :: string
  cvExitIP :: string
  cvActiveConnections :: int
  cvExpiresAt :: time
  cvQueued :: bool
  cvMode :: "proxySource option"
  cvCountry :: string
  cvDurationMinutes :: int

definition waitingView :: "string \<Rightarrow> ClientView" where
  "waitingView ip = \<lparr>cvClientIP = ip, cvStatus = LeasePending, cvProxyID = [], cvProxyAddress = [], cvExitIP = [],
     cvActiveConnections = 0, cvExpiresAt = 0, cvQueued = True, cvMode = None, cvCountry = [], cvDurationMinutes = 0\<rparr>"

definition clientConnectionCount :: "string \<Rightarrow> Manager \<Rightarrow> int" where
  "clientConnectionCount ip m =
     sum_list (map (\<lambda>pid. case get (proxies m) pid of
        None \<Rightarrow> 0
      | Some p \<Rightarrow> if pClientIP p = ip \<or> pDrainingFor p = ip then pActiveConns p else 0) (proxyOrder m))"

definition leaseClientView :: "Manager \<Rightarrow> string \<times> LeaseView \<Rightarrow> ClientView" where
  "leaseClientView m entry =
     (case entry of (ip, l) \<Rightarrow>
        let queued = (ip \<in> set (pendingRefs m)); p = get (proxies m) (lvProxyID l) in
        \<lparr>cvClientIP = ip, cvStatus = (if queued then LeasePending else lvStatus l), cvProxyID = lvProxyID l,
         cvProxyAddress = (case p of None \<Rightarrow> [] | Some p \<Rightarrow> pAddress p),
         cvExitIP = (case p of None \<Rightarrow> [] | Some p \<Rightarrow> pExitIP p),
         cvActiveConnections = clientConnectionCount ip m, cvExpiresAt = lvExpiresAt l, cvQueued = queued,
         cvMode = lvMode l, cvCountry = lvCountry l, cvDurationMinutes = lvDurationMinutes l\<rparr>)"

definition clientViews :: "Manager \<Rightarrow> ClientView list" where
  "clientViews m =
     sort_key cvClientIP
       (map waitingView (pendingNew m) @ map (leaseClientView m) (leases m)
        @ map waitingView (filter (\<lambda>ip. ip \<notin> set (pendingNew m) \<and> get (leases m) ip = None) (pendingRefs m)))"

record StatusReport =
  stProxies :: "Proxy list"
  stClients :: "ClientView list"
  stLeases :: "LeaseView list"
  stPendingNew :: "string list"
  stPendingRefresh :: "string list"
  stFrontProxy :: FrontStatus

definition Status :: "Manager \<Rightarrow> StatusReport" where
  "Status m = \<lparr>stProxies = List.map_filter (get (proxies m)) (proxyOrder m), stClients = clientViews m,
     stLeases = map snd (leases m), stPendingNew = pendingNew m, stPendingRefresh = pendingRefs m,
     stFrontProxy = FrontStatusOf (Some (connector m))\<rparr>"

section \<open>Testing the front proxy\<close>

record FrontProxyTestResult =
  ftOK :: bool
  ftCode :: string
  ftStatus :: FrontStatus

text \<open>The caller's context has ended when the connection attempt failed: \<open>stopped\<close>.\<close>

definition frontTestTarget :: "Config \<Rightarrow> string" where
  "frontTestTarget cfg = JoinHostPort (hcTargetHost (cfgHealthCheck cfg)) (Itoa (hcTargetPort (cfgHealthCheck cfg)))"

definition TestFrontProxy :: "connectEnv \<Rightarrow> bool \<Rightarrow> Manager \<Rightarrow> FrontProxyTestResult \<times> Manager" where
  "TestFrontProxy env stopped m =
     (let st = FrontStatusOf (Some (connector m)) in
      if \<not> fsEnabled st then (\<lparr>ftOK = False, ftCode = ''disabled'', ftStatus = st\<rparr>, m)
      else case ConnectFront env (Some (connector m)) (frontTestTarget (mCfg m)) of
        (r, mc, _) \<Rightarrow>
          let m = (case mc of Some c \<Rightarrow> m\<lparr>connector := c\<rparr> | None \<Rightarrow> m); st = FrontStatusOf mc in
          (case r of
             Inr _ \<Rightarrow> (\<lparr>ftOK = True, ftCode = ''healthy'', ftStatus = st\<rparr>, m)
           | Inl _ \<Rightarrow> (\<lparr>ftOK = False, ftCode = (if stopped then ''canceled'' else ''unhealthy''), ftStatus = st\<rparr>, m)))"

section \<open>What the steps of a start keep\<close>

lemma withDB_fields [simp]:
  "leases (withDB g m) = leases m" "proxies (withDB g m) = proxies m" "conns (withDB g m) = conns m"
  "proxyOrder (withDB g m) = proxyOrder m" "connector (withDB g m) = connector m" "mDB (withDB g m) = snd (g (mDB m))"
  by (simp_all add: withDB_def)

text \<open>The statements of a start never touch the lease rows, apart from deleting some of them.\<close>

lemma transact_keeps:
  assumes "\<And>stmt db. stmt \<in> set stmts \<Longrightarrow> P (stmt db) = P db"
  shows "P (snd (transact f stmts db)) = P db"
proof -
  have "P (fold (\<lambda>g. g) stmts db) = P db" using assms by (induction stmts arbitrary: db) auto
  then show ?thesis by (auto simp: transact_def split: option.split dest: runStatements_Some)
qed

lemma DBDeleteProxy_leases [simp]: "dbLeases (snd (DBDeleteProxy f pid db)) = dbLeases db"
  unfolding DBDeleteProxy_def by (rule transact_keeps) (auto simp: deleteDynamicRow_def deleteProxyRow_def)

lemma insertProxy_rows [simp]:
  "dbLeases (insertProxy t p db) = dbLeases db" "dbDynamic (insertProxy t p db) = dbDynamic db"
  by (simp_all add: insertProxy_def split: option.split)

lemma UpsertProxy_db_ok: "db_ok db \<Longrightarrow> db_ok (snd (UpsertProxy f t p db))"
  by (auto simp: UpsertProxy_def exec_def db_ok_def insertProxy_def split: option.split if_splits)

lemma upsertConfigured_keeps:
  assumes "upsertConfigured env n ps m = (e, m')" and "db_ok (mDB m)"
  shows "db_ok (mDB m') \<and> m' = m\<lparr>mDB := mDB m'\<rparr> \<and> dbLeases (mDB m') = dbLeases (mDB m)
    \<and> dbDynamic (mDB m') = dbDynamic (mDB m) \<and> dom (get (dbProxies (mDB m))) \<subseteq> dom (get (dbProxies (mDB m')))"
  using assms
proof (induction env n ps m rule: upsertConfigured.induct)
  case (2 env n p ps m)
  obtain e1 db1 where up: "UpsertProxy (seUpsert env n) (seNow env) (configuredRow p) (mDB m) = (e1, db1)" by fastforce
  then have db1: "db1 = mDB m \<or> db1 = insertProxy (seNow env) (configuredRow p) (mDB m)"
    by (auto simp: UpsertProxy_def exec_def split: if_splits)
  then have rows: "dbLeases db1 = dbLeases (mDB m)" "dbDynamic db1 = dbDynamic (mDB m)"
    "dom (get (dbProxies (mDB m))) \<subseteq> dom (get (dbProxies db1))"
    by (auto simp: insertProxy_def split: option.split)
  have ok: "db_ok db1" using UpsertProxy_db_ok [OF 2(3)] up by (metis snd_conv)
  show ?case
  proof (cases "frontAddressConflict m (pcAddress p)")
    case False
    show ?thesis
    proof (cases e1)
      case None
      have "upsertConfigured env (Suc n) ps (m\<lparr>mDB := db1\<rparr>) = (e, m')" using 2(2) False up None by simp
      from 2(1) [OF False up [symmetric] None this] ok rows show ?thesis by fastforce
    qed (use 2(2) False up ok rows in auto)
  qed (use 2(2,3) in auto)
qed auto

lemma appendProxy_inv:
  assumes "mgr_inv B now m" and "get (proxies m) pid = None" and "pID p = pid" and "pActiveConns p = 0"
    and "pStatus p \<noteq> ProxyChecking"
  shows "mgr_inv B now (m\<lparr>proxies := put pid p (proxies m), proxyOrder := proxyOrder m @ [pid]\<rparr>)"
proof -
  have "exclusive now (leases m) (put pid p (proxies m))"
    by (rule exclusive_mono [OF mgr_invD(7) [OF assms(1)]]) (use assms(5) in \<open>auto split: if_splits\<close>)
  moreover have "proxies_ok B (put pid p (proxies m)) (proxyOrder m @ [pid])"
    using mgr_invD(1) [OF assms(1)] assms(2-4) by (auto simp: proxies_ok_def)
  ultimately show ?thesis using assms by (simp add: mgr_inv_def)
qed

lemma restoredProxy_simps [simp]:
  "pID (restoredProxy p d) = spID p" "pActiveConns (restoredProxy p d) = 0" "pStatus (restoredProxy p d) \<noteq> ProxyChecking"
  by (simp_all add: restoredProxy_def Let_def split: option.split)

text \<open>The proxy that a stored row becomes.\<close>

definition storedProxy :: "startEnv \<Rightarrow> DynamicProxy option \<Rightarrow> StoreProxy \<Rightarrow> Proxy option" where
  "storedProxy env dynamic p =
     (case dynamic of
        Some d \<Rightarrow> if dpProviderExpiresAt d \<le> seNow env then None else Some (restoredProxy p (Some d))
      | None \<Rightarrow> Some (restoredProxy p None))"

lemma restoreProxies_result:
  assumes "restoreProxies env ps dyn m = (e, dyn', m')" and "mgr_inv B t m" and "distinct (map spID ps)"
    and "\<forall>p \<in> set ps. get (proxies m) (spID p) = None"
  shows "mgr_inv B t m' \<and> leases m' = leases m \<and> conns m' = conns m \<and> dbLeases (mDB m') = dbLeases (mDB m)
    \<and> (\<forall>k. k \<notin> spID ` set ps \<longrightarrow> get (proxies m') k = get (proxies m) k)
    \<and> (e = None \<longrightarrow> (\<forall>p \<in> set ps. get (proxies m') (spID p) = storedProxy env (get dyn (spID p)) p))"
  using assms
proof (induction ps arbitrary: dyn m)
  case (Cons p ps)
  show ?case
  proof (cases "frontAddressConflict m (spAddress p)")
    case False
    define skip where "skip = (\<exists>d. get dyn (spID p) = Some d \<and> dpProviderExpiresAt d \<le> seNow env)"
    define m1 where "m1 = (if skip then withDB (DBDeleteProxy (seDeleteProxy env (spID p)) (spID p)) m
      else m\<lparr>proxies := put (spID p) (restoredProxy p (get dyn (spID p))) (proxies m), proxyOrder := proxyOrder m @ [spID p]\<rparr>)"
    obtain dyn1 where rest: "restoreProxies env ps dyn1 m1 = (e, dyn', m')" and dyn1: "\<forall>q \<in> set ps. get dyn1 (spID q) = get dyn (spID q)"
    proof (cases "get dyn (spID p)")
      case None
      then show ?thesis using that [of dyn] Cons.prems(1) False by (simp add: m1_def skip_def)
    next
      case (Some d)
      have "restoreProxies env ps (del (spID p) dyn) m1 = (e, dyn', m')"
        using Cons.prems(1) False Some by (cases "dpProviderExpiresAt d \<le> seNow env") (simp_all add: m1_def skip_def)
      moreover have "\<forall>q \<in> set ps. get (del (spID p) dyn) (spID q) = get dyn (spID q)"
        using Cons.prems(3) by (auto simp: image_iff)
      ultimately show ?thesis by (rule that)
    qed
    have inv1: "mgr_inv B t m1"
      using Cons.prems(2,4) by (auto simp: m1_def intro!: appendProxy_inv)
    have new: "\<forall>q \<in> set ps. get (proxies m1) (spID q) = None"
      using Cons.prems(3,4) by (auto simp: m1_def image_iff)
    have here: "get (proxies m1) (spID p) = storedProxy env (get dyn (spID p)) p"
      using Cons.prems(4) by (auto simp: m1_def skip_def storedProxy_def split: option.split)
    note IH = Cons.IH [OF rest inv1 _ new]
    have "get (proxies m') (spID p) = get (proxies m1) (spID p)" using IH Cons.prems(3) by auto
    then show ?thesis using IH Cons.prems(3) here dyn1 by (auto simp: m1_def)
  qed (use Cons.prems in auto)
qed auto


text \<open>The lease rows are taken in one after the other.\<close>

definition inForce :: "startEnv \<Rightarrow> Proxy \<Rightarrow> StoreLease \<Rightarrow> bool" where
  "inForce env p l \<longleftrightarrow> \<not> (slExpiresAt l < seNow env \<or> leaseEnd p l \<le> seNow env)"

definition leasedFor :: "string \<Rightarrow> Proxy \<Rightarrow> Proxy" where
  "leasedFor ip p = p\<lparr>pStatus := ProxyActive, pClientIP := ip\<rparr>"

lemma restoreLease_cases:
  obtains (restored) p where "get (proxies m) (slProxyID l) = Some p" "inForce env p l"
      "restoreLease env l m = m\<lparr>proxies := put (slProxyID l) (leasedFor (slClientIP l) p) (proxies m),
         leases := put (slClientIP l) (restoredLease p l) (leases m)\<rparr>"
  | (dropped) "restoreLease env l m = withDB (DeleteLease (seDeleteLease env (slClientIP l)) (slClientIP l)) m"
      "\<And>p. get (proxies m) (slProxyID l) = Some p \<Longrightarrow> \<not> inForce env p l"
proof (cases "\<exists>p. get (proxies m) (slProxyID l) = Some p \<and> inForce env p l")
  case True
  then show ?thesis using restored by (auto simp: restoreLease_def inForce_def leasedFor_def Let_def)
next
  case False
  then show ?thesis using dropped by (auto simp: restoreLease_def inForce_def Let_def split: option.split)
qed

lemma restoreLease_inv:
  assumes "mgr_inv B t m" and "\<And>c x. get (leases m) c = Some x \<Longrightarrow> lvProxyID x \<noteq> slProxyID l"
  shows "mgr_inv B t (restoreLease env l m) \<and> conns (restoreLease env l m) = conns m"
proof (cases rule: restoreLease_cases [of m l env, case_names restored dropped])
  case (restored p)
  let ?p = "leasedFor (slClientIP l) p"
  have put: "mgr_inv B t (m\<lparr>proxies := put (slProxyID l) ?p (proxies m)\<rparr>)"
    by (rule put_proxy_inv [OF assms(1) restored(1)])
       (use mgr_inv_proxy [OF assms(1) restored(1)] in \<open>simp_all add: leasedFor_def\<close>)
  have "mgr_inv B t (m\<lparr>proxies := put (slProxyID l) ?p (proxies m)\<rparr>
      \<lparr>leases := put (slClientIP l) (restoredLease p l) (leases (m\<lparr>proxies := put (slProxyID l) ?p (proxies m)\<rparr>))\<rparr>)"
    by (rule put_lease_inv [OF put])
       (use assms(2) in \<open>auto simp: restoredLease_def held_def holdsLease_def leasedFor_def\<close>)
  then show ?thesis by (simp add: restored(3))
next
  case dropped
  then show ?thesis using assms(1) by simp
qed

lemma restoreLease_gets:
  "c \<noteq> slClientIP l \<Longrightarrow> get (leases (restoreLease env l m)) c = get (leases m) c"
  "k \<noteq> slProxyID l \<Longrightarrow> get (proxies (restoreLease env l m)) k = get (proxies m) k"
  by (cases rule: restoreLease_cases [of m l env, case_names restored dropped]; simp)+

lemma restoreLeases_inv:
  assumes "mgr_inv B t m" and "distinct (map slProxyID ls)"
    and "\<forall>l \<in> set ls. \<forall>c x. get (leases m) c = Some x \<longrightarrow> lvProxyID x \<noteq> slProxyID l"
  shows "mgr_inv B t (fold (restoreLease env) ls m) \<and> conns (fold (restoreLease env) ls m) = conns m"
  using assms
proof (induction ls arbitrary: m)
  case (Cons l ls)
  have inv: "mgr_inv B t (restoreLease env l m)" "conns (restoreLease env l m) = conns m"
    using restoreLease_inv Cons.prems(1,3) by fastforce+
  have "\<forall>l' \<in> set ls. \<forall>c x. get (leases (restoreLease env l m)) c = Some x \<longrightarrow> lvProxyID x \<noteq> slProxyID l'"
    using Cons.prems(2,3)
    by (cases rule: restoreLease_cases [of m l env, case_names restored dropped])
       (auto simp: restoredLease_def image_iff split: if_splits)
  with Cons.IH [OF inv(1)] inv(2) Cons.prems(2) show ?case by simp
qed simp

lemma fold_restoreLease_gets:
  "c \<notin> slClientIP ` set ls \<Longrightarrow> get (leases (fold (restoreLease env) ls m)) c = get (leases m) c"
  "k \<notin> slProxyID ` set ls \<Longrightarrow> get (proxies (fold (restoreLease env) ls m)) k = get (proxies m) k"
  by (induction ls arbitrary: m) (simp_all add: restoreLease_gets)

lemma dropUnleased_keeps:
  "mgr_inv B t m \<Longrightarrow> mgr_inv B t (dropUnleased env pid m)"
  "leases (dropUnleased env pid m) = leases m" "conns (dropUnleased env pid m) = conns m"
  using removeProxy_inv [of B t m pid] by (auto simp: dropUnleased_def removeProxy_def split: option.split)

lemma fold_dropUnleased:
  "leases (fold (dropUnleased env) ids m) = leases m \<and> conns (fold (dropUnleased env) ids m) = conns m
    \<and> (mgr_inv B t m \<longrightarrow> mgr_inv B t (fold (dropUnleased env) ids m))"
  by (induction ids arbitrary: m) (simp_all add: dropUnleased_keeps)

lemma dropOrphans_keeps [simp]:
  "mgr_inv B t (dropOrphans env dyn m) = mgr_inv B t m" "leases (dropOrphans env dyn m) = leases m"
  "conns (dropOrphans env dyn m) = conns m" "proxies (dropOrphans env dyn m) = proxies m"
  "dbLeases (mDB (dropOrphans env dyn m)) = dbLeases (mDB m)"
  unfolding dropOrphans_def by (induction dyn arbitrary: m) simp_all

text \<open>A table whose rows carry their key.\<close>

lemma table_rows:
  assumes "keys_ok t" and "\<forall>k v. get t k = Some v \<longrightarrow> f v = k"
  shows "map f (map snd t) = map fst t" "v \<in> set (map snd t) \<longleftrightarrow> get t (f v) = Some v"
proof -
  have "\<forall>(k, v) \<in> set t. f v = k" using assms set_get by fast
  then show "map f (map snd t) = map fst t" by auto
  show "v \<in> set (map snd t) \<longleftrightarrow> get t (f v) = Some v"
    using assms by (force simp: set_get [symmetric] image_iff)
qed

lemma get_dynamicByID:
  assumes "db_ok db"
  shows "get (dynamicByID (ListDynamicProxies db)) k = get (dbDynamic db) k"
proof -
  have put: "get (fold (\<lambda>d. put (dpProxyID d) d) (map snd ds) t) k = (case get ds k of Some d \<Rightarrow> Some d | None \<Rightarrow> get t k)"
    if "distinct (map fst ds)" "map dpProxyID (map snd ds) = map fst ds" for ds t
    using that
  proof (induction ds arbitrary: t)
    case (Cons x ds)
    obtain j d where x: "x = (j, d)" by fastforce
    have "get ds j = None" using Cons.prems(1) x by (simp add: map_of_eq_None_iff)
    then show ?case using Cons.IH [of "put (dpProxyID d) d t"] Cons.prems x by (auto split: option.split)
  qed simp
  have "keys_ok (dbDynamic db)" "map dpProxyID (map snd (dbDynamic db)) = map fst (dbDynamic db)"
    using assms table_rows(1) by (auto simp: db_ok_def simp del: map_map)
  then show ?thesis using put [of "dbDynamic db" "[]"]
    by (simp add: dynamicByID_def ListDynamicProxies_def keys_ok_def del: map_map split: option.splits)
qed

lemma ListProxies_rows:
  assumes "db_ok db"
  shows "distinct (map spID (ListProxies db))" "p \<in> set (ListProxies db) \<longleftrightarrow> get (dbProxies db) (spID p) = Some p"
proof -
  have ok: "keys_ok (dbProxies db)" "\<forall>k p. get (dbProxies db) k = Some p \<longrightarrow> spID p = k" using assms by (auto simp: db_ok_def)
  have "mset (map spID (ListProxies db)) = mset (map spID (map snd (dbProxies db)))"
    by (simp add: ListProxies_def multiset.map_comp)
  then show "distinct (map spID (ListProxies db))"
    unfolding table_rows(1) [OF ok] using ok(1) mset_eq_imp_distinct_iff keys_ok_def by blast
  show "p \<in> set (ListProxies db) \<longleftrightarrow> get (dbProxies db) (spID p) = Some p"
    using table_rows(2) [OF ok, of p] by (simp add: ListProxies_def)
qed

lemma ListLeases_rows:
  assumes "db_ok db"
  shows "distinct (map slClientIP (ListLeases db))" "l \<in> set (ListLeases db) \<longleftrightarrow> get (dbLeases db) (slClientIP l) = Some l"
proof -
  have ok: "keys_ok (dbLeases db)" "\<forall>k l. get (dbLeases db) k = Some l \<longrightarrow> slClientIP l = k" using assms by (auto simp: db_ok_def)
  show "distinct (map slClientIP (ListLeases db))"
    unfolding ListLeases_def table_rows(1) [OF ok] using ok(1) by (simp add: keys_ok_def)
  show "l \<in> set (ListLeases db) \<longleftrightarrow> get (dbLeases db) (slClientIP l) = Some l"
    unfolding ListLeases_def by (rule table_rows(2) [OF ok])
qed

section \<open>What becomes of the stored proxies\<close>

lemma upsertConfigured_rows:
  assumes "upsertConfigured env n ps m = (None, m')"
  shows "dom (get (dbProxies (mDB m'))) = dom (get (dbProxies (mDB m))) \<union> pcID ` set ps"
  using assms
proof (induction env n ps m rule: upsertConfigured.induct)
  case (2 env n p ps m)
  obtain e1 db1 where up: "UpsertProxy (seUpsert env n) (seNow env) (configuredRow p) (mDB m) = (e1, db1)" by fastforce
  with 2(2) have none: "\<not> frontAddressConflict m (pcAddress p)" "e1 = None"
    "upsertConfigured env (Suc n) ps (m\<lparr>mDB := db1\<rparr>) = (None, m')"
    by (auto split: if_splits option.splits)
  with up have "db1 = insertProxy (seNow env) (configuredRow p) (mDB m)"
    by (auto simp: UpsertProxy_def exec_def split: if_splits)
  then have "dom (get (dbProxies db1)) = insert (pcID p) (dom (get (dbProxies (mDB m))))"
    by (simp add: insertProxy_def configuredRow_def split: option.split)
  with 2(1) [OF none(1) up [symmetric] none(2,3)] show ?case by simp
qed simp

text \<open>A proxy is gone from the database when neither its row nor that of the provider is left.\<close>

definition gone :: "string \<Rightarrow> DB \<Rightarrow> bool" where
  "gone pid db \<longleftrightarrow> get (dbProxies db) pid = None \<and> get (dbDynamic db) pid = None"

lemma DBDeleteProxy_result:
  "snd (DBDeleteProxy f pid db) = db \<or> snd (DBDeleteProxy f pid db) = deleteProxyRow pid (deleteDynamicRow pid db)"
  by (auto simp: DBDeleteProxy_def transact_def split: option.split dest: runStatements_Some)

lemma gone_kept [simp]:
  "gone pid db \<Longrightarrow> gone pid (snd (DBDeleteProxy f k db))" "gone pid (snd (DeleteLease g ip db)) = gone pid db"
proof -
  show "gone pid db \<Longrightarrow> gone pid (snd (DBDeleteProxy f k db))"
    using DBDeleteProxy_result [of f k db] by (auto simp: gone_def deleteProxyRow_def deleteDynamicRow_def)
  show "gone pid (snd (DeleteLease g ip db)) = gone pid db"
    by (simp add: gone_def DeleteLease_def exec_def deleteLeaseRow_def)
qed

lemma DBDeleteProxy_gone:
  assumes "\<And>k. \<not> f k"
  shows "gone pid (snd (DBDeleteProxy f pid db))"
  using assms by (simp add: DBDeleteProxy_def transact_def gone_def deleteProxyRow_def deleteDynamicRow_def)

lemma gone_fold:
  assumes "\<And>x m. gone pid (mDB m) \<Longrightarrow> gone pid (mDB (f x m))" and "gone pid (mDB m)"
  shows "gone pid (mDB (fold f xs m))"
  using assms(2) by (induction xs arbitrary: m) (auto intro: assms(1))

lemma restoreProxies_gone:
  "restoreProxies env ps dyn m = (e, dyn', m') \<Longrightarrow> gone pid (mDB m) \<Longrightarrow> gone pid (mDB m')"
  by (induction env ps dyn m rule: restoreProxies.induct) (auto split: if_splits option.splits)

lemma restoreProxies_dynamic:
  assumes "restoreProxies env ps dyn m = (None, dyn', m')"
  shows "get dyn' k = (if k \<in> spID ` set ps then None else get dyn k)
    \<and> (\<forall>d. get dyn k = Some d \<longrightarrow> dpProviderExpiresAt d \<le> seNow env \<longrightarrow> k \<in> spID ` set ps \<longrightarrow>
         (\<forall>j. \<not> seDeleteProxy env k j) \<longrightarrow> gone k (mDB m'))"
  using assms
proof (induction env ps dyn m rule: restoreProxies.induct)
  case (2 env p ps dyn m)
  have free: "\<not> frontAddressConflict m (spAddress p)" using 2(4) by (auto split: if_splits)
  show ?case
  proof (cases "get dyn (spID p)")
    case None
    with 2(4) free have "restoreProxies env ps dyn
        (m\<lparr>proxies := put (spID p) (restoredProxy p None) (proxies m), proxyOrder := proxyOrder m @ [spID p]\<rparr>) = (None, dyn', m')"
      by simp
    from 2(1) [OF free None this] None show ?thesis by auto
  next
    case (Some d)
    show ?thesis
    proof (cases "dpProviderExpiresAt d \<le> seNow env")
      case True
      let ?m = "withDB (DBDeleteProxy (seDeleteProxy env (spID p)) (spID p)) m"
      have run: "restoreProxies env ps (del (spID p) dyn) ?m = (None, dyn', m')"
        using 2(4) free Some True by simp
      have "gone (spID p) (mDB m')" if "\<forall>j. \<not> seDeleteProxy env (spID p) j"
        using restoreProxies_gone [OF run, of "spID p"] DBDeleteProxy_gone that by simp
      with 2(2) [OF free Some True run] show ?thesis by (cases "k = spID p") auto
    next
      case False
      with 2(4) free Some have "restoreProxies env ps (del (spID p) dyn)
          (m\<lparr>proxies := put (spID p) (restoredProxy p (Some d)) (proxies m), proxyOrder := proxyOrder m @ [spID p]\<rparr>) = (None, dyn', m')"
        by simp
      from 2(3) [OF free Some False this] Some False show ?thesis by (cases "k = spID p") auto
    qed
  qed
qed simp

lemma dropOrphans_gone:
  "gone pid (mDB m) \<Longrightarrow> gone pid (mDB (dropOrphans env dyn m))"
  "pid \<in> fst ` set dyn \<Longrightarrow> (\<forall>j. \<not> seDeleteProxy env pid j) \<Longrightarrow> gone pid (mDB (dropOrphans env dyn m))"
proof -
  show kept: "gone pid (mDB (dropOrphans env dyn m))" if "gone pid (mDB m)" for dyn m
    unfolding dropOrphans_def using that by (rule gone_fold [rotated]) simp
  show "pid \<in> fst ` set dyn \<Longrightarrow> (\<forall>j. \<not> seDeleteProxy env pid j) \<Longrightarrow> gone pid (mDB (dropOrphans env dyn m))"
  proof (induction dyn arbitrary: m)
    case (Cons x dyn)
    let ?m = "withDB (DBDeleteProxy (seDeleteProxy env (fst x)) (fst x)) m"
    have step: "dropOrphans env (x # dyn) m = dropOrphans env dyn ?m" by (simp add: dropOrphans_def)
    show ?case
    proof (cases "fst x = pid")
      case True
      then have "gone pid (mDB ?m)" using Cons.prems(2) DBDeleteProxy_gone by simp
      then show ?thesis unfolding step by (rule kept)
    qed (use Cons step in auto)
  qed simp
qed

lemma restoreLease_gone: "gone pid (mDB m) \<Longrightarrow> gone pid (mDB (restoreLease env l m))"
  by (simp add: restoreLease_def Let_def split: option.split)

lemma restoreLeases_source:
  "map_option pSource (get (proxies (fold (restoreLease env) ls m)) k) = map_option pSource (get (proxies m) k)"
proof -
  have "map_option pSource (get (proxies (restoreLease env l m)) k) = map_option pSource (get (proxies m) k)" for l m
    by (cases rule: restoreLease_cases [of m l env, case_names restored dropped]) (auto simp: leasedFor_def)
  then show ?thesis by (induction ls arbitrary: m) simp_all
qed

text \<open>The loop over the rented proxies: it drops exactly those that nobody holds.\<close>

definition idleRental :: "startEnv \<Rightarrow> Manager \<Rightarrow> string \<Rightarrow> bool" where
  "idleRental env m k \<longleftrightarrow>
     (\<exists>p. get (proxies m) k = Some p \<and> pSource p = ProxySourceAPI) \<and> \<not> proxyHasActiveLease (seLater env) k m"

lemma dropUnleased_result:
  "dropUnleased env k m = (if idleRental env m k
     then withDB (DBDeleteProxy (seDeleteProxy env k) k) (removeProxy k m) else m)"
  by (auto simp: dropUnleased_def idleRental_def split: option.split)

lemma proxyHasActiveLease_cong: "leases m' = leases m \<Longrightarrow> proxyHasActiveLease t k m' = proxyHasActiveLease t k m"
  by (simp add: proxyHasActiveLease_def)

lemma dropUnleased_loop:
  "get (proxies (fold (dropUnleased env) ids m)) k = (if k \<in> set ids \<and> idleRental env m k then None else get (proxies m) k)
   \<and> (gone k (mDB m) \<or> k \<in> set ids \<and> idleRental env m k \<and> (\<forall>j. \<not> seDeleteProxy env k j)
        \<longrightarrow> gone k (mDB (fold (dropUnleased env) ids m)))"
proof (induction ids arbitrary: m)
  case (Cons i ids)
  let ?m = "dropUnleased env i m"
  have leases: "leases ?m = leases m" by (rule dropUnleased_keeps)
  have proxies: "get (proxies ?m) k = (if k = i \<and> idleRental env m k then None else get (proxies m) k)"
    by (auto simp: dropUnleased_result removeProxy_def)
  then have idle: "idleRental env ?m k = (idleRental env m k \<and> k \<noteq> i)"
    using proxyHasActiveLease_cong [OF leases] by (auto simp: idleRental_def)
  have kept: "gone k (mDB m) \<Longrightarrow> gone k (mDB ?m)"
    by (simp add: dropUnleased_result removeProxy_def)
  have dropped: "k = i \<Longrightarrow> idleRental env m k \<Longrightarrow> \<forall>j. \<not> seDeleteProxy env k j \<Longrightarrow> gone k (mDB ?m)"
    by (simp add: dropUnleased_result DBDeleteProxy_gone)
  show ?case
    using Cons.IH [of ?m] proxies idle kept dropped by auto
qed simp


lemma restoreLeases_exact:
  assumes "distinct (map slClientIP ls)" and "distinct (map slProxyID ls)" and "l \<in> set ls"
  shows "get (leases (fold (restoreLease env) ls m)) (slClientIP l) =
      (case get (proxies m) (slProxyID l) of
         Some p \<Rightarrow> if inForce env p l then Some (restoredLease p l) else get (leases m) (slClientIP l)
       | None \<Rightarrow> get (leases m) (slClientIP l))
    \<and> get (proxies (fold (restoreLease env) ls m)) (slProxyID l) =
      map_option (\<lambda>p. if inForce env p l then leasedFor (slClientIP l) p else p) (get (proxies m) (slProxyID l))"
  using assms
proof (induction ls arbitrary: m)
  case (Cons l' ls)
  show ?case
  proof (cases "l' = l")
    case True
    then have out: "slClientIP l \<notin> slClientIP ` set ls" "slProxyID l \<notin> slProxyID ` set ls" using Cons.prems(1,2) by auto
    show ?thesis
      using True
      by (cases rule: restoreLease_cases [of m l env, case_names restored dropped])
         (auto simp: fold_restoreLease_gets(1) [OF out(1)] fold_restoreLease_gets(2) [OF out(2)] split: option.split)
  next
    case False
    then have l: "l \<in> set ls" using Cons.prems(3) by simp
    then have "slProxyID l \<noteq> slProxyID l'" "slClientIP l \<noteq> slClientIP l'"
      using Cons.prems(1,2) by (metis distinct.simps(2) image_eqI list.map(2) list.set_map)+
    then have "get (proxies (restoreLease env l' m)) (slProxyID l) = get (proxies m) (slProxyID l)"
      "get (leases (restoreLease env l' m)) (slClientIP l) = get (leases m) (slClientIP l)"
      by (simp_all add: restoreLease_gets)
    then show ?thesis using Cons.IH [of "restoreLease env l' m"] Cons.prems(1,2) l by (simp split: option.split)
  qed
qed simp

section \<open>A start, stage by stage\<close>

lemma blankManager_inv: "mgr_inv B t (blankManager cfg db c)"
  by (simp add: blankManager_def mgr_inv_def proxies_ok_def leases_ok_def conns_ok_def timer_ok_def exclusive_def held_def)

lemma New_Inr:
  assumes "New env parseURL cfg db = (Inr (m, ps, fake), db')"
  obtains c m1 m2 dyn where "upsertConfigured env 0 (cfgProxies cfg) (blankManager cfg db c) = (None, m1)"
    "restoreProxies env (ListProxies (mDB m1)) (dynamicByID (ListDynamicProxies (mDB m1))) m1 = (None, dyn, m2)"
    "m = fold (dropUnleased env) (proxyOrder (fold (restoreLease env) (ListLeases (mDB (dropOrphans env dyn m2))) (dropOrphans env dyn m2)))
           (fold (restoreLease env) (ListLeases (mDB (dropOrphans env dyn m2))) (dropOrphans env dyn m2))"
  using assms
  by (auto simp: New_def restoreState_def Let_def split: sum.splits option.splits prod.splits)

text \<open>The proxies that a start finds, and the end that a stored lease has at its proxy.\<close>

definition knownProxy :: "Config \<Rightarrow> DB \<Rightarrow> string \<Rightarrow> bool" where
  "knownProxy cfg db pid \<longleftrightarrow> get (dbProxies db) pid \<noteq> None \<or> pid \<in> pcID ` set (cfgProxies cfg)"

definition storedEnd :: "DB \<Rightarrow> StoreLease \<Rightarrow> time" where
  "storedEnd db row =
     (case get (dbDynamic db) (slProxyID row) of
        None \<Rightarrow> slExpiresAt row
      | Some d \<Rightarrow> min (slExpiresAt row) (dpProviderExpiresAt d))"

text \<open>The proxies after the stored ones have been taken in, the leases after that, and the result.\<close>

definition kindOf :: "DynamicProxy option \<Rightarrow> Proxy \<Rightarrow> bool" where
  "kindOf dynamic p \<longleftrightarrow> (case dynamic of
     None \<Rightarrow> pSource p = ProxySourcePool
   | Some d \<Rightarrow> pSource p = ProxySourceAPI \<and> pProviderExpiresAt p = dpProviderExpiresAt d)"

definition startStages :: "startEnv \<Rightarrow> Config \<Rightarrow> DB \<Rightarrow> Manager \<Rightarrow> Manager \<Rightarrow> Manager \<Rightarrow> bool" where
  "startStages env cfg db m2 m3 m \<longleftrightarrow>
     db_ok db \<and> inj_on slProxyID (set (ListLeases db))
     \<and> mgr_inv (\<lambda>_. 0) (seNow env) m3 \<and> conns m3 = [] \<and> leases m2 = []
     \<and> m3 = fold (restoreLease env) (ListLeases db) m2
     \<and> m = fold (dropUnleased env) (proxyOrder m3) m3
     \<and> (\<forall>k. get (proxies m2) k = None \<longleftrightarrow> \<not> knownProxy cfg db k
          \<or> (\<exists>d. get (dbDynamic db) k = Some d \<and> dpProviderExpiresAt d \<le> seNow env))
     \<and> (\<forall>k p. get (proxies m2) k = Some p \<longrightarrow> kindOf (get (dbDynamic db) k) p)
     \<and> (\<forall>k. get (dbDynamic db) k \<noteq> None \<longrightarrow> get (proxies m2) k = None \<longrightarrow> (\<forall>j. \<not> seDeleteProxy env k j)
          \<longrightarrow> gone k (mDB m2))"

lemma startStagesD:
  assumes "startStages env cfg db m2 m3 m"
  shows "mgr_inv (\<lambda>_. 0) (seNow env) m3" "conns m3 = []" "leases m2 = []"
    and "m3 = fold (restoreLease env) (ListLeases db) m2"
    and "m = fold (dropUnleased env) (proxyOrder m3) m3"
    and "get (proxies m2) k = None \<longleftrightarrow> \<not> knownProxy cfg db k
      \<or> (\<exists>d. get (dbDynamic db) k = Some d \<and> dpProviderExpiresAt d \<le> seNow env)"
    and "get (proxies m2) k = Some p \<Longrightarrow> kindOf (get (dbDynamic db) k) p"
    and "get (dbDynamic db) k \<noteq> None \<Longrightarrow> get (proxies m2) k = None \<Longrightarrow> (\<forall>j. \<not> seDeleteProxy env k j)
      \<Longrightarrow> gone k (mDB m2)"
    and "leases m = leases m3" "db_ok db" "inj_on slProxyID (set (ListLeases db))"
  using assms fold_dropUnleased unfolding startStages_def by blast+

lemma upserts_known:
  assumes "upsertConfigured env n (cfgProxies cfg) (blankManager cfg db c) = (None, m1)" and "db_ok (mDB m1)"
  shows "knownProxy cfg db k \<longleftrightarrow> k \<in> spID ` set (ListProxies (mDB m1))"
proof -
  have "knownProxy cfg db k \<longleftrightarrow> get (dbProxies (mDB m1)) k \<noteq> None"
    using upsertConfigured_rows [OF assms(1)] by (auto simp: knownProxy_def blankManager_def domIff set_eq_iff)
  also have "\<dots> \<longleftrightarrow> k \<in> spID ` set (ListProxies (mDB m1))"
  proof
    assume "get (dbProxies (mDB m1)) k \<noteq> None"
    then obtain p where p: "get (dbProxies (mDB m1)) k = Some p" by blast
    then have "spID p = k" using assms(2) by (simp add: db_ok_def)
    then show "k \<in> spID ` set (ListProxies (mDB m1))" using p ListProxies_rows(2) [OF assms(2)] by blast
  qed (use ListProxies_rows(2) [OF assms(2)] in auto)
  finally show ?thesis .
qed

text \<open>The proxies that a start takes in, and those of the provider that it deletes at once.\<close>

lemma New_proxies:
  assumes ok: "db_ok db" and ups: "upsertConfigured env 0 (cfgProxies cfg) (blankManager cfg db c) = (None, m1)"
    and res: "restoreProxies env (ListProxies (mDB m1)) (dynamicByID (ListDynamicProxies (mDB m1))) m1 = (None, dyn, m2)"
  shows "mgr_inv (\<lambda>_. 0) (seNow env) m2 \<and> leases m2 = [] \<and> conns m2 = [] \<and> dbLeases (mDB m2) = dbLeases db
    \<and> get (proxies m2) k = (if knownProxy cfg db k
         then storedProxy env (get (dbDynamic db) k) (the (get (dbProxies (mDB m1)) k)) else None)
    \<and> (get (dbDynamic db) k \<noteq> None \<longrightarrow> get (proxies m2) k = None \<longrightarrow> (\<forall>j. \<not> seDeleteProxy env k j)
         \<longrightarrow> gone k (mDB (dropOrphans env dyn m2)))"
proof -
  let ?blank = "blankManager cfg db c"
  have "db_ok (mDB ?blank)" using ok by (simp add: blankManager_def)
  note kept = upsertConfigured_keeps [OF ups this]
  have m1: "leases m1 = []" "conns m1 = []" "proxies m1 = []" "mgr_inv (\<lambda>_. 0) (seNow env) m1"
    using kept blankManager_inv [of "\<lambda>_. 0" "seNow env" cfg db c] by (metis blankManager_def Manager.simps mgr_inv_frame(1))+
  have rows: "dbLeases (mDB m1) = dbLeases db" "dbDynamic (mDB m1) = dbDynamic db"
    using kept by (simp_all add: blankManager_def)
  have ok1: "db_ok (mDB m1)" using kept by simp
  note known = upserts_known [OF ups ok1]
  have "\<forall>p \<in> set (ListProxies (mDB m1)). get (proxies m1) (spID p) = None" using m1(3) by simp
  note restored = restoreProxies_result [OF res m1(4) ListProxies_rows(1) [OF ok1] this]
  have found: "get (proxies m2) k = (if knownProxy cfg db k
      then storedProxy env (get (dbDynamic db) k) (the (get (dbProxies (mDB m1)) k)) else None)"
  proof (cases "knownProxy cfg db k")
    case True
    then obtain p where p: "p \<in> set (ListProxies (mDB m1))" "k = spID p" unfolding known by blast
    then have "get (dbProxies (mDB m1)) k = Some p" using ListProxies_rows(2) [OF ok1] by simp
    moreover have "get (proxies m2) k = storedProxy env (get (dbDynamic db) k) p"
      using restored p get_dynamicByID [OF ok1] rows(2) by simp
    ultimately show ?thesis using True by simp
  next
    case False
    then have "get (proxies m2) k = get (proxies m1) k" using restored unfolding known by blast
    then show ?thesis using False m1(3) by simp
  qed
  note dynamic = restoreProxies_dynamic [OF res, of k, unfolded get_dynamicByID [OF ok1] rows(2)]
  have "gone k (mDB (dropOrphans env dyn m2))"
    if k: "get (dbDynamic db) k \<noteq> None" "get (proxies m2) k = None" "\<forall>j. \<not> seDeleteProxy env k j"
  proof (cases "knownProxy cfg db k")
    case True
    then obtain d where "get (dbDynamic db) k = Some d" "dpProviderExpiresAt d \<le> seNow env"
      using k(2) by (auto simp: found storedProxy_def split: option.splits if_splits)
    then have "gone k (mDB m2)" using dynamic True known k(3) by simp
    then show ?thesis by (rule dropOrphans_gone(1))
  next
    case False
    then have "get dyn k \<noteq> None" using dynamic known k(1) by simp
    then have "k \<in> fst ` set dyn" by (metis dom_get domIff)
    then show ?thesis using k(3) by (rule dropOrphans_gone(2))
  qed
  then show ?thesis using restored m1 rows found by simp
qed

lemma New_stages:
  assumes ok: "db_ok db" and new: "New env parseURL cfg db = (Inr (m, ps, fake), db')"
    and inj: "inj_on slProxyID (set (ListLeases db))"
  obtains m2 m3 where "startStages env cfg db m2 m3 m" "db' = mDB m"
proof -
  obtain c m1 m2 dyn where ups: "upsertConfigured env 0 (cfgProxies cfg) (blankManager cfg db c) = (None, m1)"
    and res: "restoreProxies env (ListProxies (mDB m1)) (dynamicByID (ListDynamicProxies (mDB m1))) m1 = (None, dyn, m2)"
    and m: "m = fold (dropUnleased env) (proxyOrder (fold (restoreLease env) (ListLeases (mDB (dropOrphans env dyn m2))) (dropOrphans env dyn m2)))
           (fold (restoreLease env) (ListLeases (mDB (dropOrphans env dyn m2))) (dropOrphans env dyn m2))"
    using New_Inr [OF new] by metis
  have db': "db' = mDB m" using new by (auto simp: New_def split: sum.splits option.splits prod.splits)
  let ?m2 = "dropOrphans env dyn m2"
  note stored = New_proxies [OF ok ups res]
  have m2: "mgr_inv (\<lambda>_. 0) (seNow env) ?m2" "leases ?m2 = []" "conns ?m2 = []"
    and leaseRows: "ListLeases (mDB ?m2) = ListLeases db"
    using stored by (simp_all add: ListLeases_def)
  have dist: "distinct (map slProxyID (ListLeases db))"
    using ListLeases_rows(1) [OF ok] inj by (simp add: distinct_map)
  have m3: "mgr_inv (\<lambda>_. 0) (seNow env) (fold (restoreLease env) (ListLeases db) ?m2)"
    "conns (fold (restoreLease env) (ListLeases db) ?m2) = []"
    using restoreLeases_inv [OF m2(1) dist] m2(2,3) by simp_all
  have "get (proxies ?m2) k = None \<longleftrightarrow> \<not> knownProxy cfg db k
      \<or> (\<exists>d. get (dbDynamic db) k = Some d \<and> dpProviderExpiresAt d \<le> seNow env)" for k
    using stored [of k] by (auto simp: storedProxy_def split: option.split)
  moreover have "kindOf (get (dbDynamic db) k) p" if "get (proxies ?m2) k = Some p" for k p
    using that stored [of k]
    by (auto simp: kindOf_def storedProxy_def restoredProxy_def Let_def split: option.splits if_splits)
  moreover have "get (dbDynamic db) k \<noteq> None \<longrightarrow> get (proxies ?m2) k = None \<longrightarrow> (\<forall>j. \<not> seDeleteProxy env k j)
      \<longrightarrow> gone k (mDB ?m2)" for k
    using stored [of k] by simp
  moreover have "m = fold (dropUnleased env) (proxyOrder (fold (restoreLease env) (ListLeases db) ?m2))
      (fold (restoreLease env) (ListLeases db) ?m2)"
    using m unfolding leaseRows .
  ultimately have "startStages env cfg db ?m2 (fold (restoreLease env) (ListLeases db) ?m2) m"
    unfolding startStages_def using m3 m2(2) ok inj by blast
  then show thesis using db' by (rule that)
qed

lemma New_start:
  assumes "db_ok db" and "New env parseURL cfg db = (Inr (m, ps, fake), db')"
    and "inj_on slProxyID (set (ListLeases db))"
  shows "world_start \<lparr>clock = seNow env, mgr = m, owner = (\<lambda>_. None)\<rparr>"
proof (rule New_stages [OF assms])
  fix m2 m3
  assume "startStages env cfg db m2 m3 m"
  note stages = startStagesD [OF this]
  show ?thesis using stages(1,2) fold_dropUnleased unfolding stages(5) world_start_def by simp
qed

section \<open>The leases and the proxies after a start\<close>

lemma inForce_storedEnd:
  assumes "kindOf (get (dbDynamic db) (slProxyID l)) p"
  shows "inForce env p l \<longleftrightarrow> seNow env < storedEnd db l" and "lvExpiresAt (restoredLease p l) = storedEnd db l"
  using assms by (auto simp: kindOf_def inForce_def leaseEnd_def storedEnd_def restoredLease_def min_def split: option.splits)

text \<open>A lease row becomes the lease of its client, its proxy bound to him, or nothing.\<close>

lemma restored_row:
  assumes "startStages env cfg db m2 m3 m" and "get (dbLeases db) ip = Some row"
  shows "get (leases m) ip = (case get (proxies m2) (slProxyID row) of
      Some p \<Rightarrow> if inForce env p row then Some (restoredLease p row) else None | None \<Rightarrow> None)"
    and "get (proxies m3) (slProxyID row) =
      map_option (\<lambda>p. if inForce env p row then leasedFor ip p else p) (get (proxies m2) (slProxyID row))"
proof -
  note stages = startStagesD [OF assms(1)]
  have ip: "slClientIP row = ip" using stages(10) assms(2) by (simp add: db_ok_def)
  then have "row \<in> set (ListLeases db)" using assms(2) ListLeases_rows(2) [OF stages(10)] by simp
  moreover have "distinct (map slClientIP (ListLeases db))" "distinct (map slProxyID (ListLeases db))"
    using ListLeases_rows(1) [OF stages(10)] stages(11) by (simp_all add: distinct_map)
  ultimately have exact: "get (leases m3) ip = (case get (proxies m2) (slProxyID row) of
      Some p \<Rightarrow> if inForce env p row then Some (restoredLease p row) else get (leases m2) ip | None \<Rightarrow> get (leases m2) ip)
    \<and> get (proxies m3) (slProxyID row) =
      map_option (\<lambda>p. if inForce env p row then leasedFor ip p else p) (get (proxies m2) (slProxyID row))"
    unfolding stages(4) ip [symmetric] by (intro restoreLeases_exact)
  then show "get (leases m) ip = (case get (proxies m2) (slProxyID row) of
      Some p \<Rightarrow> if inForce env p row then Some (restoredLease p row) else None | None \<Rightarrow> None)"
    and "get (proxies m3) (slProxyID row) =
      map_option (\<lambda>p. if inForce env p row then leasedFor ip p else p) (get (proxies m2) (slProxyID row))"
    unfolding stages(3,9) by (simp_all split: option.split)
qed

lemma no_row_no_lease:
  assumes "startStages env cfg db m2 m3 m" and "get (dbLeases db) ip = None"
  shows "get (leases m) ip = None"
proof -
  note stages = startStagesD [OF assms(1)]
  have "ip \<notin> slClientIP ` set (ListLeases db)"
    using assms(2) ListLeases_rows(2) [OF stages(10)] by (metis imageE option.distinct(1))
  then show ?thesis using fold_restoreLease_gets(1) stages(3,4,9) by simp
qed

lemma restored_table:
  assumes "startStages env cfg db m2 m3 m"
  shows "leaseTable m ip = (case get (dbLeases db) ip of
      None \<Rightarrow> None
    | Some row \<Rightarrow> if knownProxy cfg db (slProxyID row) \<and> seNow env < storedEnd db row
                 then Some (slProxyID row, storedEnd db row) else None)"
proof (cases "get (dbLeases db) ip")
  case None
  then show ?thesis using no_row_no_lease [OF assms] by (simp add: leaseTable_def)
next
  case (Some row)
  note stages = startStagesD [OF assms] and row = restored_row(1) [OF assms Some]
  show ?thesis
  proof (cases "get (proxies m2) (slProxyID row)")
    case None
    then have "\<not> (knownProxy cfg db (slProxyID row) \<and> seNow env < storedEnd db row)"
      using stages(6) by (auto simp: storedEnd_def)
    then show ?thesis using row None Some by (simp add: leaseTable_def)
  next
    case found: (Some p)
    then have "knownProxy cfg db (slProxyID row)" using stages(6) [of "slProxyID row"] by simp
    then show ?thesis using row found Some inForce_storedEnd [OF stages(7) [OF found]]
      by (simp add: leaseTable_def) (simp add: restoredLease_def)
  qed
qed

lemma restored_bound:
  assumes "startStages env cfg db m2 m3 m" and "get (leases m) ip = Some l"
  shows "\<exists>p. get (proxies m3) (lvProxyID l) = Some p \<and> pStatus p = ProxyActive \<and> pClientIP p = ip"
proof (cases "get (dbLeases db) ip")
  case None
  then show ?thesis using no_row_no_lease [OF assms(1)] assms(2) by simp
next
  case (Some row)
  show ?thesis using restored_row [OF assms(1) Some] assms(2)
    by (auto simp: restoredLease_def leasedFor_def split: option.splits if_splits)
qed

lemma kept_proxy:
  assumes "startStages env cfg db m2 m3 m"
  shows "get (proxies m) k = (if idleRental env m3 k then None else get (proxies m3) k)"
    and "get (proxies m3) k = None \<longleftrightarrow> get (proxies m2) k = None"
    and "(\<exists>p. get (proxies m3) k = Some p \<and> pSource p = ProxySourceAPI)
      \<longleftrightarrow> get (proxies m2) k \<noteq> None \<and> get (dbDynamic db) k \<noteq> None"
proof -
  note stages = startStagesD [OF assms]
  have order: "set (proxyOrder m3) = dom (get (proxies m3))"
    using mgr_invD(1) [OF stages(1)] by (simp add: proxies_ok_def)
  show "get (proxies m) k = (if idleRental env m3 k then None else get (proxies m3) k)"
    using dropUnleased_loop [where k = k and ids = "proxyOrder m3"] order
    by (auto simp: stages(5) idleRental_def)
  have same: "map_option pSource (get (proxies m3) k) = map_option pSource (get (proxies m2) k)"
    unfolding stages(4) by (rule restoreLeases_source)
  then show "get (proxies m3) k = None \<longleftrightarrow> get (proxies m2) k = None"
    by (metis map_option_is_None)
  show "(\<exists>p. get (proxies m3) k = Some p \<and> pSource p = ProxySourceAPI)
      \<longleftrightarrow> get (proxies m2) k \<noteq> None \<and> get (dbDynamic db) k \<noteq> None"
    using same stages(7) [of k]
    by (cases "get (proxies m2) k"; cases "get (dbDynamic db) k") (auto simp: kindOf_def)
qed

lemma restored_use:
  assumes "startStages env cfg db m2 m3 m" and "seNow env \<le> seLater env"
  shows "proxyHasActiveLease (seLater env) k m3 \<longleftrightarrow>
    (\<exists>ip row. get (dbLeases db) ip = Some row \<and> slProxyID row = k \<and> knownProxy cfg db k \<and> seLater env < storedEnd db row)"
proof -
  note stages = startStagesD [OF assms(1)]
  have "held (seLater env) (leases m3) ip k \<longleftrightarrow> (\<exists>e. leaseTable m ip = Some (k, e) \<and> seLater env < e)" for ip
    using mgr_invD(2) [OF stages(1)] by (auto simp: held_def holdsLease_def leaseTable_def stages(9) leases_ok_def)
  also have "(\<exists>e. leaseTable m ip = Some (k, e) \<and> seLater env < e) \<longleftrightarrow>
    (\<exists>row. get (dbLeases db) ip = Some row \<and> slProxyID row = k \<and> knownProxy cfg db k \<and> seLater env < storedEnd db row)" for ip
    using assms(2) by (auto simp: restored_table [OF assms(1)] split: option.splits)
  finally show ?thesis unfolding proxyHasActiveLease_iff [OF stages(1)] by blast
qed

lemma kept_proxies:
  assumes "startStages env cfg db m2 m3 m" and "seNow env \<le> seLater env"
  shows "get (proxies m) pid \<noteq> None \<longleftrightarrow> knownProxy cfg db pid \<and> (get (dbDynamic db) pid = None
    \<or> (\<exists>ip row. get (dbLeases db) ip = Some row \<and> slProxyID row = pid \<and> seLater env < storedEnd db row))"
proof -
  note kept = kept_proxy [OF assms(1), of pid] and known = startStagesD(6) [OF assms(1), of pid]
  have live: "seNow env < dpProviderExpiresAt d"
    if "get (dbDynamic db) (slProxyID row) = Some d" "seLater env < storedEnd db row" for d row
    using that assms(2) by (simp add: storedEnd_def)
  show ?thesis
    unfolding kept(1) idleRental_def kept(3) restored_use [OF assms] using kept(2) known live
    by (cases "get (dbDynamic db) pid") force+
qed

lemma dropped_rentals:
  assumes "startStages env cfg db m2 m3 m" and "get (dbDynamic db) pid \<noteq> None" and "get (proxies m) pid = None"
    and "\<forall>k. \<not> seDeleteProxy env pid k"
  shows "gone pid (mDB m)"
proof (cases "get (proxies m2) pid")
  note stages = startStagesD [OF assms(1)]
  case None
  have "gone pid (mDB m3)"
    unfolding stages(4) using restoreLease_gone stages(8) [OF assms(2) None assms(4)] by (rule gone_fold)
  then show ?thesis using dropUnleased_loop [where k = pid and m = m3] by (simp add: stages(5))
next
  note stages = startStagesD [OF assms(1)] and kept = kept_proxy [OF assms(1), of pid]
  case (Some p)
  then have "get (proxies m3) pid \<noteq> None" using kept(2) by simp
  then have "pid \<in> set (proxyOrder m3)" "idleRental env m3 pid"
    using assms(3) mgr_invD(1) [OF stages(1)] kept(1) by (auto simp: proxies_ok_def split: if_splits)
  then show ?thesis using dropUnleased_loop [where k = pid and m = m3] assms(4) by (simp add: stages(5))
qed

section \<open>Properties\<close>

text \<open>
  C12. A restart keeps what is in force, and nothing else. Assume a well-formed database in which no two
  lease rows name the same proxy; the code does not guarantee the latter (\<open>stale_row_shares_exit\<close>). Then a
  manager that starts successfully is a legal start of the machine of sections, so all that is proved of
  reachable managers holds of it. A client has a lease exactly when the database has one for him, on a
  proxy that the database or the configuration knows, whose end lies in the future; the end is the stored
  one, on a rented proxy cut to the end that the provider set. The proxy of a lease is bound to the client.
  The proxies are exactly the known ones, without those rented ones that no lease holds at the end of
  the start; a rented proxy that is not taken over is also deleted from the database, with its
  provider data, unless that deletion fails.
\<close>

theorem restart_restores_leases:
  assumes "db_ok db" and "New env parseURL cfg db = (Inr (m, ps, fake), db')"
    and "inj_on slProxyID (set (ListLeases db))" and "seNow env \<le> seLater env"
  shows "world_start \<lparr>clock = seNow env, mgr = m, owner = (\<lambda>_. None)\<rparr>
    \<and> (\<forall>ip. leaseTable m ip = (case get (dbLeases db) ip of
          None \<Rightarrow> None
        | Some row \<Rightarrow> if knownProxy cfg db (slProxyID row) \<and> seNow env < storedEnd db row
                     then Some (slProxyID row, storedEnd db row) else None))
    \<and> (\<forall>pid. get (proxies m) pid \<noteq> None \<longleftrightarrow> knownProxy cfg db pid \<and> (get (dbDynamic db) pid = None
          \<or> (\<exists>ip row. get (dbLeases db) ip = Some row \<and> slProxyID row = pid \<and> seLater env < storedEnd db row)))
    \<and> (\<forall>ip l p. get (leases m) ip = Some l \<longrightarrow> get (proxies m) (lvProxyID l) = Some p \<longrightarrow>
          pStatus p = ProxyActive \<and> pClientIP p = ip)
    \<and> (\<forall>pid. get (dbDynamic db) pid \<noteq> None \<longrightarrow> get (proxies m) pid = None \<longrightarrow>
          (\<forall>k. \<not> seDeleteProxy env pid k) \<longrightarrow> get (dbProxies db') pid = None \<and> get (dbDynamic db') pid = None)"
proof (rule New_stages [OF assms(1-3)])
  fix m2 m3
  assume stages: "startStages env cfg db m2 m3 m" and db': "db' = mDB m"
  have "pStatus p = ProxyActive \<and> pClientIP p = ip"
    if "get (leases m) ip = Some l" "get (proxies m) (lvProxyID l) = Some p" for ip l p
    using restored_bound [OF stages that(1)] that(2) by (auto simp: kept_proxy(1) [OF stages] split: if_splits)
  then show ?thesis
    using New_start [OF assms(1-3)] restored_table [OF stages] kept_proxies [OF stages assms(4)] dropped_rentals [OF stages]
    unfolding db' gone_def by blast
qed

text \<open>A database with a lease that is still in force, and one in which a failed deletion left a row behind.\<close>

definition exampleStart :: startEnv where
  "exampleStart = \<lparr>seNow = 100 * Second, seLater = 101 * Second, seUpsert = (\<lambda>_ _. False), seQuery = (\<lambda>_. None),
     seDeleteProxy = (\<lambda>_ _. False), seDeleteLease = (\<lambda>_ _. False)\<rparr>"

definition exampleRow :: "string \<Rightarrow> StoreLease" where
  "exampleRow ip = \<lparr>slClientIP = ip, slProxyID = ''p1'', slStatus = LeaseActive, slExpiresAt = 200 * Second, slUpdatedAt = 0\<rparr>"

definition exampleDB :: "string list \<Rightarrow> DB" where
  "exampleDB ips = \<lparr>dbLeases = map (\<lambda>ip. (ip, exampleRow ip)) ips,
     dbProxies = [(''p1'', storeProxyOf (examplePoolProxy ''p1'' ''10.0.0.1:1080''))], dbDynamic = [], dbEvents = []\<rparr>"

definition exampleNew :: "string list \<Rightarrow> Manager" where
  "exampleNew ips = fst (projr (fst (New exampleStart (\<lambda>_. None) exampleConfig (exampleDB ips))))"

text \<open>
  The same with three rented proxies: one is leased beyond the end that the provider set, one is not
  leased, and one has ended.
\<close>

definition rental :: "string \<Rightarrow> time \<Rightarrow> DynamicProxy" where
  "rental k e = \<lparr>dpProxyID = k, dpCountry = ''US'', dpDurationMinutes = 5, dpProviderExpiresAt = e\<rparr>"

definition rentalDB :: DB where
  "rentalDB = (exampleDB [''192.168.1.5''])
     \<lparr>dbLeases := [(''192.168.1.5'', exampleRow ''192.168.1.5''),
         (''192.168.1.6'', (exampleRow ''192.168.1.6'')\<lparr>slProxyID := ''r1''\<rparr>),
         (''192.168.1.7'', (exampleRow ''192.168.1.7'')\<lparr>slProxyID := ''r3''\<rparr>)],
      dbProxies := map (\<lambda>k. (k, storeProxyOf (examplePoolProxy k (k @ '':1080'')))) [''p1'', ''r1'', ''r2'', ''r3''],
      dbDynamic := [(''r1'', rental ''r1'' (150 * Second)), (''r2'', rental ''r2'' (300 * Second)), (''r3'', rental ''r3'' (90 * Second))]\<rparr>"

definition rentalRun :: "(Manager \<times> ProxyAPIState \<times> FakeIPStore) started" where
  "rentalRun = New exampleStart (\<lambda>_. None) exampleConfig rentalDB"

lemma rentalDB_ok: "db_ok rentalDB" "inj_on slProxyID (set (ListLeases rentalDB))"
proof -
  show "db_ok rentalDB"
    by (auto simp: db_ok_def rentalDB_def exampleDB_def keys_ok_def exampleRow_def storeProxyOf_def examplePoolProxy_def
          newPoolProxy_def rental_def split: if_splits)
  show "inj_on slProxyID (set (ListLeases rentalDB))"
    by (simp add: ListLeases_def rentalDB_def exampleRow_def)
qed

lemma restart_restores_leases_witness:
  "leaseTable (fst (projr (fst rentalRun))) ''192.168.1.5'' = Some (''p1'', 200 * Second)
   \<and> leaseTable (fst (projr (fst rentalRun))) ''192.168.1.6'' = Some (''r1'', 150 * Second)
   \<and> leaseTable (fst (projr (fst rentalRun))) ''192.168.1.7'' = None
   \<and> get (proxies (fst (projr (fst rentalRun)))) ''r1'' \<noteq> None
   \<and> get (proxies (fst (projr (fst rentalRun)))) ''r2'' = None
   \<and> get (dbProxies (snd rentalRun)) ''r2'' = None \<and> get (dbDynamic (snd rentalRun)) ''r3'' = None"
proof -
  have "\<not> isl (fst rentalRun)" by code_simp
  then obtain m ps fake db' where run: "New exampleStart (\<lambda>_. None) exampleConfig rentalDB = (Inr (m, ps, fake), db')"
    by (cases rentalRun; cases "fst rentalRun") (auto simp: isl_def rentalRun_def)
  then have res: "fst (projr (fst rentalRun)) = m" "snd rentalRun = db'" by (simp_all add: rentalRun_def)
  have times: "seNow exampleStart \<le> seLater exampleStart" by (simp add: exampleStart_def)
  note all = restart_restores_leases [OF rentalDB_ok(1) run rentalDB_ok(2) times]
  have rows: "get (dbLeases rentalDB) ''192.168.1.5'' = Some (exampleRow ''192.168.1.5'')"
    "get (dbLeases rentalDB) ''192.168.1.6'' = Some ((exampleRow ''192.168.1.6'')\<lparr>slProxyID := ''r1''\<rparr>)"
    "get (dbLeases rentalDB) ''192.168.1.7'' = Some ((exampleRow ''192.168.1.7'')\<lparr>slProxyID := ''r3''\<rparr>)"
    by (simp_all add: rentalDB_def)
  have ends: "storedEnd rentalDB (exampleRow ''192.168.1.5'') = 200 * Second"
    "storedEnd rentalDB ((exampleRow ''192.168.1.6'')\<lparr>slProxyID := ''r1''\<rparr>) = 150 * Second"
    "storedEnd rentalDB ((exampleRow ''192.168.1.7'')\<lparr>slProxyID := ''r3''\<rparr>) = 90 * Second"
    by (simp_all add: storedEnd_def rentalDB_def exampleRow_def rental_def)
  have known: "knownProxy exampleConfig rentalDB k \<longleftrightarrow> k \<in> {''p1'', ''r1'', ''r2'', ''r3''} \<or> k \<in> pcID ` set (cfgProxies exampleConfig)" for k
    by (simp add: knownProxy_def rentalDB_def)
  have dynamic: "get (dbDynamic rentalDB) ''r1'' \<noteq> None" "get (dbDynamic rentalDB) ''r2'' \<noteq> None" "get (dbDynamic rentalDB) ''r3'' \<noteq> None"
    by (simp_all add: rentalDB_def)
  have onlyRows: "get (dbLeases rentalDB) ip = Some row \<Longrightarrow> slProxyID row = ''p1'' \<or> slProxyID row = ''r1''
      \<or> slProxyID row = ''r3'' \<and> storedEnd rentalDB row = 90 * Second" for ip row
    using ends by (auto simp: rentalDB_def exampleRow_def split: if_splits)
  note table = all [THEN conjunct2, THEN conjunct1, THEN spec]
    and there = all [THEN conjunct2, THEN conjunct2, THEN conjunct1, THEN spec]
    and removed = all [THEN conjunct2, THEN conjunct2, THEN conjunct2, THEN conjunct2, THEN spec]
  have later: "seLater exampleStart = 101 * Second" "seNow exampleStart = 100 * Second" "\<not> seDeleteProxy exampleStart k j" for k j
    by (simp_all add: exampleStart_def)
  have t: "leaseTable m ''192.168.1.5'' = Some (''p1'', 200 * Second)" "leaseTable m ''192.168.1.6'' = Some (''r1'', 150 * Second)"
    "leaseTable m ''192.168.1.7'' = None"
    unfolding table rows later using ends known by (simp_all add: exampleRow_def)
  have "\<not> (\<exists>ip row. get (dbLeases rentalDB) ip = Some row \<and> slProxyID row = k \<and> 101 * Second < storedEnd rentalDB row)"
    if "k = ''r2'' \<or> k = ''r3''" for k
    using that onlyRows by fastforce
  then have gone: "get (proxies m) ''r2'' = None" "get (proxies m) ''r3'' = None"
    using there [of "''r2''"] there [of "''r3''"] dynamic(2,3) unfolding later by blast+
  have "slProxyID ((exampleRow ''192.168.1.6'')\<lparr>slProxyID := ''r1''\<rparr>) = ''r1''" by simp
  moreover have "101 * Second < storedEnd rentalDB ((exampleRow ''192.168.1.6'')\<lparr>slProxyID := ''r1''\<rparr>)"
    unfolding ends by simp
  ultimately have kept: "get (proxies m) ''r1'' \<noteq> None"
    using there [of "''r1''"] rows(2) known [of "''r1''"] unfolding later by blast
  show ?thesis
    unfolding res using t kept gone removed [of "''r2''"] removed [of "''r3''"] dynamic(2,3) later(3) by blast
qed

text \<open>
  The hypothesis on the lease rows is needed, and the code can violate it: it ignores the error of a
  deletion, so a row may outlive its lease, and after the proxy has been leased to another client a
  restart gives both clients the same exit.
\<close>

lemma stale_row_shares_exit:
  "map_option lvProxyID (get (leases (exampleNew [''192.168.1.5'', ''192.168.1.6''])) ''192.168.1.5'') = Some ''p1''"
  "map_option lvProxyID (get (leases (exampleNew [''192.168.1.5'', ''192.168.1.6''])) ''192.168.1.6'') = Some ''p1''"
  by code_simp+

end
