(* ===== verification/RuntimeConfig.thy ===== *)
theory RuntimeConfig
  imports Dynamic Gateway
begin

text \<open>
  Replacing parts of the configuration while the program runs, internal/manager/runtime_config.go:
  a section of the JSON file is rewritten through a temporary file and renamed into place, and the
  running part that uses the section is replaced. Files are entries of a table from paths; every
  operation of the write returns the states the file system goes through, so a crash is a prefix.
  JSON is an argument (decoding of a document into its sections, indented encoding, encoding of
  a section), and so are the outcomes of the system calls.
\<close>

section \<open>Writing a file atomically\<close>

record fileEntry =
  feMode :: nat
  feData :: string

type_synonym fileSys = "fileEntry table"

datatype writeStep = StatFile | CreateTempFile | ChmodTemp | WriteTemp | SyncTemp | CloseTemp | RenameTemp

text \<open>
  The name that \<open>os.CreateTemp\<close> picks, the outcome of each call, the number of bytes that a failing
  write leaves, and whether removing the temporary file fails.
\<close>

record writeEnv =
  weTmp :: string
  weFail :: "writeStep \<Rightarrow> goError option"
  weWritten :: nat
  weRemoveFails :: bool

definition errNotExist :: goError where
  "errNotExist = ErrIO ''no such file or directory''"

text \<open>The deferred clean-up: the temporary file is removed unless the write succeeded.\<close>

definition giveUp :: "writeEnv \<Rightarrow> goError \<Rightarrow> fileSys list \<Rightarrow> fileSys \<Rightarrow> goError option \<times> fileSys list" where
  "giveUp env err trace fs = (Some err, trace @ [if weRemoveFails env then fs else del (weTmp env) fs])"

definition atomicWriteFile :: "writeEnv \<Rightarrow> string \<Rightarrow> string \<Rightarrow> fileSys \<Rightarrow> goError option \<times> fileSys list" where
  "atomicWriteFile env path data fs =
     (case weFail env StatFile of Some err \<Rightarrow> (Some err, [fs]) | None \<Rightarrow>
     (case get fs path of None \<Rightarrow> (Some errNotExist, [fs]) | Some info \<Rightarrow>
     (case weFail env CreateTempFile of Some err \<Rightarrow> (Some err, [fs]) | None \<Rightarrow>
      let tmp = weTmp env;
          created = put tmp \<lparr>feMode = 384, feData = []\<rparr> fs in
      case weFail env ChmodTemp of Some err \<Rightarrow> giveUp env err [fs, created] created | None \<Rightarrow>
      let chmodded = put tmp \<lparr>feMode = feMode info, feData = []\<rparr> created in
      case weFail env WriteTemp of
        Some err \<Rightarrow>
          let torn = put tmp \<lparr>feMode = feMode info, feData = take (weWritten env) data\<rparr> chmodded in
          giveUp env err [fs, created, chmodded, torn] torn
      | None \<Rightarrow>
      let written = put tmp \<lparr>feMode = feMode info, feData = data\<rparr> chmodded in
      case weFail env SyncTemp of Some err \<Rightarrow> giveUp env err [fs, created, chmodded, written] written | None \<Rightarrow>
      case weFail env CloseTemp of Some err \<Rightarrow> giveUp env err [fs, created, chmodded, written] written | None \<Rightarrow>
      case weFail env RenameTemp of Some err \<Rightarrow> giveUp env err [fs, created, chmodded, written] written | None \<Rightarrow>
        (None, [fs, created, chmodded, written,
                put path \<lparr>feMode = feMode info, feData = data\<rparr> (del tmp written)]))))"

section \<open>Writing a section\<close>

datatype sectionValue =
    RoutingSection RoutingConfig
  | FrontProxySection FrontProxy
  | ProxyAPISection ProxyAPI

fun sectionName :: "sectionValue \<Rightarrow> string" where
  "sectionName (RoutingSection _) = ''routing''"
| "sectionName (FrontProxySection _) = ''front_proxy''"
| "sectionName (ProxyAPISection _) = ''proxy_api''"

text \<open>\<open>cdDecode\<close> yields no map for a document that is \<open>null\<close>.\<close>

record 'j codec =
  cdDecode :: "string \<Rightarrow> goError + 'j table option"
  cdEncode :: "'j table \<Rightarrow> goError + string"
  cdSection :: "sectionValue \<Rightarrow> goError + 'j"

text \<open>\<open>append(bytes.TrimRight(out, "\n"), '\n')\<close>\<close>

definition finishDocument :: "string \<Rightarrow> string" where
  "finishDocument out = rev (dropWhile (\<lambda>c. c = CHR 0x0A) (rev out)) @ [CHR 0x0A]"

text \<open>
  An assignment to the nil map panics before anything is written; here it is reported as an error value.
  The mutexes that this panic leaves locked in an update of the front proxy are part of the theory of the
  process, \<open>Lifecycle\<close>.
\<close>

definition nilMapPanic :: goError where
  "nilMapPanic = ErrString ''assignment to entry in nil map''"

definition rewrite ::
    "'j codec \<Rightarrow> sectionValue \<Rightarrow> string \<Rightarrow> goError + string" where
  "rewrite codec v data =
     (case cdDecode codec data of
        Inl err \<Rightarrow> Inl err
      | Inr raw \<Rightarrow>
      (case cdSection codec v of
        Inl err \<Rightarrow> Inl err
      | Inr sectionRaw \<Rightarrow>
      (case raw of
        None \<Rightarrow> Inl nilMapPanic
      | Some doc \<Rightarrow>
      (case cdEncode codec (put (sectionName v) sectionRaw doc) of
        Inl err \<Rightarrow> Inl err
      | Inr out \<Rightarrow> Inr (finishDocument out)))))"

definition writeSection ::
    "writeEnv \<Rightarrow> 'j codec \<Rightarrow> string \<Rightarrow> sectionValue \<Rightarrow> fileSys \<Rightarrow> goError option \<times> fileSys list" where
  "writeSection env codec path v fs =
     (if path = [] then (Some (ErrString ''config path is empty''), [fs])
      else case get fs path of
        None \<Rightarrow> (Some errNotExist, [fs])
      | Some info \<Rightarrow>
          (case rewrite codec v (feData info) of
             Inl err \<Rightarrow> (Some err, [fs])
           | Inr out \<Rightarrow> atomicWriteFile env path out fs))"

text \<open>The callback that the apply functions get, acting on the files.\<close>

definition persistSection :: "writeEnv \<Rightarrow> 'j codec \<Rightarrow> string \<Rightarrow> sectionValue \<Rightarrow> fileSys persist" where
  "persistSection env codec path v =
     Some (\<lambda>fs. case writeSection env codec path v fs of (err, trace) \<Rightarrow> (err, last trace))"

section \<open>The runtime configuration\<close>

type_synonym 'a applier =
  "'a \<Rightarrow> fileSys persist \<Rightarrow> ProxyAPIState \<times> Manager \<times> fileSys \<Rightarrow> goError option \<times> ProxyAPIState \<times> Manager \<times> fileSys"

record RuntimeConfig =
  rcPath :: string
  rcRouting :: RoutingConfig
  rcFrontProxy :: FrontProxy
  rcProxyAPI :: ProxyAPI
  rcApplyRouting :: "(Matcher option \<Rightarrow> Gateway \<Rightarrow> Gateway) option"
  rcApplyFrontProxy :: "(time \<Rightarrow> FrontProxy applier) option"
  rcApplyProxyAPI :: "ProxyAPI applier option"

definition NewRuntimeConfig ::
    "string \<Rightarrow> Config \<Rightarrow> (Matcher option \<Rightarrow> Gateway \<Rightarrow> Gateway) option \<Rightarrow> (time \<Rightarrow> FrontProxy applier) option
      \<Rightarrow> ProxyAPI applier option list \<Rightarrow> RuntimeConfig" where
  "NewRuntimeConfig path cfg applyRouting applyFrontProxy proxyAPIFunc =
     \<lparr>rcPath = path, rcRouting = cfgRouting cfg, rcFrontProxy = cfgFrontProxy cfg, rcProxyAPI = cfgProxyAPI cfg,
      rcApplyRouting = applyRouting, rcApplyFrontProxy = applyFrontProxy,
      rcApplyProxyAPI = (case proxyAPIFunc of [] \<Rightarrow> None | f # _ \<Rightarrow> f)\<rparr>"

text \<open>The running program as far as an update reaches it; a nil \<open>*RuntimeConfig\<close> is \<open>None\<close>.\<close>

record system =
  syRuntime :: "RuntimeConfig option"
  syGateway :: Gateway
  syProvider :: ProxyAPIState
  syManager :: Manager
  syFiles :: fileSys

text \<open>What an update calls besides: the clock, the URL parser, the geosite file, the file system and JSON.\<close>

record 'j updateEnv =
  ueNow :: time
  ueParseURL :: "string \<Rightarrow> URL option"
  ueRegex :: regexCompiler
  ueReadFile :: "string \<Rightarrow> goError + byte list"
  ueGeosite :: "byte list \<Rightarrow> goError + GeoSite list"
  ueWrite :: writeEnv
  ueCodec :: "'j codec"

definition errUnavailable :: goError where
  "errUnavailable = ErrString ''runtime config is unavailable''"

definition UpdateRouting :: "'j updateEnv \<Rightarrow> RoutingConfig \<Rightarrow> system \<Rightarrow> goError option \<times> system" where
  "UpdateRouting env nextCfg s =
     (case syRuntime s of
        None \<Rightarrow> (Some errUnavailable, s)
      | Some c \<Rightarrow>
      (case newMatcher (ueRegex env) (ueReadFile env) (ueGeosite env) nextCfg of
        Inl err \<Rightarrow> (Some err, s)
      | Inr matcher \<Rightarrow>
      (case writeSection (ueWrite env) (ueCodec env) (rcPath c) (RoutingSection nextCfg) (syFiles s) of
        (Some err, trace) \<Rightarrow> (Some err, s\<lparr>syFiles := last trace\<rparr>)
      | (None, trace) \<Rightarrow>
          (None, s\<lparr>syRuntime := Some (c\<lparr>rcRouting := nextCfg\<rparr>), syFiles := last trace,
                   syGateway := (case rcApplyRouting c of None \<Rightarrow> syGateway s | Some f \<Rightarrow> f (Some matcher) (syGateway s))\<rparr>))))"

text \<open>The other two updates leave the writing to the function that replaces the running part.\<close>

definition runApply ::
    "'a applier \<Rightarrow> 'a \<Rightarrow> fileSys persist \<Rightarrow> RuntimeConfig \<Rightarrow> system \<Rightarrow> goError option \<times> system" where
  "runApply applier nextCfg persist updated s =
     (case applier nextCfg persist (syProvider s, syManager s, syFiles s) of
        (err, ps, m, fs) \<Rightarrow>
          let s = s\<lparr>syProvider := ps, syManager := m, syFiles := fs\<rparr> in
          (err, if err = None then s\<lparr>syRuntime := Some updated\<rparr> else s))"

definition UpdateProxyAPISection :: "'j updateEnv \<Rightarrow> ProxyAPI \<Rightarrow> system \<Rightarrow> goError option \<times> system" where
  "UpdateProxyAPISection env nextCfg s =
     (case syRuntime s of
        None \<Rightarrow> (Some errUnavailable, s)
      | Some c \<Rightarrow>
      (case rcApplyProxyAPI c of
        None \<Rightarrow> (Some (ErrString ''proxy API runtime update is unavailable''), s)
      | Some applyProxyAPI \<Rightarrow>
          let nextCfg = normalizedConfig nextCfg in
          case ValidateProxyAPI (ueParseURL env) nextCfg of
            Some err \<Rightarrow> (Some err, s)
          | None \<Rightarrow>
              runApply applyProxyAPI nextCfg
                (persistSection (ueWrite env) (ueCodec env) (rcPath c) (ProxyAPISection nextCfg))
                (c\<lparr>rcProxyAPI := nextCfg\<rparr>) s))"

definition UpdateFrontProxySection :: "'j updateEnv \<Rightarrow> FrontProxy \<Rightarrow> system \<Rightarrow> goError option \<times> system" where
  "UpdateFrontProxySection env nextCfg s =
     (case syRuntime s of
        None \<Rightarrow> (Some errUnavailable, s)
      | Some c \<Rightarrow>
      (case rcApplyFrontProxy c of
        None \<Rightarrow> (Some (ErrString ''front proxy runtime update is unavailable''), s)
      | Some applyFrontProxy \<Rightarrow>
          runApply (applyFrontProxy (ueNow env)) nextCfg
            (persistSection (ueWrite env) (ueCodec env) (rcPath c) (FrontProxySection nextCfg))
            (c\<lparr>rcFrontProxy := nextCfg\<rparr>) s))"

text \<open>An update of either kind, and the configuration as \<open>cmd/sock5gw\<close> wires it.\<close>

fun update :: "'j updateEnv \<Rightarrow> sectionValue \<Rightarrow> system \<Rightarrow> goError option \<times> system" where
  "update env (RoutingSection r) s = UpdateRouting env r s"
| "update env (FrontProxySection f) s = UpdateFrontProxySection env f s"
| "update env (ProxyAPISection p) s = UpdateProxyAPISection env p s"

definition wiredConfig :: "(string \<Rightarrow> URL option) \<Rightarrow> string \<Rightarrow> Config \<Rightarrow> RuntimeConfig" where
  "wiredConfig parseURL path cfg =
     NewRuntimeConfig path cfg (Some SetRouter) (Some (\<lambda>t. UpdateFrontProxy t parseURL)) [Some (UpdateProxyAPI parseURL)]"

section \<open>Transactions\<close>

text \<open>
  The contract of an operation that changes what matters completely or not at all: a failing run keeps
  the view of the state, a succeeding run relates the views, and both keep the invariant.
\<close>

locale transaction =
  fixes run :: "'s \<Rightarrow> goError option \<times> 's"
    and view :: "'s \<Rightarrow> 'v"
    and ok :: "'s \<Rightarrow> bool"
    and done_by :: "'s \<Rightarrow> 's \<Rightarrow> bool"
  assumes failure_keeps: "ok s \<Longrightarrow> run s = (Some err, s') \<Longrightarrow> view s' = view s"
    and ok_step: "ok s \<Longrightarrow> ok (snd (run s))"
    and success: "ok s \<Longrightarrow> run s = (None, s') \<Longrightarrow> done_by s s'"
begin

lemma run_cases:
  assumes "ok s"
  obtains (failed) err s' where "run s = (Some err, s')" "view s' = view s" "ok s'"
    | (succeeded) s' where "run s = (None, s')" "done_by s s'" "ok s'"
  by (cases "run s" rule: prod.exhaust; cases "fst (run s)")
    (use assms ok_step [of s] failure_keeps success in auto)

lemma retries:
  assumes "ok s" and "\<forall>i<n. fst (run (((\<lambda>s. snd (run s)) ^^ i) s)) \<noteq> None"
  shows "view (((\<lambda>s. snd (run s)) ^^ n) s) = view s \<and> ok (((\<lambda>s. snd (run s)) ^^ n) s)"
  using assms(2)
proof (induction n)
  case (Suc n)
  let ?s = "((\<lambda>s. snd (run s)) ^^ n) s"
  from Suc have now: "view ?s = view s" "ok ?s"
    by (meson less_Suc_eq)+
  have failed: "fst (run ?s) \<noteq> None"
    using Suc.prems by blast
  show ?case
    using now(1) failed by (cases rule: run_cases [OF now(2)]) simp_all
qed (simp add: assms(1))

end

section \<open>The file write\<close>

lemma giveUp_simps [simp]:
  "fst (giveUp env err trace fs) = Some err" "giveUp env err trace fs \<noteq> (None, tr)"
  "set (snd (giveUp env err trace fs)) = insert (if weRemoveFails env then fs else del (weTmp env) fs) (set trace)"
  "last (snd (giveUp env err trace fs)) = (if weRemoveFails env then fs else del (weTmp env) fs)"
  by (simp_all add: giveUp_def)

text \<open>
  The old entry, or the new data under the old mode: nothing else is ever visible at \<open>path\<close>.
\<close>

definition sameBut :: "string \<Rightarrow> fileSys \<Rightarrow> fileSys \<Rightarrow> bool" where
  "sameBut tmp fs fs' \<longleftrightarrow> (\<forall>p. p \<noteq> tmp \<longrightarrow> get fs' p = get fs p)"

lemma sameBut_refl [simp, intro]: "sameBut tmp fs fs"
  by (simp add: sameBut_def)

lemma sameBut_tmp [simp]: "sameBut tmp fs (put tmp e fs') = sameBut tmp fs fs'" "sameBut tmp fs (del tmp fs') = sameBut tmp fs fs'"
  by (simp_all add: sameBut_def)

lemma sameBut_get: "sameBut tmp fs fs' \<Longrightarrow> p \<noteq> tmp \<Longrightarrow> get fs' p = get fs p"
  by (simp add: sameBut_def)

lemma atomicWriteFile_failed:
  assumes "atomicWriteFile env path data fs = (Some err, trace)"
  shows "trace \<noteq> [] \<and> (\<forall>fs'\<in>set trace. sameBut (weTmp env) fs fs')"
  using assms by (auto simp: atomicWriteFile_def Let_def giveUp_def split: option.splits if_splits)

lemma atomicWriteFile_written:
  assumes "atomicWriteFile env path data fs = (None, trace)"
  obtains info early where "get fs path = Some info"
    and "trace = early @ [put path \<lparr>feMode = feMode info, feData = data\<rparr> (del (weTmp env) (last early))]"
    and "early \<noteq> []" and "\<forall>fs'\<in>set early. sameBut (weTmp env) fs fs'"
proof -
  obtain info where info: "get fs path = Some info"
    using assms by (auto simp: atomicWriteFile_def split: option.splits)
  let ?c = "put (weTmp env) \<lparr>feMode = 384, feData = []\<rparr> fs"
  let ?h = "put (weTmp env) \<lparr>feMode = feMode info, feData = []\<rparr> ?c"
  let ?w = "put (weTmp env) \<lparr>feMode = feMode info, feData = data\<rparr> ?h"
  have "trace = [fs, ?c, ?h, ?w] @ [put path \<lparr>feMode = feMode info, feData = data\<rparr> (del (weTmp env) ?w)]"
    using assms info by (simp add: atomicWriteFile_def Let_def split: option.splits)
  then show thesis
    using that [OF info, of "[fs, ?c, ?h, ?w]"] by simp
qed

lemma writeSection_failed:
  assumes "writeSection env codec path v fs = (Some err, trace)"
  shows "trace \<noteq> [] \<and> (\<forall>fs'\<in>set trace. sameBut (weTmp env) fs fs')"
  using assms atomicWriteFile_failed [of env path _ fs err trace]
  by (auto simp: writeSection_def split: if_splits option.splits sum.splits)

lemma writeSection_written:
  assumes "writeSection env codec path v fs = (None, trace)"
  obtains info out early where "get fs path = Some info" and "rewrite codec v (feData info) = Inr out"
    and "trace = early @ [put path \<lparr>feMode = feMode info, feData = out\<rparr> (del (weTmp env) (last early))]"
    and "early \<noteq> []" and "\<forall>fs'\<in>set early. sameBut (weTmp env) fs fs'"
proof -
  obtain info out where *: "get fs path = Some info" "rewrite codec v (feData info) = Inr out"
    "atomicWriteFile env path out fs = (None, trace)"
    using assms by (auto simp: writeSection_def split: if_splits option.splits sum.splits)
  from atomicWriteFile_written [OF *(3)] * that show thesis
    by (metis option.inject)
qed

section \<open>An update as a transaction\<close>

text \<open>What is stored for an update, and that the program runs with it.\<close>

fun stored :: "sectionValue \<Rightarrow> sectionValue" where
  "stored (ProxyAPISection p) = ProxyAPISection (normalizedConfig p)"
| "stored v = v"

fun in_force :: "'j updateEnv \<Rightarrow> sectionValue \<Rightarrow> system \<Rightarrow> bool" where
  "in_force env (RoutingSection r) s \<longleftrightarrow>
     (\<exists>c k. syRuntime s = Some c \<and> rcRouting c = r \<and> gwRouter (syGateway s) = Some k
        \<and> newMatcher (ueRegex env) (ueReadFile env) (ueGeosite env) r = Inr k)"
| "in_force env (FrontProxySection f) s \<longleftrightarrow>
     (\<exists>c. syRuntime s = Some c \<and> rcFrontProxy c = f \<and> cfgFrontProxy (mCfg (syManager s)) = normalizeNext f
        \<and> newConnector (normalizeNext f) (dnsUpstream (cfgDNS (mCfg (syManager s)))) = Inr (connector (syManager s)))"
| "in_force env (ProxyAPISection p) s \<longleftrightarrow>
     (\<exists>c k. syRuntime s = Some c \<and> rcProxyAPI c = normalizedConfig p
        \<and> syProvider s = \<lparr>papiConfig = normalizedConfig p, papiClient = Some k\<rparr>
        \<and> newClient (ueParseURL env) (normalizedConfig p) (cfgFrontProxy (mCfg (syManager s))) = Inr k)"

text \<open>The JSON library reads back the sections it has printed, also with another final newline.\<close>

definition codec_ok :: "'j codec \<Rightarrow> bool" where
  "codec_ok codec \<longleftrightarrow> (\<forall>doc out. cdEncode codec doc = Inr out \<longrightarrow>
     (\<exists>doc'. cdDecode codec (finishDocument out) = Inr (Some doc') \<and> get doc' = get doc))"

definition wired :: "'j updateEnv \<Rightarrow> system \<Rightarrow> bool" where
  "wired env s \<longleftrightarrow> (\<exists>c. syRuntime s = Some c \<and> rcPath c \<noteq> weTmp (ueWrite env)
     \<and> rcApplyRouting c = Some SetRouter \<and> rcApplyFrontProxy c = Some (\<lambda>t. UpdateFrontProxy t (ueParseURL env))
     \<and> rcApplyProxyAPI c = Some (UpdateProxyAPI (ueParseURL env)))"

definition configPath :: "system \<Rightarrow> string" where
  "configPath s = (case syRuntime s of None \<Rightarrow> [] | Some c \<Rightarrow> rcPath c)"

text \<open>The file holds the new section, and every other section and every other file is as before.\<close>

definition rewritten :: "'j updateEnv \<Rightarrow> sectionValue \<Rightarrow> string \<Rightarrow> fileSys \<Rightarrow> fileSys \<Rightarrow> bool" where
  "rewritten env v path fs fs' \<longleftrightarrow>
     (\<exists>info out doc doc' j. get fs path = Some info \<and> cdDecode (ueCodec env) (feData info) = Inr (Some doc)
        \<and> cdSection (ueCodec env) v = Inr j \<and> get fs' path = Some \<lparr>feMode = feMode info, feData = out\<rparr>
        \<and> cdDecode (ueCodec env) out = Inr (Some doc') \<and> get doc' = (get doc)(sectionName v \<mapsto> j)
        \<and> (\<forall>p. p \<noteq> path \<and> p \<noteq> weTmp (ueWrite env) \<longrightarrow> get fs' p = get fs p))"

lemma writeSection_rewritten:
  assumes "writeSection (ueWrite env) (ueCodec env) path v fs = (None, trace)"
    and "codec_ok (ueCodec env)" and "path \<noteq> weTmp (ueWrite env)"
  shows "rewritten env v path fs (last trace)"
  using assms(1)
proof (rule writeSection_written)
  fix info out early
  assume info: "get fs path = Some info" and out: "rewrite (ueCodec env) v (feData info) = Inr out"
    and trace: "trace = early @ [put path \<lparr>feMode = feMode info, feData = out\<rparr> (del (weTmp (ueWrite env)) (last early))]"
    and early: "early \<noteq> []" "\<forall>fs'\<in>set early. sameBut (weTmp (ueWrite env)) fs fs'"
  obtain doc j raw where doc: "cdDecode (ueCodec env) (feData info) = Inr (Some doc)" "cdSection (ueCodec env) v = Inr j"
      "cdEncode (ueCodec env) (put (sectionName v) j doc) = Inr raw" "out = finishDocument raw"
    using out by (auto simp: rewrite_def split: sum.splits option.splits)
  moreover obtain doc' where "cdDecode (ueCodec env) out = Inr (Some doc')" "get doc' = (get doc)(sectionName v \<mapsto> j)"
    using assms(2) doc(3,4) unfolding codec_ok_def by (metis get_put)
  moreover have "sameBut (weTmp (ueWrite env)) fs (last early)"
    using early by simp
  ultimately show "rewritten env v path fs (last trace)"
    using info trace by (auto simp: rewritten_def sameBut_def)
qed

definition visible :: "'j updateEnv \<Rightarrow> system \<Rightarrow> system \<times> (string \<Rightarrow> fileEntry option)" where
  "visible env s = (s\<lparr>syFiles := []\<rparr>, (get (syFiles s))(weTmp (ueWrite env) := None))"

lemma visible_iff:
  "visible env s' = visible env s \<longleftrightarrow> s'\<lparr>syFiles := syFiles s\<rparr> = s \<and> sameBut (weTmp (ueWrite env)) (syFiles s) (syFiles s')"
  by (cases s; cases s') (auto simp: visible_def sameBut_def fun_eq_iff)

lemma wakeQueue_connector [simp]: "connector (wakeQueue t m) = connector m" "mCfg (wakeQueue t m) = mCfg m"
  "connector (cancelQueueRetry m) = connector m" "mCfg (cancelQueueRetry m) = mCfg m"
  by (simp_all add: processQueueAsync_def scheduleQueueRetry_def cancelQueueRetry_def Let_def)

lemma persistSection_Some:
  assumes "persistSection env codec path v = Some write" and "write fs = (e, fs')"
  obtains trace where "writeSection env codec path v fs = (e, trace)" and "fs' = last trace"
  using assms by (auto simp: persistSection_def split: prod.splits)

lemma writeSection_kept:
  assumes "writeSection env codec path v fs = (Some err, trace)"
  shows "sameBut (weTmp env) fs (last trace)"
  using writeSection_failed [OF assms] by simp

lemma UpdateProxyAPI_cases:
  assumes "UpdateProxyAPI parseURL p (persistSection env codec path v) (ps, m, fs) = (e, ps', m', fs')"
  obtains (failed) err where "e = Some err" "ps' = ps" "m' = m" "sameBut (weTmp env) fs fs'"
    | (succeeded) k trace where "e = None" "writeSection env codec path v fs = (None, trace)" "fs' = last trace"
        "newClient parseURL (normalizedConfig p) (cfgFrontProxy (mCfg m)) = Inr k"
        "ps' = \<lparr>papiConfig = normalizedConfig p, papiClient = Some k\<rparr>"
        "m' = m\<lparr>mCfg := (mCfg m)\<lparr>cfgProxyAPI := normalizedConfig p\<rparr>\<rparr>"
  using assms writeSection_kept [of env codec path v fs]
  by (auto simp: UpdateProxyAPI_def persistSection_def Let_def split: sum.splits prod.splits option.splits)

lemma UpdateFrontProxy_cases:
  assumes "UpdateFrontProxy now parseURL f (persistSection env codec path v) (ps, m, fs) = (e, ps', m', fs')"
  obtains (failed) err where "e = Some err" "ps' = ps" "m' = m" "sameBut (weTmp env) fs fs'"
    | (succeeded) k trace where "e = None" "writeSection env codec path v fs = (None, trace)" "fs' = last trace"
        "newConnector (normalizeNext f) (dnsUpstream (cfgDNS (mCfg m))) = Inr (connector m')"
        "mCfg m' = (mCfg m)\<lparr>cfgFrontProxy := normalizeNext f\<rparr>"
        "ps' = ps\<lparr>papiClient := Some k\<rparr>"
  using assms writeSection_kept [of env codec path v fs]
  by (auto simp: UpdateFrontProxy_def persistSection_def Let_def split: sum.splits prod.splits option.splits if_splits)

lemma normalizedConfig_idem [simp]: "normalizedConfig (normalizedConfig p) = normalizedConfig p"
proof -
  have "TrimSpace ''region'' = ''region''" "TrimSpace ''time'' = ''time''"
    by code_simp+
  then show ?thesis
    by (simp add: normalizedConfig_def)
qed

interpretation provider_defaults: normaliser normalizedConfig
  by unfold_locales (rule normalizedConfig_idem)

lemma update_failed:
  assumes w: "wired env s" and u: "update env v s = (Some err, s')"
  shows "visible env s' = visible env s"
proof (cases v)
  case (RoutingSection r)
  then show ?thesis
    using assms writeSection_kept [of "ueWrite env" "ueCodec env"]
    by (auto simp: visible_iff UpdateRouting_def split: option.splits sum.splits prod.splits)
next
  case (FrontProxySection f)
  obtain c where c: "syRuntime s = Some c" "rcApplyFrontProxy c = Some (\<lambda>t. UpdateFrontProxy t (ueParseURL env))"
    using w by (auto simp: wired_def)
  obtain e ps m fs where r: "UpdateFrontProxy (ueNow env) (ueParseURL env) f
      (persistSection (ueWrite env) (ueCodec env) (rcPath c) (FrontProxySection f)) (syProvider s, syManager s, syFiles s) = (e, ps, m, fs)"
    by (metis surj_pair)
  from r u c FrontProxySection show ?thesis
    by (cases rule: UpdateFrontProxy_cases)
      (auto simp: r visible_iff UpdateFrontProxySection_def runApply_def Let_def)
next
  case (ProxyAPISection p)
  obtain c where c: "syRuntime s = Some c" "rcApplyProxyAPI c = Some (UpdateProxyAPI (ueParseURL env))"
    using w by (auto simp: wired_def)
  obtain e ps m fs where r: "UpdateProxyAPI (ueParseURL env) (normalizedConfig p)
      (persistSection (ueWrite env) (ueCodec env) (rcPath c) (ProxyAPISection (normalizedConfig p))) (syProvider s, syManager s, syFiles s) = (e, ps, m, fs)"
    by (metis surj_pair)
  from r u c ProxyAPISection show ?thesis
    by (cases rule: UpdateProxyAPI_cases)
      (auto simp: r visible_iff UpdateProxyAPISection_def runApply_def Let_def split: option.splits)
qed

lemma update_written:
  assumes w: "wired env s" and u: "update env v s = (None, s')"
  shows "(\<exists>trace. writeSection (ueWrite env) (ueCodec env) (configPath s) (stored v) (syFiles s) = (None, trace)
            \<and> syFiles s' = last trace) \<and> in_force env v s' \<and> wired env s'"
proof -
  obtain c where c: "syRuntime s = Some c" "rcPath c \<noteq> weTmp (ueWrite env)" "rcApplyRouting c = Some SetRouter"
    "rcApplyFrontProxy c = Some (\<lambda>t. UpdateFrontProxy t (ueParseURL env))"
    "rcApplyProxyAPI c = Some (UpdateProxyAPI (ueParseURL env))"
    using w by (auto simp: wired_def)
  show ?thesis
  proof (cases v)
    case (RoutingSection r)
    then show ?thesis
      using u c by (auto simp: UpdateRouting_def SetRouter_def configPath_def wired_def split: sum.splits prod.splits option.splits)
  next
    case (FrontProxySection f)
    obtain e ps m fs where r: "UpdateFrontProxy (ueNow env) (ueParseURL env) f
        (persistSection (ueWrite env) (ueCodec env) (rcPath c) (FrontProxySection f)) (syProvider s, syManager s, syFiles s) = (e, ps, m, fs)"
      by (metis surj_pair)
    from r u c FrontProxySection show ?thesis
      by (cases rule: UpdateFrontProxy_cases)
        (auto simp: r UpdateFrontProxySection_def runApply_def Let_def configPath_def wired_def)
  next
    case (ProxyAPISection p)
    obtain e ps m fs where r: "UpdateProxyAPI (ueParseURL env) (normalizedConfig p)
        (persistSection (ueWrite env) (ueCodec env) (rcPath c) (ProxyAPISection (normalizedConfig p))) (syProvider s, syManager s, syFiles s) = (e, ps, m, fs)"
      by (metis surj_pair)
    from r u c ProxyAPISection show ?thesis
      by (cases rule: UpdateProxyAPI_cases)
        (auto simp: r UpdateProxyAPISection_def runApply_def Let_def configPath_def wired_def split: option.splits)
  qed
qed

lemma configPath_wired: "wired env s \<Longrightarrow> configPath s \<noteq> weTmp (ueWrite env)"
  by (auto simp: wired_def configPath_def)

lemma wired_visible: "wired env s \<Longrightarrow> visible env s' = visible env s \<Longrightarrow> wired env s'"
  by (simp add: visible_def wired_def) (metis system.select_convs(1) system.surjective system.update_convs(5))

text \<open>An unusable routing action is accepted here although a start with the written file refuses it.\<close>

definition strangeRouting :: RoutingConfig where
  "strangeRouting = (cfgRouting exampleConfig)\<lparr>rtEnabled := True, rtDefaultAction := ''Direct'', rtDirectDomains := [],
     rtProxyDomains := [], rtBlockDomains := [], rtRules := [\<lparr>ruleType = ''full'', ruleValue = ''a.b'', ruleAction = ''drop''\<rparr>],
     rtGeositePath := []\<rparr>"

lemma update_accepts_what_load_refuses:
  "\<not> isl (newMatcher compileRegex readFile unmarshal strangeRouting)
   \<and> validateRoutingAction ''routing.default_action'' (rtDefaultAction strangeRouting) \<noteq> None
   \<and> validateRules 0 (rtRules strangeRouting) \<noteq> None"
  by code_simp

interpretation updates: transaction "update env v" "visible env" "wired env"
    "\<lambda>s s'. codec_ok (ueCodec env) \<longrightarrow> rewritten env (stored v) (configPath s) (syFiles s) (syFiles s') \<and> in_force env v s'"
  for env v
proof
  fix s s' err
  assume w: "wired env s"
  show "update env v s = (Some err, s') \<Longrightarrow> visible env s' = visible env s"
    using w by (rule update_failed)
  show "update env v s = (None, s') \<Longrightarrow> codec_ok (ueCodec env) \<longrightarrow>
      rewritten env (stored v) (configPath s) (syFiles s) (syFiles s') \<and> in_force env v s'"
    using update_written [OF w] writeSection_rewritten [of env] configPath_wired [OF w] by metis
  show "wired env (snd (update env v s))"
  proof (cases "update env v s")
    case (Pair e s')
    then show ?thesis
      using update_written [OF w] wired_visible [OF w update_failed [OF w]] by (cases e) auto
  qed
qed

lemma writeSection_crash:
  assumes "fs' \<in> set (snd (writeSection (ueWrite env) (ueCodec env) path v fs))"
    and "codec_ok (ueCodec env)" and "path \<noteq> weTmp (ueWrite env)"
  shows "get fs' path = get fs path \<or> rewritten env v path fs fs'"
proof -
  obtain e trace where r: "writeSection (ueWrite env) (ueCodec env) path v fs = (e, trace)"
    by (metis surj_pair)
  show ?thesis
  proof (cases e)
    case (Some err)
    with r assms(1,3) writeSection_failed show ?thesis
      by (metis sameBut_get snd_conv)
  next
    case None
    with r obtain early new where "trace = early @ [new]" "\<forall>fs'\<in>set early. sameBut (weTmp (ueWrite env)) fs fs'"
      by (metis writeSection_written)
    then have "fs' = last trace \<or> sameBut (weTmp (ueWrite env)) fs fs'"
      using assms(1) r by auto
    then show ?thesis
      using writeSection_rewritten [OF _ assms(2,3)] r None assms(3) sameBut_get by metis
  qed
qed

text \<open>
  C15. Replacing a section of the configuration at run time is atomic, whatever call fails. When the
  update reports an error, nothing has changed: not the runtime configuration, the gateway, the
  provider client or the manager, and no file but the temporary one. When it succeeds, the file holds
  the new section under the old mode with every other section kept, no other file changed, and the
  program runs with the new value. And every state in which a crash may leave the file is the old
  file or the rewritten one.
\<close>

theorem runtime_updates_are_atomic:
  assumes "wired env s" and "codec_ok (ueCodec env)"
  shows "(case update env v s of
      (Some err, s') \<Rightarrow> visible env s' = visible env s
    | (None, s') \<Rightarrow> rewritten env (stored v) (configPath s) (syFiles s) (syFiles s') \<and> in_force env v s')
    \<and> (\<forall>w. \<forall>fs'\<in>set (snd (writeSection (ueWrite env) (ueCodec env) (configPath s) w (syFiles s))).
        get fs' (configPath s) = get (syFiles s) (configPath s) \<or> rewritten env w (configPath s) (syFiles s) fs')"
proof
  show "case update env v s of
      (Some err, s') \<Rightarrow> visible env s' = visible env s
    | (None, s') \<Rightarrow> rewritten env (stored v) (configPath s) (syFiles s) (syFiles s') \<and> in_force env v s'"
    using assms(2) by (cases rule: updates.run_cases [OF assms(1), of v]) simp_all
  show "\<forall>w. \<forall>fs'\<in>set (snd (writeSection (ueWrite env) (ueCodec env) (configPath s) w (syFiles s))).
      get fs' (configPath s) = get (syFiles s) (configPath s) \<or> rewritten env w (configPath s) (syFiles s) fs'"
    using writeSection_crash [OF _ assms(2) configPath_wired [OF assms(1)]] by blast
qed

definition exampleDoc :: "string \<Rightarrow> string table" where
  "exampleDoc r = [(''api'', ''keys''), (''routing'', r)]"

definition exampleCodec :: "string codec" where
  "exampleCodec =
     \<lparr>cdDecode = (\<lambda>d. if d = ''old'' then Inr (Some (exampleDoc ''r0''))
                     else if d = ''new'' @ [CHR 0x0A] then Inr (Some (exampleDoc ''r1'')) else Inl (ErrIO ''syntax'')),
      cdEncode = (\<lambda>d. if d = exampleDoc ''r1'' then Inr ''new'' else Inl (ErrIO ''unsupported'')),
      cdSection = (\<lambda>v. case v of RoutingSection _ \<Rightarrow> Inr ''r1'' | _ \<Rightarrow> Inr ''other'')\<rparr>"

definition exampleUpdate :: "(writeStep \<Rightarrow> goError option) \<Rightarrow> string updateEnv" where
  "exampleUpdate fail = \<lparr>ueNow = 0, ueParseURL = (\<lambda>_. None), ueRegex = (\<lambda>_. Inl (ErrIO ''regex'')),
     ueReadFile = (\<lambda>_. Inl errNotExist), ueGeosite = (\<lambda>_. Inr []),
     ueWrite = \<lparr>weTmp = ''.config.tmp-1'', weFail = fail, weWritten = 1, weRemoveFails = False\<rparr>, ueCodec = exampleCodec\<rparr>"

definition exampleSystem :: system where
  "exampleSystem =
     \<lparr>syRuntime = Some (wiredConfig (\<lambda>_. None) ''config'' exampleConfig),
      syGateway = exampleGateway, syProvider = \<lparr>papiConfig = cfgProxyAPI exampleConfig, papiClient = None\<rparr>,
      syManager = exampleManager, syFiles = [(''config'', \<lparr>feMode = 420, feData = ''old''\<rparr>)]\<rparr>"

definition renameFails :: "writeStep \<Rightarrow> goError option" where
  "renameFails st = (if st = RenameTemp then Some (ErrIO ''rename'') else None)"

lemma exampleUpdate_ok: "wired (exampleUpdate fail) exampleSystem" "codec_ok (ueCodec (exampleUpdate fail))"
proof -
  show "wired (exampleUpdate fail) exampleSystem"
    by (simp add: wired_def exampleSystem_def exampleUpdate_def wiredConfig_def NewRuntimeConfig_def)
  show "codec_ok (ueCodec (exampleUpdate fail))"
    by (simp add: codec_ok_def exampleUpdate_def exampleCodec_def finishDocument_def)
qed

lemma runtime_updates_are_atomic_witness:
  "fst (update (exampleUpdate (\<lambda>_. None)) (RoutingSection strangeRouting) exampleSystem) = None
   \<and> in_force (exampleUpdate (\<lambda>_. None)) (RoutingSection strangeRouting)
       (snd (update (exampleUpdate (\<lambda>_. None)) (RoutingSection strangeRouting) exampleSystem))
   \<and> fst (update (exampleUpdate renameFails) (RoutingSection strangeRouting) exampleSystem) \<noteq> None
   \<and> visible (exampleUpdate renameFails) (snd (update (exampleUpdate renameFails) (RoutingSection strangeRouting) exampleSystem))
       = visible (exampleUpdate renameFails) exampleSystem"
proof -
  have ok: "fst (update (exampleUpdate (\<lambda>_. None)) (RoutingSection strangeRouting) exampleSystem) = None"
    and failing: "fst (update (exampleUpdate renameFails) (RoutingSection strangeRouting) exampleSystem) = Some (ErrIO ''rename'')"
    by code_simp+
  show ?thesis
    using ok failing
      runtime_updates_are_atomic [OF exampleUpdate_ok, of "\<lambda>_. None" "RoutingSection strangeRouting"]
      runtime_updates_are_atomic [OF exampleUpdate_ok, of renameFails "RoutingSection strangeRouting"]
    by (simp add: case_prod_beta)
qed

end
