(* ===== verification/Isolation.thy ===== *)
theory Isolation
  imports LeaseEngine Dynamic
begin

text \<open>
  What an operation for one client leaves alone: the leases and the registered connections of all the
  other clients. Every section of a lease request keeps them, and so do the loop of \<open>ensureLease\<close> and
  the activation of a rented proxy.
\<close>

definition foreign :: "string \<Rightarrow> Manager \<Rightarrow> (string \<Rightarrow> LeaseView option) \<times> connID list table" where
  "foreign ip m = ((get (leases m))(ip := None), conns m)"

lemma foreign_get: "foreign ip m' = foreign ip m \<Longrightarrow> c \<noteq> ip \<Longrightarrow> get (leases m') c = get (leases m) c"
  by (simp add: foreign_def) (metis fun_upd_other)

lemma foreign_modifyProxy [simp]: "foreign ip (modifyProxy pid g m) = foreign ip m"
  by (simp add: foreign_def modifyProxy_def split: option.split)

lemma foreign_fields [simp]:
  "foreign ip (m\<lparr>queueActive := b\<rparr>) = foreign ip m" "foreign ip (m\<lparr>connector := k\<rparr>) = foreign ip m"
  "foreign ip (m\<lparr>mDB := db\<rparr>) = foreign ip m" "foreign ip (m\<lparr>closing := cs\<rparr>) = foreign ip m"
  "foreign ip (m\<lparr>proxies := ps, proxyOrder := ord\<rparr>) = foreign ip m"
  "foreign ip (addEvent f t c pid e d m) = foreign ip m" "foreign ip (withDB h m) = foreign ip m"
  "foreign ip (deferQueueRetry t delay m) = foreign ip m" "foreign ip (cancelQueueRetry m) = foreign ip m"
  "foreign ip (removeQueued c m) = foreign ip m" "foreign ip (removeProxy pid m) = foreign ip m"
  "foreign ip (m\<lparr>leases := del ip (leases m)\<rparr>) = foreign ip m"
  "foreign ip (m\<lparr>leases := put ip l (leases m)\<rparr>) = foreign ip m"
  "foreign ip (m\<lparr>proxies := ps\<rparr>) = foreign ip m"
  by (auto simp: foreign_def addEvent_def withDB_def deferQueueRetry_def cancelQueueRetry_def removeQueued_def
      removeProxy_def Let_def fun_eq_iff)

lemma foreign_enqueue [simp]:
  "foreign ip (enqueueNew t ip m) = foreign ip m" "foreign ip (enqueueRefresh t ip m) = foreign ip m"
  by (auto simp: foreign_def enqueueNew_def enqueueRefresh_def stampQueued_def split: option.split)

lemma foreign_scheduleQueueRetry [simp]: "foreign ip (scheduleQueueRetry m) = foreign ip m"
  by (simp add: scheduleQueueRetry_def Let_def foreign_def cancelQueueRetry_def)

lemma foreign_wakeQueue [simp]: "foreign ip (wakeQueue t m) = foreign ip m"
  by (simp add: processQueueAsync_def)

lemma foreign_markProbeFailed [simp]: "foreign ip (markProbeFailed f t pid e m) = foreign ip m"
  by (simp add: markProbeFailed_def)

lemma foreign_restoreAmbiguousProbes [simp]: "foreign ip (restoreAmbiguousProbes c ps m) = foreign ip m"
  unfolding restoreAmbiguousProbes_def
  by (induction ps arbitrary: m) (simp_all add: restoreProbe_def split: option.split)

lemma foreign_markAmbiguousProbesFailed [simp]: "foreign ip (markAmbiguousProbesFailed f n t c ps m) = foreign ip m"
  by (induction f n t c ps m rule: markAmbiguousProbesFailed.induct) (simp_all add: failProbe_def split: option.split)

lemma foreign_restorePendingSnapshot [simp]: "foreign ip (restorePendingSnapshot c s m) = foreign ip m"
  by (simp add: restorePendingSnapshot_def foreign_def)

lemma foreign_dropDynamic [simp]: "foreign ip (dropDynamic f t n pids m) = foreign ip m"
  by (induction f t n pids m rule: dropDynamic.induct) (simp_all split: option.split)

lemma foreign_releaseDraining [simp]: "foreign ip (fold (releaseDraining c) pids m) = foreign ip m"
  by (induction pids arbitrary: m) (simp_all add: releaseDraining_def split: option.split)

lemma foreign_releaseLocked [simp]: "foreign ip (releaseLocked f t ip b m) = foreign ip m"
  by (simp add: releaseLocked_def Let_def split: option.split)

section \<open>The sections of a request\<close>

lemma foreign_enqueuePendingLease: "foreign ip (snd (enqueuePendingLease f t ip r m)) = foreign ip m"
  by (simp add: enqueuePendingLease_def Let_def split: option.split)

lemma foreign_reserve: "foreign ip (snd (reserveProxyForLease f g t ip r m)) = foreign ip m"
  by (simp add: reserveProxyForLease_def reserveIdle_def releaseIfExpired_def Let_def foreign_enqueuePendingLease
      split_beta split: option.split)

lemma foreign_activateCheckedProxy: "foreign ip (snd (activateCheckedProxy f t pid ip r e m)) = foreign ip m"
proof -
  have "get (leases (snd (activateCheckedProxy f t pid ip r e m))) c = get (leases m) c" if "c \<noteq> ip" for c
    using that by (simp add: activateCheckedProxy_def Let_def addEvent_def withDB_def split: option.split)
  moreover have "conns (snd (activateCheckedProxy f t pid ip r e m)) = conns m"
    by (simp add: activateCheckedProxy_def Let_def addEvent_def withDB_def split: option.split)
  ultimately show ?thesis
    by (auto simp: foreign_def fun_eq_iff)
qed

lemma foreign_deferCheckedProxy: "foreign ip (snd (deferCheckedProxy t pid ip r m)) = foreign ip m"
  by (simp add: deferCheckedProxy_def Let_def split: option.split)

lemma foreign_canceledProbeAssignment: "foreign ip (snd (canceledProbeAssignment pid ps ip r m)) = foreign ip m"
  by (simp add: canceledProbeAssignment_def Let_def split: option.split)

lemma foreign_frontBackoffAssignment: "foreign ip (snd (frontBackoffAssignment t ip r m)) = foreign ip m"
  by (simp add: frontBackoffAssignment_def split: option.split)

lemma foreign_absorbEvidence: "foreign c (snd (absorbEvidence f t ip ps ev m)) = foreign c m"
  by (simp add: absorbEvidence_def Let_def split_beta split: option.split)

lemma foreign_afterProbe: "foreign ip (snd (afterProbe f t stopped ev ip r pid res ps m)) = foreign ip m"
  by (simp add: afterProbe_def Let_def split_beta foreign_absorbEvidence foreign_enqueuePendingLease foreign_activateCheckedProxy
      foreign_deferCheckedProxy foreign_canceledProbeAssignment split: option.split sum.split)

section \<open>A request in a calm environment\<close>

text \<open>The other goroutines may do anything but touch the leases and connections of other clients than \<open>ip\<close>.\<close>

definition calmLease :: "string \<Rightarrow> leaseEnv \<Rightarrow> bool" where
  "calmLease ip env \<longleftrightarrow> (\<forall>n m. foreign ip (leOthers env n m) = foreign ip m)
     \<and> (\<forall>n p m. foreign ip (snd (leProbe env n p m)) = foreign ip m)"

lemma calmLease_simps:
  assumes "calmLease ip env"
  shows "foreign ip (leOthers env n m) = foreign ip m" and "foreign ip (snd (leProbe env n p m)) = foreign ip m"
  using assms by (simp_all add: calmLease_def)

lemma settledByEvidence_foreign: "settledByEvidence env n ip ps m = Some m' \<Longrightarrow> foreign c m' = foreign c m"
  by (auto simp: settledByEvidence_def applyRecentCrossEvidence_def Let_def split: option.splits prod.splits if_splits)

lemma crossValidate_foreign:
  assumes "calmLease ip env"
  shows "case crossValidate env n ip ps s m of Inl m' \<Rightarrow> foreign ip m' = foreign ip m
    | Inr (_, m') \<Rightarrow> foreign ip m' = foreign ip m"
  by (simp add: crossValidate_def Let_def split_beta calmLease_simps [OF assms] split: option.split)

lemma reportBatch_foreign: "calmLease ip env \<Longrightarrow> foreign ip (reportBatch env n ip ps m) = foreign ip m"
  by (simp add: reportBatch_def Let_def split_beta calmLease_simps split: option.split)

lemma resolve_foreign:
  assumes "calmLease ip env"
  shows "foreign ip (resolveAmbiguousLeaseBatch env n ip ps s m) = foreign ip m"
proof -
  have cv: "crossValidate env k ip qs s m1 = Inl m2 \<Longrightarrow> foreign ip m2 = foreign ip m1"
    "crossValidate env k ip qs s m1 = Inr (qs', m2) \<Longrightarrow> foreign ip m2 = foreign ip m1" for k qs qs' m1 m2
    using crossValidate_foreign [OF assms, where n = k and ps = qs and s = s and m = m1] by auto
  show ?thesis
    by (auto simp: resolveAmbiguousLeaseBatch_def Let_def calmLease_simps [OF assms] reportBatch_foreign [OF assms]
        dest!: settledByEvidence_foreign [where c = ip] cv split: option.split sum.split prod.split)
qed

lemma leaseLoop_foreign:
  assumes "leaseLoop env n ip r s ps m = Some res" and "calmLease ip env"
  shows "foreign ip (snd res) = foreign ip m"
  using assms
proof (induction env n ip r s ps m res rule: leaseLoop_induct)
  case (round loop env n ip r s ps m res)
  note calm = calmLease_simps [OF \<open>calmLease ip env\<close>] resolve_foreign [OF \<open>calmLease ip env\<close>]
  obtain x m1 where reserve: "reserveProxyForLease (leFaults env n) (leFaults env (n + 1)) (leClock env n) ip r
        (leOthers env n m) = (x, m1)" by fastforce
  then have m1: "foreign ip m1 = foreign ip m" using foreign_reserve calm(1) by (metis snd_conv)
  show ?case
  proof (cases x)
    case (Inl a)
    then show ?thesis using round.hyps reserve m1 by (auto simp: calm)
  next
    case (Inr q)
    obtain pr m2 where probe: "leProbe env n q m1 = (pr, m2)" by fastforce
    then have m2: "foreign ip m2 = foreign ip m1" using calm(2) by (metis snd_conv)
    obtain st m3 where after: "afterProbe (leFaults env (n + 2)) (leClock env (n + 1)) (leStopped env (n + 1))
          (frontEvidenceForProbeResult (connector m2) (pAddress q) (resultErr pr)) ip r (pID q) pr ps
          (leOthers env (n + 1) m2) = (st, m3)" by fastforce
    then have m3: "foreign ip m3 = foreign ip m2" using foreign_afterProbe calm(1) by (metis snd_conv)
    note step = round.hyps reserve Inr probe after m1 m2 m3
    show ?thesis
    proof (cases st)
      case (Again qs)
      then have "loop env (n + 2) ip r s qs m3 = Some res" using step by simp
      then show ?thesis using round.IH \<open>calmLease ip env\<close> m1 m2 m3 by metis
    qed (use step in \<open>auto simp: calm\<close>)
  qed
qed

lemma ensureLease_foreign:
  assumes "ensureLease env ip r m = Some (a, m')" and "calmLease ip env"
  shows "foreign ip m' = foreign ip m"
proof -
  have backoff: "foreign ip m2 = foreign ip m1" if "frontBackoffAssignment t ip r m1 = (x, m2)" for t x m1 m2
    using that foreign_frontBackoffAssignment by (metis snd_conv)
  show ?thesis
    using assms(1) leaseLoop_foreign [OF _ assms(2), where res = "(a, m')"]
    by (auto simp: ensureLease_def Let_def calmLease_simps [OF assms(2)] dest!: backoff split: if_splits option.splits prod.splits)
qed

section \<open>A rented lease\<close>

lemma foreign_detachOld: "foreign ip (snd (detachOld c old m)) = foreign ip m"
  by (simp add: detachOld_def split: option.split)

lemma foreign_installDynamic: "foreign ip (snd (installDynamic f t ip req c r m)) = foreign ip m"
proof -
  have "get (leases (snd (installDynamic f t ip req c r m))) d = get (leases m) d" if "d \<noteq> ip" for d
    using that by (simp add: installDynamic_def Let_def addEvent_def removeQueued_def cancelQueueRetry_def)
  moreover have "conns (snd (installDynamic f t ip req c r m)) = conns m"
    by (simp add: installDynamic_def Let_def addEvent_def removeQueued_def cancelQueueRetry_def)
  ultimately show ?thesis
    by (auto simp: foreign_def fun_eq_iff)
qed

lemma foreign_activateDynamicProxy:
  "foreign ip (snd (snd (activateDynamicProxy f t ip req c r m))) = foreign ip m"
  by (simp add: activateDynamicProxy_def Let_def split_beta foreign_detachOld foreign_installDynamic split: option.split)

lemma LeaseDynamicContext_foreign:
  assumes "\<forall>n m. foreign ip (deOthers env n m) = foreign ip m"
  shows "foreign ip (snd (snd (LeaseDynamicContext env ps ip req r m))) = foreign ip m"
proof -
  have rent: "foreign ip (snd (rentCandidate env ps ip q m1)) = foreign ip m1" for q m1
    using assms by (simp add: rentCandidate_def Let_def split: sum.split)
  show ?thesis
    using assms by (simp add: LeaseDynamicContext_def Let_def split_beta rent foreign_activateDynamicProxy
        split: sum.split option.split)
qed

end
