(* ===== verification/Api.thy ===== *)
theory Api
  imports RuntimeConfig PoolImport Restart Isolation
begin

text \<open>
  The HTTP interface, internal/manager/api.go: one handler per route, each behind the check of its
  key, with the helpers for the client's address, the optional lease request, the front proxy's URL
  and the country lookup. A request arrives with its route already matched; reading the body and
  decoding JSON are arguments. Replies keep their body as a value; a handler that waits for a lease
  that never comes has no result. The administration page itself (a static document) is not modelled.
\<close>

section \<open>Requests and replies\<close>

datatype route =
    AdminPage
  | PostLease | PostLeaseRefresh | GetLease
  | GetStatus | GetRouting | PutRouting
  | GetFrontProxy | PutFrontProxy | PostFrontProxyTest
  | GetProxyAPI | PutProxyAPI | PostProxyAPITest
  | PostIPGeo | PostAdminLease
  | PostProxy | PostProxyImport | PostProxyImportURL | PostBatchDisabled | PostBatchDelete | PostClear
  | PutProxy string | PostProxyDisabled string | DeleteProxyRoute string
  | DeleteLeaseRoute string | PostAdminRefresh string

record request =
  rqRoute :: route
  rqAuthorization :: string
  rqForwardedFor :: string
  rqRealIP :: string
  rqRemoteAddr :: string
  rqContentType :: string
  rqBody :: "goError + string"

record frontProxyUpdateInput =
  fuEnabled :: bool
  fuURL :: string
  fuClearCredentials :: bool

record frontProxyView =
  fvEnabled :: bool
  fvURL :: string
  fvCredentialsConfigured :: bool
  fvStatus :: FrontStatus

datatype reply =
    Page string
  | HttpError nat string                 \<comment> \<open>\<open>http.Error\<close>\<close>
  | NoContent
  | LeaseErrorReply nat LeaseAPIError
  | AssignmentReply Assignment           \<comment> \<open>the bodies of \<open>writeJSON\<close>, with status 200\<close>
  | StatusReply StatusReport
  | RoutingReply RoutingConfig
  | FrontReply frontProxyView
  | ProxyAPIReply ProxyAPI
  | FrontTestReply FrontProxyTestResult
  | APITestReply ProxyAPITestResult
  | GeoReply "string table"
  | ProxyReply Proxy
  | ImportReply ImportResult
  | BatchReply BatchResult

fun statusCode :: "reply \<Rightarrow> nat" where
  "statusCode (HttpError n _) = n"
| "statusCode (LeaseErrorReply n _) = n"
| "statusCode NoContent = 204"
| "statusCode _ = 200"

definition unauthorized :: reply where
  "unauthorized = HttpError 401 ''unauthorized''"

definition invalidJSON :: reply where
  "invalidJSON = HttpError 400 ''invalid json''"

definition unavailable :: reply where
  "unavailable = HttpError 503 ''runtime config unavailable''"

section \<open>Keys and addresses\<close>

definition checkKey :: "request \<Rightarrow> string \<Rightarrow> bool" where
  "checkKey r want \<longleftrightarrow> TrimPrefix (rqAuthorization r) ''Bearer '' = want"

definition clientIP :: "request \<Rightarrow> bool \<Rightarrow> string" where
  "clientIP r trustProxy =
     (if trustProxy \<and> rqForwardedFor r \<noteq> [] then TrimSpace (hd (Split (rqForwardedFor r) (CHR '','')))
      else if trustProxy \<and> rqRealIP r \<noteq> [] then TrimSpace (rqRealIP r)
      else case SplitHostPort (rqRemoteAddr r) of
        Inl _ \<Rightarrow> rqRemoteAddr r
      | Inr (host, _) \<Rightarrow> host)"

section \<open>The optional lease request\<close>

definition dynamicLeaseRequestFromPointers ::
    "string option \<Rightarrow> int option \<Rightarrow> goError + DynamicLeaseRequest option" where
  "dynamicLeaseRequestFromPointers country minutes =
     (case (country, minutes) of
        (None, None) \<Rightarrow> Inr None
      | (Some c, Some d) \<Rightarrow>
          (case NormalizeDynamicLeaseRequest \<lparr>drCountry = c, drDurationMinutes = d\<rparr> of
             Inl err \<Rightarrow> Inl err
           | Inr req \<Rightarrow> Inr (Some req))
      | _ \<Rightarrow> Inl (ErrString ''country and duration_minutes must be provided together''))"

definition maxLeaseBody :: nat where
  "maxLeaseBody = 64 * 1024"

text \<open>
  \<open>decode\<close> is the strict decoder: the two optional fields of the first value of the body, and whether
  nothing but white space follows it.
\<close>

definition decodeOptionalDynamicLeaseRequest ::
    "(string \<Rightarrow> goError + (string option \<times> int option) \<times> bool) \<Rightarrow> request \<Rightarrow> goError + DynamicLeaseRequest option" where
  "decodeOptionalDynamicLeaseRequest decode r =
     (case rqBody r of
        Inl _ \<Rightarrow> Inl (ErrString ''read request body failed'')
      | Inr body \<Rightarrow>
          let body = take (maxLeaseBody + 1) body in
          if length body > maxLeaseBody then Inl (ErrString ''request body exceeds 64 KiB'')
          else if TrimSpace body = [] then Inr None
          else case decode body of
            Inl _ \<Rightarrow> Inl (ErrString ''invalid json'')
          | Inr ((country, minutes), atEnd) \<Rightarrow>
              if \<not> atEnd then Inl (ErrString ''invalid json'')
              else dynamicLeaseRequestFromPointers country minutes)"

text \<open>An error that is not a \<open>LeaseAPIError\<close> is reported as an internal one.\<close>

definition writeLeaseAPIError :: "goError + LeaseAPIError \<Rightarrow> reply" where
  "writeLeaseAPIError err =
     (let apiErr = (case err of
            Inr e \<Rightarrow> e
          | Inl e \<Rightarrow> \<lparr>leCode = ''internal_error'', leMessage = ''internal server error'', leCurrentLease = None, leErr = Some e\<rparr>);
          kind = leCode apiErr in
      LeaseErrorReply
        (if kind = ''invalid_request'' then 400 else if kind = ''proxy_api_disabled'' then 503
         else if kind = ''internal_error'' then 500 else 502) apiErr)"

definition invalidRequest :: "string \<Rightarrow> goError \<Rightarrow> reply" where
  "invalidRequest message err =
     writeLeaseAPIError (Inr \<lparr>leCode = ''invalid_request'', leMessage = message, leCurrentLease = None, leErr = Some err\<rparr>)"

section \<open>The front proxy's URL\<close>

definition frontProxyFromInput ::
    "(string \<Rightarrow> URL option) \<Rightarrow> FrontProxy \<Rightarrow> frontProxyUpdateInput \<Rightarrow> goError + FrontProxy" where
  "frontProxyFromInput parseURL current i =
     (let f = current\<lparr>fpEnabled := fuEnabled i, fpFailOpen := False\<rparr>; rawURL = TrimSpace (fuURL i) in
      if rawURL = [] then
        (let f = (if fuClearCredentials i then f\<lparr>fpUsername := [], fpPassword := []\<rparr> else f) in
         if fpEnabled f \<and> TrimSpace (fpAddress f) = []
         then Inl (ErrString ''front proxy URL is required when enabled'')
         else if fpEnabled f \<and> TrimSpace (fpProtocol f) = [] then Inr (f\<lparr>fpProtocol := ''socks5''\<rparr>)
         else Inr f)
      else case parseURL rawURL of
        None \<Rightarrow> Inl (ErrString ''invalid front proxy URL'')
      | Some u \<Rightarrow>
          if urlOpaque u \<noteq> [] then Inl (ErrString ''invalid front proxy URL'')
          else if ToLower (urlScheme u) \<noteq> ''socks5'' then Inl (ErrString ''front proxy URL must use socks5://'')
          else if urlPath u \<notin> {[], ''/''} \<or> urlRawQuery u \<noteq> [] \<or> urlFragment u \<noteq> []
            then Inl (ErrString ''front proxy URL must not contain a path, query, or fragment'')
          else if Hostname u = [] \<or> Port u = []
            then Inl (ErrString ''front proxy URL must include host and port'')
          else
            let f = f\<lparr>fpProtocol := ''socks5'', fpAddress := JoinHostPort (Hostname u) (Port u)\<rparr> in
            Inr (case urlUser u of
                   Some (name, password) \<Rightarrow> f\<lparr>fpUsername := name, fpPassword := password\<rparr>
                 | None \<Rightarrow> if fuClearCredentials i then f\<lparr>fpUsername := [], fpPassword := []\<rparr> else f))"

definition newFrontProxyView :: "FrontProxy \<Rightarrow> FrontStatus \<Rightarrow> frontProxyView" where
  "newFrontProxyView f st =
     \<lparr>fvEnabled = fpEnabled f,
      fvURL = (if TrimSpace (fpAddress f) = [] then [] else ''socks5://'' @ TrimSpace (fpAddress f)),
      fvCredentialsConfigured = (fpUsername f \<noteq> [] \<or> fpPassword f \<noteq> []), fvStatus = st\<rparr>"

section \<open>Countries of addresses\<close>

record ipGeoEntry =
  ieCountry :: string
  ieExpiresAt :: time

record ipGeoCache =
  igDB :: "(ip \<Rightarrow> goError + string) option"
  igEntries :: "ipGeoEntry table"

definition newIPGeoCache :: "(string \<Rightarrow> goError + (ip \<Rightarrow> goError + string)) \<Rightarrow> string \<Rightarrow> ipGeoCache" where
  "newIPGeoCache openDB path =
     \<lparr>igDB = (if TrimSpace path = [] then None else case openDB path of Inl _ \<Rightarrow> None | Inr db \<Rightarrow> Some db),
      igEntries = []\<rparr>"

text \<open>The length is that of the bytes, and the letters are the ASCII ones, so only two letters pass.\<close>

definition validCountryCode :: "string \<Rightarrow> bool" where
  "validCountryCode country =
     (let country = ToUpper (TrimSpace country) in
      length country = 2 \<and> list_all (\<lambda>c. CHR ''A'' \<le> c \<and> c \<le> CHR ''Z'') country)"

definition lookupCountry :: "ipGeoCache \<Rightarrow> ip \<Rightarrow> string" where
  "lookupCountry c ip =
     (case igDB c of
        None \<Rightarrow> []
      | Some db \<Rightarrow>
          (case db ip of
             Inl _ \<Rightarrow> []
           | Inr country \<Rightarrow> if validCountryCode country then ToUpper country else []))"

definition LookupGeo :: "time \<Rightarrow> string \<Rightarrow> ipGeoCache \<Rightarrow> string \<times> ipGeoCache" where
  "LookupGeo now s c =
     (case ParseIP s of
        None \<Rightarrow> ([], c)
      | Some parsed \<Rightarrow>
          (case Option.bind (get (igEntries c) s) (\<lambda>e. if now < ieExpiresAt e then Some e else None) of
             Some e \<Rightarrow> (ieCountry e, c)
           | None \<Rightarrow>
               let country = lookupCountry c parsed in
               (country, c\<lparr>igEntries := put s \<lparr>ieCountry = country, ieExpiresAt = now + 24 * Hour\<rparr> (igEntries c)\<rparr>)))"

fun uniqueIPsFrom :: "string list \<Rightarrow> string list \<Rightarrow> string list" where
  "uniqueIPsFrom seen [] = []"
| "uniqueIPsFrom seen (s # rest) =
     (let s = TrimSpace s in
      if s = [] \<or> s \<in> set seen \<or> ParseIP s = None then uniqueIPsFrom seen rest
      else s # uniqueIPsFrom (s # seen) rest)"

definition uniqueIPs :: "string list \<Rightarrow> string list" where
  "uniqueIPs = uniqueIPsFrom []"

fun lookupEach :: "(nat \<Rightarrow> time) \<Rightarrow> nat \<Rightarrow> string list \<Rightarrow> ipGeoCache \<Rightarrow> string table \<times> ipGeoCache" where
  "lookupEach clk n [] c = ([], c)"
| "lookupEach clk n (s # rest) c =
     (case LookupGeo (clk n) s c of (country, c) \<Rightarrow>
       case lookupEach clk (Suc n) rest c of (found, c) \<Rightarrow>
         (if country = [] then found else put s country found, c))"

definition LookupMany :: "(nat \<Rightarrow> time) \<Rightarrow> string list \<Rightarrow> ipGeoCache \<Rightarrow> string table \<times> ipGeoCache" where
  "LookupMany clk ips c = lookupEach clk 0 (uniqueIPs ips) c"

section \<open>The server\<close>

record server =
  svSystem :: system
  svGeo :: ipGeoCache

abbreviation managerOf :: "server \<Rightarrow> Manager" where
  "managerOf s \<equiv> syManager (svSystem s)"

abbreviation runtimeOf :: "server \<Rightarrow> RuntimeConfig option" where
  "runtimeOf s \<equiv> syRuntime (svSystem s)"

definition setManager :: "Manager \<Rightarrow> server \<Rightarrow> server" where
  "setManager m s = s\<lparr>svSystem := (svSystem s)\<lparr>syManager := m\<rparr>\<rparr>"

text \<open>JSON decoding of the bodies, by the type of the variable that receives them.\<close>

record decoders =
  jdRouting :: "string \<Rightarrow> goError + RoutingConfig"
  jdFront :: "string \<Rightarrow> goError + frontProxyUpdateInput"
  jdProxyAPI :: "string \<Rightarrow> goError + ProxyAPI"
  jdDynamic :: "string \<Rightarrow> goError + DynamicLeaseRequest"
  jdLease :: "string \<Rightarrow> goError + (string option \<times> int option) \<times> bool"
  jdAdminLease :: "string \<Rightarrow> goError + string \<times> string option \<times> int option"
  jdProxy :: "string \<Rightarrow> goError + ProxyInput"
  jdText :: "string \<Rightarrow> goError + string"
  jdURL :: "string \<Rightarrow> goError + string"
  jdIPs :: "string \<Rightarrow> goError + string list"
  jdIDs :: "string \<Rightarrow> goError + string list"
  jdBatch :: "string \<Rightarrow> goError + string list \<times> bool"
  jdDisabled :: "string \<Rightarrow> goError + bool"

text \<open>The outside of the operations that a request runs, and the clock of its own sections.\<close>

record 'j apiEnv =
  axDecode :: decoders
  axClock :: "nat \<Rightarrow> time"
  axLease :: leaseEnv
  axDynamic :: dynamicEnv
  axAdmin :: adminEnv
  axUpdate :: "'j updateEnv"
  axConnect :: connectEnv
  axStopped :: bool
  axProbe :: "Proxy \<Rightarrow> probeResult"
  axElapsed :: duration
  axSHA1 :: "string \<Rightarrow> byte list"
  axParseURL :: "string \<Rightarrow> goError + URL"
  axPayload :: "string \<Rightarrow> payloadItem list option"
  axFetch :: "string \<Rightarrow> goError + int \<times> (goError + string)"
  axRelease :: dbfaults

type_synonym handling = "(reply \<times> server) option"

section \<open>The checks of the handlers\<close>

definition withKey :: "string \<Rightarrow> request \<Rightarrow> server \<Rightarrow> handling \<Rightarrow> handling" where
  "withKey key r s handling = (if \<not> checkKey r key then Some (unauthorized, s) else handling)"

definition withRuntime :: "server \<Rightarrow> (RuntimeConfig \<Rightarrow> handling) \<Rightarrow> handling" where
  "withRuntime s k = (case runtimeOf s of None \<Rightarrow> Some (unavailable, s) | Some c \<Rightarrow> k c)"

definition withBody :: "(string \<Rightarrow> goError + 'a) \<Rightarrow> request \<Rightarrow> (goError \<Rightarrow> handling) \<Rightarrow> ('a \<Rightarrow> handling) \<Rightarrow> handling" where
  "withBody decode r failed k =
     (case rqBody r of
        Inl err \<Rightarrow> failed err
      | Inr body \<Rightarrow> (case decode body of Inl err \<Rightarrow> failed err | Inr v \<Rightarrow> k v))"

definition withJSON :: "(string \<Rightarrow> goError + 'a) \<Rightarrow> request \<Rightarrow> server \<Rightarrow> ('a \<Rightarrow> handling) \<Rightarrow> handling" where
  "withJSON decode r s k = withBody decode r (\<lambda>_. Some (invalidJSON, s)) k"

definition replyWith :: "('a \<Rightarrow> reply) \<Rightarrow> 'a \<times> Manager \<Rightarrow> server \<Rightarrow> handling" where
  "replyWith f result s = (case result of (a, m) \<Rightarrow> Some (f a, setManager m s))"

definition badRequest :: "goError \<Rightarrow> reply" where
  "badRequest err = HttpError 400 (errorText err)"

definition orBadRequest :: "('a \<Rightarrow> reply) \<Rightarrow> goError + 'a \<Rightarrow> reply" where
  "orBadRequest f r = (case r of Inl err \<Rightarrow> badRequest err | Inr a \<Rightarrow> f a)"

section \<open>Leases\<close>

definition leaseDynamic :: "'j apiEnv \<Rightarrow> string \<Rightarrow> DynamicLeaseRequest \<Rightarrow> bool \<Rightarrow> server \<Rightarrow> handling" where
  "leaseDynamic env ip req refresh s =
     (case LeaseDynamicContext (axDynamic env) (syProvider (svSystem s)) ip req refresh (managerOf s) of
        (result, wake, m) \<Rightarrow>
          Some (case result of Inl err \<Rightarrow> writeLeaseAPIError (Inr err) | Inr a \<Rightarrow> AssignmentReply a,
                setManager (if wake then wakeQueue (axClock env 1) m else m) s))"

definition assignmentReply :: "server \<Rightarrow> (Assignment \<times> Manager) option \<Rightarrow> handling" where
  "assignmentReply s result = Option.bind result (\<lambda>result. replyWith AssignmentReply result s)"

definition adminReply :: "server \<Rightarrow> ((goError + Assignment) \<times> Manager) option \<Rightarrow> handling" where
  "adminReply s result =
     Option.bind result (\<lambda>result. replyWith
       (\<lambda>a. case a of Inl err \<Rightarrow> writeLeaseAPIError (Inl err) | Inr a \<Rightarrow> AssignmentReply a) result s)"

definition handlePostLease :: "'j apiEnv \<Rightarrow> APIConfig \<Rightarrow> request \<Rightarrow> server \<Rightarrow> handling" where
  "handlePostLease env cfg r s = withKey (apiClientKey cfg) r s
     (case decodeOptionalDynamicLeaseRequest (jdLease (axDecode env)) r of
        Inl err \<Rightarrow> Some (invalidRequest (errorText err) err, s)
      | Inr req \<Rightarrow>
          let ip = clientIP r (apiTrustProxy cfg) in
          (case req of
             Some req \<Rightarrow> leaseDynamic env ip req False s
           | None \<Rightarrow> assignmentReply s (LeaseContext (axLease env) ip (managerOf s))))"

definition handlePostLeaseRefresh :: "'j apiEnv \<Rightarrow> APIConfig \<Rightarrow> request \<Rightarrow> server \<Rightarrow> handling" where
  "handlePostLeaseRefresh env cfg r s = withKey (apiClientKey cfg) r s
     (case decodeOptionalDynamicLeaseRequest (jdLease (axDecode env)) r of
        Inl err \<Rightarrow> Some (invalidRequest (errorText err) err, s)
      | Inr req \<Rightarrow>
          let ip = clientIP r (apiTrustProxy cfg);
              req = (if req = None then DynamicRequestForClient (axClock env 0) ip (managerOf s) else req) in
          (case req of
             Some req \<Rightarrow> leaseDynamic env ip req True s
           | None \<Rightarrow> assignmentReply s (RefreshContext (axLease env) ip (managerOf s))))"

definition handleGetLease :: "APIConfig \<Rightarrow> request \<Rightarrow> server \<Rightarrow> handling" where
  "handleGetLease cfg r s = withKey (apiClientKey cfg) r s
     (Some (AssignmentReply (Current (clientIP r (apiTrustProxy cfg)) (managerOf s)), s))"

definition handleAdminLease :: "'j apiEnv \<Rightarrow> APIConfig \<Rightarrow> request \<Rightarrow> server \<Rightarrow> handling" where
  "handleAdminLease env cfg r s = withKey (apiAdminKey cfg) r s
     (withJSON (jdAdminLease (axDecode env)) r s (\<lambda>(ip, country, minutes).
        let ip = TrimSpace ip in
        if Option.bind (ParseIP ip) To4 = None then Some (HttpError 400 ''valid IPv4 client_ip is required'', s)
        else case dynamicLeaseRequestFromPointers country minutes of
          Inl err \<Rightarrow> Some (invalidRequest (errorText err) err, s)
        | Inr (Some req) \<Rightarrow> leaseDynamic env ip req False s
        | Inr None \<Rightarrow> adminReply s (adminEnsure (axLease env) ip False (managerOf s))))"

definition handleReleaseLease :: "'j apiEnv \<Rightarrow> APIConfig \<Rightarrow> string \<Rightarrow> request \<Rightarrow> server \<Rightarrow> handling" where
  "handleReleaseLease env cfg ip r s = withKey (apiAdminKey cfg) r s
     (if ParseIP ip = None then Some (HttpError 400 ''invalid ip'', s)
      else Some (NoContent,
        setManager (wakeQueue (axClock env 1) (Release (axRelease env) (axClock env 0) ip (managerOf s))) s))"

definition handleAdminRefresh :: "'j apiEnv \<Rightarrow> APIConfig \<Rightarrow> string \<Rightarrow> request \<Rightarrow> server \<Rightarrow> handling" where
  "handleAdminRefresh env cfg path r s = withKey (apiAdminKey cfg) r s
     (let ip = TrimSpace path in
      case DynamicRequestForClient (axClock env 0) ip (managerOf s) of
        Some current \<Rightarrow> leaseDynamic env ip current True s
      | None \<Rightarrow> adminReply s (adminEnsure (axLease env) ip True (managerOf s)))"

section \<open>The configuration\<close>

definition handleGetStatus :: "APIConfig \<Rightarrow> request \<Rightarrow> server \<Rightarrow> handling" where
  "handleGetStatus cfg r s = withKey (apiAdminKey cfg) r s (Some (StatusReply (Status (managerOf s)), s))"

definition handleGetRouting :: "APIConfig \<Rightarrow> request \<Rightarrow> server \<Rightarrow> handling" where
  "handleGetRouting cfg r s = withKey (apiAdminKey cfg) r s
     (withRuntime s (\<lambda>c. Some (RoutingReply (rcRouting c), s)))"

definition frontView :: "RuntimeConfig \<Rightarrow> server \<Rightarrow> reply" where
  "frontView c s = FrontReply (newFrontProxyView (rcFrontProxy c) (FrontStatusOf (Some (connector (managerOf s)))))"

definition handleGetFrontProxy :: "APIConfig \<Rightarrow> request \<Rightarrow> server \<Rightarrow> handling" where
  "handleGetFrontProxy cfg r s = withKey (apiAdminKey cfg) r s (withRuntime s (\<lambda>c. Some (frontView c s, s)))"

definition handleGetProxyAPI :: "APIConfig \<Rightarrow> request \<Rightarrow> server \<Rightarrow> handling" where
  "handleGetProxyAPI cfg r s = withKey (apiAdminKey cfg) r s
     (withRuntime s (\<lambda>c. Some (ProxyAPIReply (rcProxyAPI c), s)))"

text \<open>An update, and the section that the reply then reads from the runtime configuration.\<close>

definition runUpdate :: "'j apiEnv \<Rightarrow> sectionValue \<Rightarrow> (RuntimeConfig \<Rightarrow> server \<Rightarrow> reply) \<Rightarrow> server \<Rightarrow> handling" where
  "runUpdate env v view s =
     (case update (axUpdate env) v (svSystem s) of
        (Some err, sys) \<Rightarrow> Some (badRequest err, s\<lparr>svSystem := sys\<rparr>)
      | (None, sys) \<Rightarrow>
          let s = s\<lparr>svSystem := sys\<rparr> in withRuntime s (\<lambda>c. Some (view c s, s)))"

definition handlePutRouting :: "'j apiEnv \<Rightarrow> APIConfig \<Rightarrow> request \<Rightarrow> server \<Rightarrow> handling" where
  "handlePutRouting env cfg r s = withKey (apiAdminKey cfg) r s
     (withRuntime s (\<lambda>_. withJSON (jdRouting (axDecode env)) r s (\<lambda>v.
        runUpdate env (RoutingSection v) (\<lambda>c _. RoutingReply (rcRouting c)) s)))"

definition handlePutFrontProxy :: "'j apiEnv \<Rightarrow> APIConfig \<Rightarrow> request \<Rightarrow> server \<Rightarrow> handling" where
  "handlePutFrontProxy env cfg r s = withKey (apiAdminKey cfg) r s
     (withRuntime s (\<lambda>c. withJSON (jdFront (axDecode env)) r s (\<lambda>v.
        case frontProxyFromInput (ueParseURL (axUpdate env)) (rcFrontProxy c) v of
          Inl err \<Rightarrow> Some (badRequest err, s)
        | Inr f \<Rightarrow> runUpdate env (FrontProxySection f) frontView s)))"

definition handlePutProxyAPI :: "'j apiEnv \<Rightarrow> APIConfig \<Rightarrow> request \<Rightarrow> server \<Rightarrow> handling" where
  "handlePutProxyAPI env cfg r s = withKey (apiAdminKey cfg) r s
     (withRuntime s (\<lambda>_. withJSON (jdProxyAPI (axDecode env)) r s (\<lambda>v.
        runUpdate env (ProxyAPISection v) (\<lambda>c _. ProxyAPIReply (rcProxyAPI c)) s)))"

definition handleFrontProxyTest :: "'j apiEnv \<Rightarrow> APIConfig \<Rightarrow> request \<Rightarrow> server \<Rightarrow> handling" where
  "handleFrontProxyTest env cfg r s = withKey (apiAdminKey cfg) r s
     (replyWith FrontTestReply (TestFrontProxy (axConnect env) (axStopped env) (managerOf s)) s)"

definition handleProxyAPITest :: "'j apiEnv \<Rightarrow> APIConfig \<Rightarrow> request \<Rightarrow> server \<Rightarrow> handling" where
  "handleProxyAPITest env cfg r s = withKey (apiAdminKey cfg) r s
     (withBody (jdDynamic (axDecode env)) r (\<lambda>err. Some (invalidRequest ''invalid json'' err, s)) (\<lambda>req.
        Some (case TestProxyAPI (deProvider (axDynamic env)) (axProbe env) (axElapsed env) (syProvider (svSystem s)) req (managerOf s) of
                Inl err \<Rightarrow> writeLeaseAPIError (Inr err)
              | Inr result \<Rightarrow> APITestReply result, s)))"

definition handleIPGeo :: "'j apiEnv \<Rightarrow> APIConfig \<Rightarrow> request \<Rightarrow> server \<Rightarrow> handling" where
  "handleIPGeo env cfg r s = withKey (apiAdminKey cfg) r s
     (withJSON (jdIPs (axDecode env)) r s (\<lambda>ips.
        case LookupMany (axClock env) ips (svGeo s) of (found, geo) \<Rightarrow> Some (GeoReply found, s\<lparr>svGeo := geo\<rparr>)))"

section \<open>The proxies\<close>

definition wakeOnSuccess :: "time \<Rightarrow> (goError + 'a) \<times> Manager \<Rightarrow> (goError + 'a) \<times> Manager" where
  "wakeOnSuccess now result = (case result of (r, m) \<Rightarrow> (r, if isl r then m else wakeQueue now m))"

definition handlePostProxy :: "'j apiEnv \<Rightarrow> APIConfig \<Rightarrow> request \<Rightarrow> server \<Rightarrow> handling" where
  "handlePostProxy env cfg r s = withKey (apiAdminKey cfg) r s
     (withJSON (jdProxy (axDecode env)) r s (\<lambda>v.
        replyWith (orBadRequest ProxyReply) (addAndWake (axAdmin env) 0 v (managerOf s)) s))"

definition maxImportBody :: nat where
  "maxImportBody = 16 * 1024 * 1024"

definition handleImport :: "'j apiEnv \<Rightarrow> APIConfig \<Rightarrow> request \<Rightarrow> server \<Rightarrow> handling" where
  "handleImport env cfg r s = withKey (apiAdminKey cfg) r s
     (case rqBody r of
        Inl _ \<Rightarrow> Some (HttpError 400 ''read body failed'', s)
      | Inr body \<Rightarrow>
          let body = take maxImportBody body;
              content = (if Contains (rqContentType r) ''application/json''
                         then (case jdText (axDecode env) body of Inl err \<Rightarrow> None | Inr t \<Rightarrow> Some t)
                         else Some body) in
          (case content of
             None \<Rightarrow> Some (invalidJSON, s)
           | Some content \<Rightarrow>
               replyWith ImportReply
                 (ImportProxies (axAdmin env) (parseProxyLine (axSHA1 env) (axParseURL env)) content (managerOf s)) s))"

definition handleImportURL :: "'j apiEnv \<Rightarrow> APIConfig \<Rightarrow> request \<Rightarrow> server \<Rightarrow> handling" where
  "handleImportURL env cfg r s = withKey (apiAdminKey cfg) r s
     (withJSON (jdURL (axDecode env)) r s (\<lambda>u.
        replyWith ImportReply
          (ImportProxiesFromURL (axAdmin env) (axSHA1 env) (axParseURL env) (axPayload env) (axFetch env) u (managerOf s)) s))"

definition handleBatchDisabled :: "'j apiEnv \<Rightarrow> APIConfig \<Rightarrow> request \<Rightarrow> server \<Rightarrow> handling" where
  "handleBatchDisabled env cfg r s = withKey (apiAdminKey cfg) r s
     (withJSON (jdBatch (axDecode env)) r s (\<lambda>(ids, disabled).
        replyWith BatchReply (SetProxiesDisabled (axAdmin env) ids disabled (managerOf s)) s))"

definition handleBatchDelete :: "'j apiEnv \<Rightarrow> APIConfig \<Rightarrow> request \<Rightarrow> server \<Rightarrow> handling" where
  "handleBatchDelete env cfg r s = withKey (apiAdminKey cfg) r s
     (withJSON (jdIDs (axDecode env)) r s (\<lambda>ids. replyWith BatchReply (DeleteProxies (axAdmin env) ids (managerOf s)) s))"

definition handleClear :: "'j apiEnv \<Rightarrow> APIConfig \<Rightarrow> request \<Rightarrow> server \<Rightarrow> handling" where
  "handleClear env cfg r s = withKey (apiAdminKey cfg) r s
     (replyWith BatchReply (ClearIdleProxies (axAdmin env) (managerOf s)) s)"

definition handlePutProxy :: "'j apiEnv \<Rightarrow> APIConfig \<Rightarrow> string \<Rightarrow> request \<Rightarrow> server \<Rightarrow> handling" where
  "handlePutProxy env cfg pid r s = withKey (apiAdminKey cfg) r s
     (withJSON (jdProxy (axDecode env)) r s (\<lambda>v.
        replyWith (orBadRequest ProxyReply)
          (wakeOnSuccess (axClock env 1) (UpdateProxy (aeFaults (axAdmin env) 0) (axClock env 0) pid v (managerOf s))) s))"

definition handleProxyDisabled :: "'j apiEnv \<Rightarrow> APIConfig \<Rightarrow> string \<Rightarrow> request \<Rightarrow> server \<Rightarrow> handling" where
  "handleProxyDisabled env cfg pid r s = withKey (apiAdminKey cfg) r s
     (withJSON (jdDisabled (axDecode env)) r s (\<lambda>v.
        replyWith (orBadRequest ProxyReply)
          (wakeOnSuccess (axClock env 1) (SetProxyDisabled (aeFaults (axAdmin env) 0) (axClock env 0) pid v (managerOf s))) s))"

definition handleDeleteProxy :: "'j apiEnv \<Rightarrow> APIConfig \<Rightarrow> string \<Rightarrow> request \<Rightarrow> server \<Rightarrow> handling" where
  "handleDeleteProxy env cfg pid r s = withKey (apiAdminKey cfg) r s
     (replyWith (\<lambda>e. case e of Some err \<Rightarrow> badRequest err | None \<Rightarrow> NoContent)
        (DeleteProxy (aeFaults (axAdmin env) 0) pid (managerOf s)) s)"

section \<open>The routes\<close>

text \<open>\<open>serve\<close> is the mux that \<open>NewAPI\<close> builds; the page carries the key of the administrator.\<close>

definition handleAdminPage :: "APIConfig \<Rightarrow> server \<Rightarrow> handling" where
  "handleAdminPage cfg s = Some (Page (apiAdminKey cfg), s)"

definition serve :: "'j apiEnv \<Rightarrow> APIConfig \<Rightarrow> request \<Rightarrow> server \<Rightarrow> handling" where
  "serve env cfg r s =
     (case rqRoute r of
        AdminPage \<Rightarrow> handleAdminPage cfg s
      | PostLease \<Rightarrow> handlePostLease env cfg r s
      | PostLeaseRefresh \<Rightarrow> handlePostLeaseRefresh env cfg r s
      | GetLease \<Rightarrow> handleGetLease cfg r s
      | GetStatus \<Rightarrow> handleGetStatus cfg r s
      | GetRouting \<Rightarrow> handleGetRouting cfg r s
      | PutRouting \<Rightarrow> handlePutRouting env cfg r s
      | GetFrontProxy \<Rightarrow> handleGetFrontProxy cfg r s
      | PutFrontProxy \<Rightarrow> handlePutFrontProxy env cfg r s
      | PostFrontProxyTest \<Rightarrow> handleFrontProxyTest env cfg r s
      | GetProxyAPI \<Rightarrow> handleGetProxyAPI cfg r s
      | PutProxyAPI \<Rightarrow> handlePutProxyAPI env cfg r s
      | PostProxyAPITest \<Rightarrow> handleProxyAPITest env cfg r s
      | PostIPGeo \<Rightarrow> handleIPGeo env cfg r s
      | PostAdminLease \<Rightarrow> handleAdminLease env cfg r s
      | PostProxy \<Rightarrow> handlePostProxy env cfg r s
      | PostProxyImport \<Rightarrow> handleImport env cfg r s
      | PostProxyImportURL \<Rightarrow> handleImportURL env cfg r s
      | PostBatchDisabled \<Rightarrow> handleBatchDisabled env cfg r s
      | PostBatchDelete \<Rightarrow> handleBatchDelete env cfg r s
      | PostClear \<Rightarrow> handleClear env cfg r s
      | PutProxy pid \<Rightarrow> handlePutProxy env cfg pid r s
      | PostProxyDisabled pid \<Rightarrow> handleProxyDisabled env cfg pid r s
      | DeleteProxyRoute pid \<Rightarrow> handleDeleteProxy env cfg pid r s
      | DeleteLeaseRoute ip \<Rightarrow> handleReleaseLease env cfg ip r s
      | PostAdminRefresh ip \<Rightarrow> handleAdminRefresh env cfg ip r s)"

section \<open>Who may do what\<close>

definition clientRoute :: "route \<Rightarrow> bool" where
  "clientRoute route \<longleftrightarrow> route \<in> {PostLease, PostLeaseRefresh, GetLease}"

definition requiredKey :: "APIConfig \<Rightarrow> route \<Rightarrow> string" where
  "requiredKey cfg route = (if clientRoute route then apiClientKey cfg else apiAdminKey cfg)"

definition authorized :: "APIConfig \<Rightarrow> request \<Rightarrow> bool" where
  "authorized cfg r \<longleftrightarrow> checkKey r (requiredKey cfg (rqRoute r))"

lemmas handler_defs = handlePostLease_def handlePostLeaseRefresh_def handleGetLease_def handleGetStatus_def
  handleGetRouting_def handlePutRouting_def handleGetFrontProxy_def handlePutFrontProxy_def handleFrontProxyTest_def
  handleGetProxyAPI_def handlePutProxyAPI_def handleProxyAPITest_def handleIPGeo_def handleAdminLease_def
  handlePostProxy_def handleImport_def handleImportURL_def handleBatchDisabled_def handleBatchDelete_def
  handleClear_def handlePutProxy_def handleProxyDisabled_def handleDeleteProxy_def handleReleaseLease_def
  handleAdminRefresh_def

lemma serve_unauthorized:
  "rqRoute r \<noteq> AdminPage \<Longrightarrow> \<not> authorized cfg r \<Longrightarrow> serve env cfg r s = Some (unauthorized, s)"
  by (cases "rqRoute r")
    (simp_all add: serve_def handler_defs withKey_def authorized_def requiredKey_def clientRoute_def)

text \<open>A handling that never answers with the refusal.\<close>

definition accepted :: "handling \<Rightarrow> bool" where
  "accepted h \<longleftrightarrow> (case h of None \<Rightarrow> True | Some (rep, _) \<Rightarrow> statusCode rep \<noteq> 401)"

named_theorems accepting \<open>the steps of a handler past its check answer with another status\<close>

lemma accepted_Some [accepting]: "accepted (Some (rep, s)) \<longleftrightarrow> statusCode rep \<noteq> 401"
  by (simp add: accepted_def)

lemma accepted_replyWith [accepting]: "accepted (replyWith f p s) \<longleftrightarrow> statusCode (f (fst p)) \<noteq> 401"
  by (simp add: replyWith_def accepted_def split_beta)

lemma accepted_withRuntime [accepting]: "(\<And>c. accepted (k c)) \<Longrightarrow> accepted (withRuntime s k)"
  by (simp add: withRuntime_def accepted_Some unavailable_def split: option.split)

lemma accepted_withBody [accepting]:
  "(\<And>e. accepted (g e)) \<Longrightarrow> (\<And>v. accepted (k v)) \<Longrightarrow> accepted (withBody d r g k)"
  by (simp add: withBody_def split: sum.split)

lemma accepted_withJSON [accepting]: "(\<And>v. accepted (k v)) \<Longrightarrow> accepted (withJSON d r s k)"
  by (simp add: withJSON_def accepting invalidJSON_def)

lemma statusCode_errors [accepting]:
  "statusCode (writeLeaseAPIError e) \<noteq> 401" "statusCode (invalidRequest msg err) \<noteq> 401"
  "statusCode (badRequest err) \<noteq> 401"
  by (simp_all add: writeLeaseAPIError_def invalidRequest_def badRequest_def Let_def)

lemma accepted_leases [accepting]:
  "accepted (leaseDynamic env ip req b s)" "accepted (assignmentReply s res)" "accepted (adminReply s res')"
  by (auto simp: leaseDynamic_def assignmentReply_def adminReply_def accepting accepted_def replyWith_def
      split: prod.split sum.split Option.bind_split)

lemma accepted_runUpdate [accepting]: "(\<And>c s. statusCode (view c s) \<noteq> 401) \<Longrightarrow> accepted (runUpdate env v view s)"
  by (auto simp: runUpdate_def accepting Let_def split: prod.split option.split)

lemma serve_accepted:
  assumes "authorized cfg r"
  shows "accepted (serve env cfg r s)"
  using assms
  by (cases "rqRoute r")
    (auto simp: serve_def handler_defs withKey_def authorized_def requiredKey_def clientRoute_def accepting
      handleAdminPage_def invalidJSON_def Let_def orBadRequest_def frontView_def split: sum.split option.split prod.split)

text \<open>
  C8. Access is controlled. Under a configuration that \<open>Load\<close> accepts, every request but the one for the
  administration page is refused, with the program's state untouched, unless its header carries the
  key of its route (the client's key for the three lease routes of a client, the administrator's for
  all the others); a request without the header is always refused; and a request with the right key is
  never answered with the refusal.
\<close>

theorem access_is_controlled:
  assumes "validate parseURL c = None" and "rqRoute r \<noteq> AdminPage"
  shows "(if authorized (cfgAPI c) r then accepted (serve env (cfgAPI c) r s)
          else serve env (cfgAPI c) r s = Some (unauthorized, s))
    \<and> (rqAuthorization r = [] \<longrightarrow> serve env (cfgAPI c) r s = Some (unauthorized, s))"
proof
  show "if authorized (cfgAPI c) r then accepted (serve env (cfgAPI c) r s)
      else serve env (cfgAPI c) r s = Some (unauthorized, s)"
    using serve_unauthorized [OF assms(2)] by (auto intro: serve_accepted)
  have keys: "apiClientKey (cfgAPI c) \<noteq> []" "apiAdminKey (cfgAPI c) \<noteq> []"
    using assms(1) by (simp_all add: validate_iff config_ok_def)
  have "\<not> authorized (cfgAPI c) r" if "rqAuthorization r = []"
    using that keys by (auto simp: authorized_def requiredKey_def checkKey_def TrimPrefix_def HasPrefix_def)
  then show "rqAuthorization r = [] \<longrightarrow> serve env (cfgAPI c) r s = Some (unauthorized, s)"
    using serve_unauthorized [OF assms(2)] by blast
qed

section \<open>Clients are isolated\<close>

definition calmDynamic :: "string \<Rightarrow> dynamicEnv \<Rightarrow> bool" where
  "calmDynamic ip env \<longleftrightarrow> (\<forall>n m. foreign ip (deOthers env n m) = foreign ip m)"

lemma setManager_simps [simp]: "managerOf (setManager m s) = m" "svGeo (setManager m s) = svGeo s"
  by (simp_all add: setManager_def)

lemma leaseDynamic_foreign:
  assumes "leaseDynamic env ip req b s = Some (rep, s')" and "calmDynamic ip (axDynamic env)"
  shows "foreign ip (managerOf s') = foreign ip (managerOf s)"
  using assms LeaseDynamicContext_foreign [of ip "axDynamic env"]
  by (auto simp: leaseDynamic_def calmDynamic_def split_beta)

lemma assignmentReply_foreign:
  assumes "assignmentReply s (ensureLease env ip b (managerOf s)) = Some (rep, s')" and "calmLease ip env"
  shows "foreign ip (managerOf s') = foreign ip (managerOf s)"
  using assms ensureLease_foreign by (auto simp: assignmentReply_def replyWith_def bind_eq_Some_conv)

lemma client_foreign:
  assumes "clientRoute (rqRoute r)" and "serve env cfg r s = Some (rep, s')"
    and "calmLease (clientIP r (apiTrustProxy cfg)) (axLease env)"
    and "calmDynamic (clientIP r (apiTrustProxy cfg)) (axDynamic env)"
  shows "foreign (clientIP r (apiTrustProxy cfg)) (managerOf s') = foreign (clientIP r (apiTrustProxy cfg)) (managerOf s)"
proof -
  note lease = assignmentReply_foreign [OF _ assms(3)] leaseDynamic_foreign [OF _ assms(4)]
  consider "rqRoute r = PostLease" | "rqRoute r = PostLeaseRefresh" | "rqRoute r = GetLease"
    using assms(1) by (auto simp: clientRoute_def)
  then show ?thesis
    using assms(2) lease
    by cases (auto simp: serve_def handlePostLease_def handlePostLeaseRefresh_def handleGetLease_def withKey_def
        LeaseContext_def RefreshContext_def Let_def split: if_splits sum.splits option.splits)
qed

lemma untrusted_headers:
  "\<not> trust \<Longrightarrow> clientIP (r\<lparr>rqForwardedFor := fwd, rqRealIP := realIP\<rparr>) trust = clientIP r trust"
  "checkKey (r\<lparr>rqForwardedFor := fwd, rqRealIP := realIP\<rparr>) key = checkKey r key"
  "decodeOptionalDynamicLeaseRequest d (r\<lparr>rqForwardedFor := fwd, rqRealIP := realIP\<rparr>) = decodeOptionalDynamicLeaseRequest d r"
proof -
  have keep: "rqRemoteAddr (r\<lparr>rqForwardedFor := fwd, rqRealIP := realIP\<rparr>) = rqRemoteAddr r" "rqAuthorization (r\<lparr>rqForwardedFor := fwd, rqRealIP := realIP\<rparr>) = rqAuthorization r" "rqBody (r\<lparr>rqForwardedFor := fwd, rqRealIP := realIP\<rparr>) = rqBody r" for r
    by simp_all
  show "\<not> trust \<Longrightarrow> clientIP (r\<lparr>rqForwardedFor := fwd, rqRealIP := realIP\<rparr>) trust = clientIP r trust"
    unfolding clientIP_def keep by simp
  show "checkKey (r\<lparr>rqForwardedFor := fwd, rqRealIP := realIP\<rparr>) key = checkKey r key" "decodeOptionalDynamicLeaseRequest d (r\<lparr>rqForwardedFor := fwd, rqRealIP := realIP\<rparr>) = decodeOptionalDynamicLeaseRequest d r"
    unfolding checkKey_def decodeOptionalDynamicLeaseRequest_def keep by (rule refl)+
qed

text \<open>
  C9. Clients are isolated. A request on one of the client's routes changes neither the lease nor the
  registered connections of any other client, whatever its body and its outcome, as long as the other
  goroutines leave those alone; and unless the configuration trusts a reverse proxy, the client is the
  peer of the connection: other values of \<open>X-Forwarded-For\<close> and \<open>X-Real-IP\<close> give the same outcome.
\<close>

theorem clients_are_isolated:
  assumes "clientRoute (rqRoute r)" and "serve env cfg r s = Some (rep, s')"
    and "calmLease (clientIP r (apiTrustProxy cfg)) (axLease env)"
    and "calmDynamic (clientIP r (apiTrustProxy cfg)) (axDynamic env)"
  shows "(\<forall>ip. ip \<noteq> clientIP r (apiTrustProxy cfg) \<longrightarrow>
        get (leases (managerOf s')) ip = get (leases (managerOf s)) ip)
    \<and> conns (managerOf s') = conns (managerOf s)
    \<and> (\<not> apiTrustProxy cfg \<longrightarrow>
        serve env cfg (r\<lparr>rqForwardedFor := fwd, rqRealIP := realIP\<rparr>) s = Some (rep, s'))"
proof (intro conjI impI allI)
  note same = client_foreign [OF assms]
  show "get (leases (managerOf s')) ip = get (leases (managerOf s)) ip" if "ip \<noteq> clientIP r (apiTrustProxy cfg)" for ip
    using that by (rule foreign_get [OF same])
  show "conns (managerOf s') = conns (managerOf s)"
    using same by (simp add: foreign_def)
  assume direct: "\<not> apiTrustProxy cfg"
  let ?r = "r\<lparr>rqForwardedFor := fwd, rqRealIP := realIP\<rparr>"
  have route: "rqRoute ?r = rqRoute r" by simp
  have "serve env cfg ?r s = serve env cfg r s"
    using assms(1) unfolding clientRoute_def serve_def handlePostLease_def handlePostLeaseRefresh_def
      handleGetLease_def withKey_def untrusted_headers(1) [OF direct] untrusted_headers(2,3) route by auto
  then show "serve env cfg ?r s = Some (rep, s')"
    using assms(2) by simp
qed

section \<open>A request\<close>

definition exampleDecoders :: decoders where
  "exampleDecoders =
     \<lparr>jdRouting = (\<lambda>_. Inr strangeRouting), jdFront = (\<lambda>_. Inl errNotExist), jdProxyAPI = (\<lambda>_. Inl errNotExist),
      jdDynamic = (\<lambda>_. Inl errNotExist), jdLease = (\<lambda>_. Inr ((None, None), True)), jdAdminLease = (\<lambda>_. Inl errNotExist),
      jdProxy = (\<lambda>_. Inl errNotExist), jdText = Inr, jdURL = Inr, jdIPs = (\<lambda>b. Inr [b]), jdIDs = (\<lambda>b. Inr [b]),
      jdBatch = (\<lambda>b. Inr ([b], True)), jdDisabled = (\<lambda>_. Inr True)\<rparr>"

definition exampleAPI :: "string apiEnv" where
  "exampleAPI =
     \<lparr>axDecode = exampleDecoders, axClock = (\<lambda>n. 100 + int n), axLease = exampleEnv,
      axDynamic = \<lparr>deGate = None, deProvider = exampleProvider, deRandomID = Inr ''api-1'', deProbe = (\<lambda>_. Inr []),
        deRequestedAt = 100, deActivatedAt = 101, deFaults = (\<lambda>_ _. False), deOthers = (\<lambda>_ m. m)\<rparr>,
      axAdmin = exampleAdmin, axUpdate = exampleUpdate (\<lambda>_. None),
      axConnect = Connector.exampleEnv [], axStopped = False, axProbe = (\<lambda>_. Inr []), axElapsed = 0, axSHA1 = (\<lambda>_. []),
      axParseURL = (\<lambda>_. Inl errNotExist), axPayload = (\<lambda>_. None), axFetch = (\<lambda>_. Inl errNotExist),
      axRelease = (\<lambda>_ _. False)\<rparr>"

definition exampleServer :: server where
  "exampleServer = \<lparr>svSystem = exampleSystem\<lparr>syManager := mgr exampleLeased\<rparr>, svGeo = newIPGeoCache (\<lambda>_. Inl errNotExist) []\<rparr>"

definition exampleRequest :: "route \<Rightarrow> string \<Rightarrow> request" where
  "exampleRequest route auth = \<lparr>rqRoute = route, rqAuthorization = auth, rqForwardedFor = ''10.9.9.9'', rqRealIP = [],
     rqRemoteAddr = ''192.168.1.6:5000'', rqContentType = [], rqBody = Inr []\<rparr>"

lemma access_is_controlled_witness:
  "serve exampleAPI (cfgAPI exampleConfig) (exampleRequest PostClear ''Bearer c'') exampleServer = Some (unauthorized, exampleServer)
   \<and> accepted (serve exampleAPI (cfgAPI exampleConfig) (exampleRequest PostClear ''Bearer a'') exampleServer)
   \<and> serve exampleAPI (cfgAPI exampleConfig) (exampleRequest GetLease []) exampleServer = Some (unauthorized, exampleServer)"
proof -
  have ok: "validate (\<lambda>_. None) exampleConfig = None" by code_simp
  have keys: "\<not> authorized (cfgAPI exampleConfig) (exampleRequest PostClear ''Bearer c'')"
    "authorized (cfgAPI exampleConfig) (exampleRequest PostClear ''Bearer a'')"
    by code_simp+
  show ?thesis
    using access_is_controlled [OF ok, of "exampleRequest PostClear ''Bearer c''" exampleAPI exampleServer]
      access_is_controlled [OF ok, of "exampleRequest PostClear ''Bearer a''" exampleAPI exampleServer]
      access_is_controlled [OF ok, of "exampleRequest GetLease []" exampleAPI exampleServer] keys
    by (simp add: exampleRequest_def)
qed

lemma clients_are_isolated_witness:
  "\<exists>rep s'. serve exampleAPI (cfgAPI exampleConfig) (exampleRequest PostLease ''Bearer c'') exampleServer = Some (rep, s')
     \<and> get (leases (managerOf s')) ''192.168.1.5'' = get (leases (mgr exampleLeased)) ''192.168.1.5''
     \<and> get (leases (mgr exampleLeased)) ''192.168.1.5'' \<noteq> None"
proof -
  let ?r = "exampleRequest PostLease ''Bearer c''" and ?cfg = "cfgAPI exampleConfig"
  have ip: "clientIP ?r (apiTrustProxy ?cfg) = ''192.168.1.6''" and leased: "get (leases (mgr exampleLeased)) ''192.168.1.5'' \<noteq> None"
    and key: "checkKey ?r (apiClientKey ?cfg)"
    by code_simp+
  have "TrimSpace [] = []" by code_simp
  then have body: "decodeOptionalDynamicLeaseRequest (jdLease (axDecode exampleAPI)) ?r = Inr None"
    by (simp add: decodeOptionalDynamicLeaseRequest_def exampleRequest_def)
  have calm: "calmLease ''192.168.1.6'' (axLease exampleAPI)" "calmDynamic ''192.168.1.6'' (axDynamic exampleAPI)"
    by (simp_all add: calmLease_def calmDynamic_def exampleAPI_def exampleEnv_def)
  have "calm_env ''192.168.1.6'' (axLease exampleAPI)"
    by (simp add: calm_env_def exampleAPI_def exampleEnv_def)
  then have "\<not> Option.is_none (ensureLease (axLease exampleAPI) ''192.168.1.6'' False (mgr exampleLeased))"
    by (rule ensureLease_returns)
  then obtain a m' where leasing: "ensureLease (axLease exampleAPI) ''192.168.1.6'' False (managerOf exampleServer) = Some (a, m')"
    by (auto simp: Option.is_none_def exampleServer_def)
  have post: "rqRoute ?r = PostLease"
    by (simp add: exampleRequest_def)
  have served: "serve exampleAPI ?cfg ?r exampleServer = Some (AssignmentReply a, setManager m' exampleServer)"
    unfolding serve_def post handlePostLease_def withKey_def body ip LeaseContext_def
    using key by (simp add: leasing assignmentReply_def replyWith_def)
  have route: "clientRoute (rqRoute ?r)"
    by (simp add: clientRoute_def exampleRequest_def)
  show ?thesis
    using clients_are_isolated [OF route served] calm served leased by (simp add: ip exampleServer_def)
qed

end
