(* ===== verification/DynamicGate.thy ===== *)
theory DynamicGate
  imports Prelude
begin

text \<open>
  The gate that serialises the dynamic lease requests of a client: \<open>lockDynamicGate\<close> and the function
  it returns, in internal/manager/dynamic.go. The gates are objects: a request keeps a pointer to the
  one it found, while the table of the manager may drop and recreate the entry of the client, so the
  model has a heap of gates and a table of pointers into it. Any number of requests interleave.
\<close>

section \<open>The gates\<close>

text \<open>The channel of capacity one holds a token exactly while a request is inside.\<close>

record dynamicGate =
  gateToken :: bool
  gateRefs :: int

record gates =
  gtHeap :: "dynamicGate list"
  gtNames :: "nat table"

definition gateEnter :: "string \<Rightarrow> gates \<Rightarrow> nat \<times> gates" where
  "gateEnter ip s =
     (case get (gtNames s) ip of
        Some i \<Rightarrow> (i, s\<lparr>gtHeap := (gtHeap s)[i := (gtHeap s ! i)\<lparr>gateRefs := gateRefs (gtHeap s ! i) + 1\<rparr>]\<rparr>)
      | None \<Rightarrow> (length (gtHeap s),
                 s\<lparr>gtHeap := gtHeap s @ [\<lparr>gateToken = False, gateRefs = 1\<rparr>], gtNames := put ip (length (gtHeap s)) (gtNames s)\<rparr>))"

text \<open>The send blocks while the channel is full.\<close>

definition gateTake :: "nat \<Rightarrow> gates \<Rightarrow> gates option" where
  "gateTake i s =
     (if gateToken (gtHeap s ! i) then None
      else Some (s\<lparr>gtHeap := (gtHeap s)[i := (gtHeap s ! i)\<lparr>gateToken := True\<rparr>]\<rparr>))"

definition gateReceive :: "nat \<Rightarrow> gates \<Rightarrow> gates" where
  "gateReceive i s = s\<lparr>gtHeap := (gtHeap s)[i := (gtHeap s ! i)\<lparr>gateToken := False\<rparr>]\<rparr>"

definition gateReleaseRef :: "string \<Rightarrow> nat \<Rightarrow> gates \<Rightarrow> gates" where
  "gateReleaseRef ip i s =
     (let n = gateRefs (gtHeap s ! i) - 1 in
      s\<lparr>gtHeap := (gtHeap s)[i := (gtHeap s ! i)\<lparr>gateRefs := n\<rparr>],
        gtNames := (if n = 0 then del ip (gtNames s) else gtNames s)\<rparr>)"

section \<open>Requests\<close>

text \<open>
  A request waits for the token, is inside, has handed the token back but not yet its reference, or is
  gone; a waiting request may give up when its context ends.
\<close>

datatype stage = Waiting | Inside | Leaving | Gone

type_synonym visitor = "string \<times> nat \<times> stage"

inductive gateStep :: "gates \<times> visitor list \<Rightarrow> gates \<times> visitor list \<Rightarrow> bool" where
  enter: "gateEnter ip g = (i, g') \<Longrightarrow> gateStep (g, vs) (g', vs @ [(ip, i, Waiting)])"
| takes: "r < length vs \<Longrightarrow> vs ! r = (ip, i, Waiting) \<Longrightarrow> gateTake i g = Some g' \<Longrightarrow>
    gateStep (g, vs) (g', vs[r := (ip, i, Inside)])"
| gives_up: "r < length vs \<Longrightarrow> vs ! r = (ip, i, Waiting) \<Longrightarrow>
    gateStep (g, vs) (gateReleaseRef ip i g, vs[r := (ip, i, Gone)])"
| hands_back: "r < length vs \<Longrightarrow> vs ! r = (ip, i, Inside) \<Longrightarrow>
    gateStep (g, vs) (gateReceive i g, vs[r := (ip, i, Leaving)])"
| leaves: "r < length vs \<Longrightarrow> vs ! r = (ip, i, Leaving) \<Longrightarrow>
    gateStep (g, vs) (gateReleaseRef ip i g, vs[r := (ip, i, Gone)])"

inductive_cases gateStepE: "gateStep s t"

definition gateStart :: "gates \<times> visitor list \<Rightarrow> bool" where
  "gateStart s \<longleftrightarrow> s = (\<lparr>gtHeap = [], gtNames = []\<rparr>, [])"

section \<open>The invariant\<close>

text \<open>How many of the requests at a gate satisfy a predicate on their stage.\<close>

definition countAt :: "(stage \<Rightarrow> bool) \<Rightarrow> nat \<Rightarrow> visitor list \<Rightarrow> int" where
  "countAt P i vs = (\<Sum>(_, j, st)\<leftarrow>vs. if j = i \<and> P st then 1 else 0)"

definition gate_ok :: "gates \<times> visitor list \<Rightarrow> bool" where
  "gate_ok s \<longleftrightarrow> (case s of (g, vs) \<Rightarrow>
     (\<forall>ip i. get (gtNames g) ip = Some i \<longrightarrow> i < length (gtHeap g) \<and> gateRefs (gtHeap g ! i) \<noteq> 0)
     \<and> (\<forall>ip ip' i. get (gtNames g) ip = Some i \<longrightarrow> get (gtNames g) ip' = Some i \<longrightarrow> ip = ip')
     \<and> (\<forall>r ip i st. r < length vs \<longrightarrow> vs ! r = (ip, i, st) \<longrightarrow>
          i < length (gtHeap g) \<and> (st \<noteq> Gone \<longrightarrow> get (gtNames g) ip = Some i))
     \<and> (\<forall>i<length (gtHeap g). gateRefs (gtHeap g ! i) = countAt (\<lambda>st. st \<noteq> Gone) i vs
          \<and> of_bool (gateToken (gtHeap g ! i)) = countAt (\<lambda>st. st = Inside) i vs))"

lemma countAt_append [simp]: "countAt P i (vs @ [(ip, j, st)]) = countAt P i vs + (if j = i \<and> P st then 1 else 0)"
  by (simp add: countAt_def)

lemma countAt_nonneg: "0 \<le> countAt P i vs"
  unfolding countAt_def by (induction vs) auto

lemma countAt_update:
  assumes "r < length vs" and "vs ! r = (ip, j, st)"
  shows "countAt P i (vs[r := (ip, j, st')]) =
    countAt P i vs + (if j = i \<and> P st' then 1 else 0) - (if j = i \<and> P st then 1 else 0)"
  using assms
proof (induction vs arbitrary: r)
  case (Cons v vs)
  then show ?case by (cases r) (auto simp: countAt_def split: prod.splits)
qed simp

lemma countAt_pos:
  assumes "(ip, i, st) \<in> set vs" and "P st"
  shows "0 < countAt P i vs"
  using assms
proof (induction vs)
  case (Cons v vs)
  have "countAt P i (v # vs) = (case v of (_, j, st) \<Rightarrow> if j = i \<and> P st then 1 else 0) + countAt P i vs"
    by (simp add: countAt_def)
  with Cons countAt_nonneg [of P i vs] show ?case by (auto split: prod.splits)
qed simp

lemma countAt_two:
  assumes "r < length vs" "q < length vs" "r \<noteq> q" "vs ! r = (ip, i, st)" "vs ! q = (ip', i, st')" "P st" "P st'"
  shows "2 \<le> countAt P i vs"
proof -
  have "countAt P i (vs[r := (ip, Suc i, st)]) = countAt P i vs - 1"
    using assms(1,4,6)
  proof (induction vs arbitrary: r)
    case (Cons v vs)
    then show ?case by (cases r) (auto simp: countAt_def split: prod.splits)
  qed simp
  moreover have "(ip', i, st') \<in> set (vs[r := (ip, Suc i, st)])"
    using assms by (metis length_list_update nth_list_update_neq nth_mem)
  ultimately show ?thesis
    using countAt_pos [of ip' i st' "vs[r := (ip, Suc i, st)]" P] assms(7) by simp
qed

lemma gate_okI:
  assumes "\<And>ip i. get (gtNames g) ip = Some i \<Longrightarrow> i < length (gtHeap g) \<and> gateRefs (gtHeap g ! i) \<noteq> 0"
    and "\<And>ip ip' i. get (gtNames g) ip = Some i \<Longrightarrow> get (gtNames g) ip' = Some i \<Longrightarrow> ip = ip'"
    and "\<And>r ip i st. r < length vs \<Longrightarrow> vs ! r = (ip, i, st) \<Longrightarrow>
      i < length (gtHeap g) \<and> (st \<noteq> Gone \<longrightarrow> get (gtNames g) ip = Some i)"
    and "\<And>i. i < length (gtHeap g) \<Longrightarrow> gateRefs (gtHeap g ! i) = countAt (\<lambda>st. st \<noteq> Gone) i vs
      \<and> of_bool (gateToken (gtHeap g ! i)) = countAt (\<lambda>st. st = Inside) i vs"
  shows "gate_ok (g, vs)"
  using assms unfolding gate_ok_def by (simp only: prod.case) blast

lemma gate_okD:
  assumes "gate_ok (g, vs)"
  shows "get (gtNames g) ip = Some i \<Longrightarrow> i < length (gtHeap g) \<and> gateRefs (gtHeap g ! i) \<noteq> 0"
    and "get (gtNames g) ip = Some i \<Longrightarrow> get (gtNames g) ip' = Some i \<Longrightarrow> ip = ip'"
    and "r < length vs \<Longrightarrow> vs ! r = (ip, i, st) \<Longrightarrow> i < length (gtHeap g)"
    and "r < length vs \<Longrightarrow> vs ! r = (ip, i, st) \<Longrightarrow> st \<noteq> Gone \<Longrightarrow> get (gtNames g) ip = Some i"
    and "i < length (gtHeap g) \<Longrightarrow> gateRefs (gtHeap g ! i) = countAt (\<lambda>st. st \<noteq> Gone) i vs"
    and "i < length (gtHeap g) \<Longrightarrow> of_bool (gateToken (gtHeap g ! i)) = countAt (\<lambda>st. st = Inside) i vs"
  using assms unfolding gate_ok_def prod.case by blast+

lemma countAt_none:
  assumes "\<And>r ip st. r < length vs \<Longrightarrow> vs ! r = (ip, i, st) \<Longrightarrow> \<not> P st"
  shows "countAt P i vs = 0"
proof -
  have "\<forall>(ip, j, st)\<in>set vs. \<not> (j = i \<and> P st)"
    using assms by (force simp: in_set_conv_nth)
  then show ?thesis
    unfolding countAt_def by (induction vs) auto
qed

lemma enter_ok:
  assumes "gate_ok (g, vs)" and "gateEnter ip g = (i, g')"
  shows "gate_ok (g', vs @ [(ip, i, Waiting)])"
proof (cases "get (gtNames g) ip")
  case None
  let ?n = "length (gtHeap g)"
  have g': "gtHeap g' = gtHeap g @ [\<lparr>gateToken = False, gateRefs = 1\<rparr>]" "gtNames g' = put ip ?n (gtNames g)"
    and i: "i = ?n"
    using assms(2) None by (auto simp: gateEnter_def)
  have new: "countAt P ?n vs = 0" for P
    using gate_okD(3) [OF assms(1)] by (intro countAt_none) blast
  note names = gate_okD(1) [OF assms(1)]
  show ?thesis
  proof (rule gate_okI)
    show "get (gtNames g') d = Some k \<Longrightarrow> k < length (gtHeap g') \<and> gateRefs (gtHeap g' ! k) \<noteq> 0" for d k
      using names [of d k] by (auto simp: g' nth_append split: if_splits)
    show "get (gtNames g') d = Some k \<Longrightarrow> get (gtNames g') e = Some k \<Longrightarrow> d = e" for d e k
      using names [of d k] names [of e k] gate_okD(2) [OF assms(1)] by (auto simp: g' split: if_splits)
    show "r < length (vs @ [(ip, i, Waiting)]) \<Longrightarrow> (vs @ [(ip, i, Waiting)]) ! r = (d, k, st) \<Longrightarrow>
        k < length (gtHeap g') \<and> (st \<noteq> Gone \<longrightarrow> get (gtNames g') d = Some k)" for r d k st
      using gate_okD(3,4) [OF assms(1), of r d k st] None by (auto simp: g' i nth_append less_Suc_eq)
    show "k < length (gtHeap g') \<Longrightarrow> gateRefs (gtHeap g' ! k) = countAt (\<lambda>st. st \<noteq> Gone) k (vs @ [(ip, i, Waiting)])
        \<and> of_bool (gateToken (gtHeap g' ! k)) = countAt (\<lambda>st. st = Inside) k (vs @ [(ip, i, Waiting)])" for k
      using gate_okD(5,6) [OF assms(1), of k] by (auto simp: g' i nth_append new less_Suc_eq)
  qed
next
  case (Some n)
  have g': "gtHeap g' = (gtHeap g)[i := (gtHeap g ! i)\<lparr>gateRefs := gateRefs (gtHeap g ! i) + 1\<rparr>]" "gtNames g' = gtNames g"
    and i: "get (gtNames g) ip = Some i"
    using assms(2) Some by (auto simp: gateEnter_def)
  note names = gate_okD(1) [OF assms(1)]
  have nonneg: "0 \<le> gateRefs (gtHeap g ! k)" if "k < length (gtHeap g)" for k
    using gate_okD(5) [OF assms(1) that] countAt_nonneg by simp
  show ?thesis
  proof (rule gate_okI)
    show "get (gtNames g') d = Some k \<Longrightarrow> k < length (gtHeap g') \<and> gateRefs (gtHeap g' ! k) \<noteq> 0" for d k
      using names [of d k] nonneg [of k] by (cases "k = i") (auto simp: g')
    show "get (gtNames g') d = Some k \<Longrightarrow> get (gtNames g') e = Some k \<Longrightarrow> d = e" for d e k
      using gate_okD(2) [OF assms(1)] by (simp add: g')
    show "r < length (vs @ [(ip, i, Waiting)]) \<Longrightarrow> (vs @ [(ip, i, Waiting)]) ! r = (d, k, st) \<Longrightarrow>
        k < length (gtHeap g') \<and> (st \<noteq> Gone \<longrightarrow> get (gtNames g') d = Some k)" for r d k st
      using gate_okD(3,4) [OF assms(1), of r d k st] names [OF i] i by (auto simp: g' nth_append less_Suc_eq)
    show "k < length (gtHeap g') \<Longrightarrow> gateRefs (gtHeap g' ! k) = countAt (\<lambda>st. st \<noteq> Gone) k (vs @ [(ip, i, Waiting)])
        \<and> of_bool (gateToken (gtHeap g' ! k)) = countAt (\<lambda>st. st = Inside) k (vs @ [(ip, i, Waiting)])" for k
      using gate_okD(5,6) [OF assms(1), of k] by (auto simp: g' nth_list_update)
  qed
qed

text \<open>A request that stays at its gate and a section that only changes the token.\<close>

lemma token_ok:
  assumes "gate_ok (g, vs)" and "r < length vs" and "vs ! r = (ip, i, st)" and "st \<noteq> Gone" and "st' \<noteq> Gone"
    and "of_bool tok = countAt (\<lambda>st. st = Inside) i vs + (if st' = Inside then 1 else 0) - (if st = Inside then 1 else 0)"
  shows "gate_ok (g\<lparr>gtHeap := (gtHeap g)[i := (gtHeap g ! i)\<lparr>gateToken := tok\<rparr>]\<rparr>, vs[r := (ip, i, st')])"
proof (rule gate_okI)
  let ?g = "g\<lparr>gtHeap := (gtHeap g)[i := (gtHeap g ! i)\<lparr>gateToken := tok\<rparr>]\<rparr>" and ?vs = "vs[r := (ip, i, st')]"
  show "get (gtNames ?g) d = Some k \<Longrightarrow> k < length (gtHeap ?g) \<and> gateRefs (gtHeap ?g ! k) \<noteq> 0" for d k
    using gate_okD(1) [OF assms(1), of d k] by (cases "k = i") auto
  show "get (gtNames ?g) d = Some k \<Longrightarrow> get (gtNames ?g) e = Some k \<Longrightarrow> d = e" for d e k
    using gate_okD(2) [OF assms(1)] by simp
  show "q < length ?vs \<Longrightarrow> ?vs ! q = (d, k, s) \<Longrightarrow> k < length (gtHeap ?g) \<and> (s \<noteq> Gone \<longrightarrow> get (gtNames ?g) d = Some k)" for q d k s
    using gate_okD(3,4) [OF assms(1), of q d k s] gate_okD(3,4) [OF assms(1-3)] assms(2,4)
    by (cases "q = r") auto
  show "k < length (gtHeap ?g) \<Longrightarrow> gateRefs (gtHeap ?g ! k) = countAt (\<lambda>st. st \<noteq> Gone) k ?vs
      \<and> of_bool (gateToken (gtHeap ?g ! k)) = countAt (\<lambda>st. st = Inside) k ?vs" for k
    using gate_okD(5,6) [OF assms(1), of k] assms(4-6)
    by (cases "k = i") (simp_all add: countAt_update [OF assms(2,3)])
qed

lemma release_ok:
  assumes "gate_ok (g, vs)" and "r < length vs" and "vs ! r = (ip, i, st)" and "st = Waiting \<or> st = Leaving"
  shows "gate_ok (gateReleaseRef ip i g, vs[r := (ip, i, Gone)])"
proof -
  let ?n = "gateRefs (gtHeap g ! i) - 1" and ?vs = "vs[r := (ip, i, Gone)]"
  let ?h = "(gtHeap g)[i := (gtHeap g ! i)\<lparr>gateRefs := ?n\<rparr>]"
  have live: "st \<noteq> Gone" using assms(4) by auto
  have i: "i < length (gtHeap g)" "get (gtNames g) ip = Some i"
    using gate_okD(3,4) [OF assms(1-3)] live by auto
  have counts: "k < length ?h \<Longrightarrow> gateRefs (?h ! k) = countAt (\<lambda>st. st \<noteq> Gone) k ?vs
      \<and> of_bool (gateToken (?h ! k)) = countAt (\<lambda>st. st = Inside) k ?vs" for k
    using gate_okD(5,6) [OF assms(1), of k] assms(4)
    by (auto simp: countAt_update [OF assms(2,3)] nth_list_update)
  have refs: "?n = countAt (\<lambda>st. st \<noteq> Gone) i ?vs"
    using counts [of i] i(1) by simp
  have others: "get (gtNames g) d = Some k \<Longrightarrow> k < length ?h \<and> (k \<noteq> i \<longrightarrow> gateRefs (?h ! k) \<noteq> 0)" for d k
    using gate_okD(1) [OF assms(1), of d k] by auto
  have gone: "k < length ?h \<and> (s \<noteq> Gone \<longrightarrow> get (gtNames g) d = Some k)" if "q < length ?vs" "?vs ! q = (d, k, s)" for q d k s
    using gate_okD(3,4) [OF assms(1), of q d k s] gate_okD(3) [OF assms(1-3)] that assms(2)
    by (cases "q = r") auto
  show ?thesis
  proof (cases "?n = 0")
    case True
    have empty: "k \<noteq> i" if "q < length ?vs" "?vs ! q = (d, k, s)" "s \<noteq> Gone" for q d k s
      using countAt_pos [of d i s ?vs "\<lambda>st. st \<noteq> Gone"] that refs True by (metis less_irrefl nth_mem)
    have "gate_ok (g\<lparr>gtHeap := ?h, gtNames := del ip (gtNames g)\<rparr>, ?vs)"
    proof (rule gate_okI)
      show "get (gtNames (g\<lparr>gtHeap := ?h, gtNames := del ip (gtNames g)\<rparr>)) d = Some k \<Longrightarrow>
          k < length (gtHeap (g\<lparr>gtHeap := ?h, gtNames := del ip (gtNames g)\<rparr>))
          \<and> gateRefs (gtHeap (g\<lparr>gtHeap := ?h, gtNames := del ip (gtNames g)\<rparr>) ! k) \<noteq> 0" for d k
        using others [of d k] gate_okD(2) [OF assms(1) i(2), of d] by (cases "k = i") (auto split: if_splits)
      show "q < length ?vs \<Longrightarrow> ?vs ! q = (d, k, s) \<Longrightarrow>
          k < length (gtHeap (g\<lparr>gtHeap := ?h, gtNames := del ip (gtNames g)\<rparr>))
          \<and> (s \<noteq> Gone \<longrightarrow> get (gtNames (g\<lparr>gtHeap := ?h, gtNames := del ip (gtNames g)\<rparr>)) d = Some k)" for q d k s
        using gone [of q d k s] empty [of q d k s] i(2) by (cases "s = Gone") auto
    qed (use counts gate_okD(2) [OF assms(1)] in \<open>auto split: if_splits\<close>)
    then show ?thesis
      using True by (simp add: gateReleaseRef_def Let_def)
  next
    case False
    have "gate_ok (g\<lparr>gtHeap := ?h\<rparr>, ?vs)"
    proof (rule gate_okI)
      show "get (gtNames (g\<lparr>gtHeap := ?h\<rparr>)) d = Some k \<Longrightarrow>
          k < length (gtHeap (g\<lparr>gtHeap := ?h\<rparr>)) \<and> gateRefs (gtHeap (g\<lparr>gtHeap := ?h\<rparr>) ! k) \<noteq> 0" for d k
        using others [of d k] False i(1) by (cases "k = i") auto
    qed (use counts gone gate_okD(2) [OF assms(1)] in auto)
    then show ?thesis
      using False by (simp add: gateReleaseRef_def Let_def)
  qed
qed

lemma gate_step_ok:
  assumes "gateStep s t" and "gate_ok s"
  shows "gate_ok t"
  using assms
proof cases
  case (enter ip g i g' vs)
  with assms(2) enter_ok show ?thesis by simp
next
  case (takes r vs ip i g g')
  note ok = assms(2) [unfolded takes(1)]
  have "i < length (gtHeap g)"
    using gate_okD(3) [OF ok takes(3,4)] .
  with takes(2,5) gate_okD(6) [OF ok this] show ?thesis
    using token_ok [OF ok takes(3,4), of Inside True]
    by (auto simp: gateTake_def split: if_splits)
next
  case (gives_up r vs ip i g)
  with assms(2) release_ok show ?thesis by auto
next
  case (hands_back r vs ip i g)
  note ok = assms(2) [unfolded hands_back(1)]
  have i: "i < length (gtHeap g)"
    using gate_okD(3) [OF ok hands_back(3,4)] .
  have "0 < countAt (\<lambda>st. st = Inside) i vs"
    using countAt_pos [of ip i Inside vs] hands_back(3,4) by (metis nth_mem)
  then have "countAt (\<lambda>st. st = Inside) i vs = 1"
    using gate_okD(6) [OF ok i] by (cases "gateToken (gtHeap g ! i)") auto
  then show ?thesis
    using token_ok [OF ok hands_back(3,4), of Leaving False] hands_back(2) by (simp add: gateReceive_def)
next
  case (leaves r vs ip i g)
  with assms(2) release_ok show ?thesis by auto
qed

interpretation gate: step_system gateStart gateStep gate_ok
proof
  show "gateStart s \<Longrightarrow> gate_ok s" for s
    by (simp add: gateStart_def gate_ok_def)
  show "gate_ok s \<Longrightarrow> gateStep s t \<Longrightarrow> gate_ok t" for s t
    by (rule gate_step_ok)
qed

section \<open>One rental per client\<close>

text \<open>
  C17. The gates serialise the dynamic lease requests. However many requests of however many clients
  interleave, give up and leave, never two requests of one client are inside its gate; a client whose
  requests are all gone has no gate left in the table; and a waiting request finds the channel full
  only while another request of its client is inside, so the token is never lost.
\<close>

theorem one_rental_per_client:
  assumes "gateStart s" and "gateStep\<^sup>*\<^sup>* s (g, vs)"
  shows "(\<forall>r q ip i j. r < length vs \<longrightarrow> q < length vs \<longrightarrow> vs ! r = (ip, i, Inside) \<longrightarrow> vs ! q = (ip, j, Inside) \<longrightarrow> r = q)
    \<and> (\<forall>ip. (\<forall>(ip', i, st)\<in>set vs. ip' = ip \<longrightarrow> st = Gone) \<longrightarrow> get (gtNames g) ip = None)
    \<and> (\<forall>r ip i. r < length vs \<longrightarrow> vs ! r = (ip, i, Waiting) \<longrightarrow>
        gateTake i g = None \<longrightarrow> (\<exists>q<length vs. vs ! q = (ip, i, Inside)))"
proof -
  have ok: "gate_ok (g, vs)"
    using assms by (rule gate.inv_reachable)
  have exclusive: "r = q" if at: "r < length vs" "q < length vs" "vs ! r = (ip, i, Inside)" "vs ! q = (ip, j, Inside)" for r q ip i j
  proof (rule ccontr)
    assume "r \<noteq> q"
    have "i = j" and i: "i < length (gtHeap g)"
      using gate_okD(3,4) [OF ok] at by (auto dest!: gate_okD(4) [OF ok])
    then show False
      using countAt_two [OF at(1,2) \<open>r \<noteq> q\<close> at(3), of ip Inside "\<lambda>st. st = Inside"] at(4) gate_okD(6) [OF ok i]
      by (cases "gateToken (gtHeap g ! i)") auto
  qed
  have present: "\<exists>q d st. q < length vs \<and> vs ! q = (d, i, st) \<and> P st" if "countAt P i vs \<noteq> 0" for P i
    using that countAt_none [of vs i P] by blast
  have collected: "get (gtNames g) ip = None" if gone: "\<forall>(ip', i, st)\<in>set vs. ip' = ip \<longrightarrow> st = Gone" for ip
  proof (rule ccontr)
    assume "get (gtNames g) ip \<noteq> None"
    then obtain i where i: "get (gtNames g) ip = Some i" by auto
    then obtain q d st where q: "q < length vs" "vs ! q = (d, i, st)" "st \<noteq> Gone"
      using gate_okD(1) [OF ok i] gate_okD(5) [OF ok, of i] present [of "\<lambda>st. st \<noteq> Gone" i] by auto
    then have "d = ip"
      using gate_okD(2) [OF ok gate_okD(4) [OF ok q] i] by simp
    then show False
      using q gone nth_mem [OF q(1)] by auto
  qed
  have "\<exists>q<length vs. vs ! q = (ip, i, Inside)"
    if r: "r < length vs" "vs ! r = (ip, i, Waiting)" and "gateTake i g = None" for r ip i
  proof -
    have "countAt (\<lambda>st. st = Inside) i vs \<noteq> 0"
      using that(3) gate_okD(6) [OF ok gate_okD(3) [OF ok r]] by (auto simp: gateTake_def split: if_splits)
    then obtain q d where q: "q < length vs" "vs ! q = (d, i, Inside)"
      using present by blast
    then have "d = ip"
      using gate_okD(2) [OF ok gate_okD(4) [OF ok q] gate_okD(4) [OF ok r]] by simp
    with q show ?thesis by blast
  qed
  with exclusive collected show ?thesis by blast
qed

text \<open>Two requests of one client and one of another; the first is inside.\<close>

definition busyGates :: gates where
  "busyGates = \<lparr>gtHeap = [\<lparr>gateToken = True, gateRefs = 2\<rparr>, \<lparr>gateToken = False, gateRefs = 1\<rparr>],
     gtNames = [(''10.0.0.1'', 0), (''10.0.0.2'', 1)]\<rparr>"

definition busyVisitors :: "visitor list" where
  "busyVisitors = [(''10.0.0.1'', 0, Inside), (''10.0.0.2'', 1, Waiting), (''10.0.0.1'', 0, Waiting)]"

lemma busy_reachable: "gateStep\<^sup>*\<^sup>* (\<lparr>gtHeap = [], gtNames = []\<rparr>, []) (busyGates, busyVisitors)"
proof -
  let ?g0 = "\<lparr>gtHeap = [], gtNames = []\<rparr>" and ?g1 = "\<lparr>gtHeap = [\<lparr>gateToken = False, gateRefs = 1\<rparr>], gtNames = [(''10.0.0.1'', 0)]\<rparr>"
  let ?g2 = "\<lparr>gtHeap = [\<lparr>gateToken = False, gateRefs = 1\<rparr>, \<lparr>gateToken = False, gateRefs = 1\<rparr>], gtNames = [(''10.0.0.1'', 0), (''10.0.0.2'', 1)]\<rparr>"
  let ?g3 = "\<lparr>gtHeap = [\<lparr>gateToken = False, gateRefs = 2\<rparr>, \<lparr>gateToken = False, gateRefs = 1\<rparr>], gtNames = [(''10.0.0.1'', 0), (''10.0.0.2'', 1)]\<rparr>"
  let ?a = "(''10.0.0.1'', 0, Waiting)" and ?b = "(''10.0.0.2'', 1, Waiting)"
  have "gateEnter ''10.0.0.1'' ?g0 = (0, ?g1)" "gateEnter ''10.0.0.2'' ?g1 = (1, ?g2)"
    "gateEnter ''10.0.0.1'' ?g2 = (0, ?g3)" "gateTake 0 ?g3 = Some busyGates"
    by (simp_all add: gateEnter_def gateTake_def busyGates_def)
  then have "gateStep (?g0, []) (?g1, [?a])" "gateStep (?g1, [?a]) (?g2, [?a, ?b])"
    "gateStep (?g2, [?a, ?b]) (?g3, [?a, ?b, ?a])" "gateStep (?g3, [?a, ?b, ?a]) (busyGates, busyVisitors)"
    using enter [of "''10.0.0.1''" ?g0 0 ?g1 "[]"] enter [of "''10.0.0.2''" ?g1 1 ?g2 "[?a]"]
      enter [of "''10.0.0.1''" ?g2 0 ?g3 "[?a, ?b]"] takes [of 0 "[?a, ?b, ?a]" "''10.0.0.1''" 0 ?g3 busyGates]
    by (simp_all add: busyVisitors_def)
  then show ?thesis
    by (meson rtranclp.rtrancl_into_rtrancl rtranclp.rtrancl_refl)
qed

lemma one_rental_per_client_witness:
  "gateTake 0 busyGates = None \<and> (\<exists>q<3. busyVisitors ! q = (''10.0.0.1'', 0, Inside))"
proof
  show full: "gateTake 0 busyGates = None"
    by (simp add: gateTake_def busyGates_def)
  have start: "gateStart (\<lparr>gtHeap = [], gtNames = []\<rparr>, [])"
    by (simp add: gateStart_def)
  have "2 < length busyVisitors" "busyVisitors ! 2 = (''10.0.0.1'', 0, Waiting)" "length busyVisitors = 3"
    by (simp_all add: busyVisitors_def)
  then show "\<exists>q<3. busyVisitors ! q = (''10.0.0.1'', 0, Inside)"
    using one_rental_per_client [OF start busy_reachable] full by metis
qed

end
