(* ===== verification/HealthRound.thy ===== *)
theory HealthRound
  imports Health "HOL-Library.Multiset"
begin

text \<open>
  The worker pool of a health round, \<open>checkAll\<close> in internal/manager/health.go: the main goroutine hands
  the proxies out over an unbuffered channel, the workers take snapshots, probe and collect results,
  and the first failure of the front that is shared by all proxies cancels the round. The goroutines
  interleave freely; the manager that a snapshot reads may have changed in any way since the round
  began. The counter of the log message is not modelled.
\<close>

section \<open>The goroutines\<close>

datatype mainStage = Handing | Closed | GaveUp

text \<open>A worker waits for a job, has received one, has found the round alive, probes, has a result, or is gone.\<close>

datatype worker = Ready | Received string | Accepted string | Probing Proxy | Reporting healthResult | Exited

record round =
  rdQueue :: "string list"
  rdMain :: mainStage
  rdWorkers :: "worker list"
  rdResults :: "healthResult list"
  rdSkipped :: bool
  rdShared :: bool
  rdCanceled :: bool

definition workerCount :: "int \<Rightarrow> nat \<Rightarrow> nat" where
  "workerCount concurrency n =
     (let w = nat (max 1 concurrency) in if w > n \<and> n > 0 then n else w)"

text \<open>The round after the preflight, whose ambiguous result is kept and whose proxy is not handed out again.\<close>

definition beginRound :: "int \<Rightarrow> string list \<Rightarrow> healthResult option \<Rightarrow> round" where
  "beginRound concurrency pids pre =
     \<lparr>rdQueue = (case pre of None \<Rightarrow> pids | Some r \<Rightarrow> filter (\<lambda>pid. pid \<noteq> hrProxyID r) pids), rdMain = Handing,
      rdWorkers = replicate (workerCount concurrency (length pids)) Ready,
      rdResults = (case pre of None \<Rightarrow> [] | Some r \<Rightarrow> [r]), rdSkipped = False, rdShared = False, rdCanceled = False\<rparr>"

definition keyed :: "Manager \<Rightarrow> bool" where
  "keyed m \<longleftrightarrow> (\<forall>pid p. get (proxies m) pid = Some p \<longrightarrow> pID p = pid)"

abbreviation setWorker :: "nat \<Rightarrow> worker \<Rightarrow> round \<Rightarrow> round" where
  "setWorker i w s \<equiv> s\<lparr>rdWorkers := (rdWorkers s)[i := w]\<rparr>"

definition workerAt :: "round \<Rightarrow> nat \<Rightarrow> worker \<Rightarrow> bool" where
  "workerAt s i w \<longleftrightarrow> i < length (rdWorkers s) \<and> rdWorkers s ! i = w"

inductive roundStep :: "round \<Rightarrow> round \<Rightarrow> bool" where
  hand: "rdMain s = Handing \<Longrightarrow> rdQueue s = pid # rest \<Longrightarrow> workerAt s i Ready \<Longrightarrow>
    roundStep s (setWorker i (Received pid) (s\<lparr>rdQueue := rest\<rparr>))"
| give_up: "rdMain s = Handing \<Longrightarrow> rdQueue s \<noteq> [] \<Longrightarrow> rdCanceled s \<Longrightarrow> roundStep s (s\<lparr>rdMain := GaveUp\<rparr>)"
| close: "rdMain s = Handing \<Longrightarrow> rdQueue s = [] \<Longrightarrow> roundStep s (s\<lparr>rdMain := Closed\<rparr>)"
| no_more: "rdMain s \<noteq> Handing \<Longrightarrow> workerAt s i Ready \<Longrightarrow> roundStep s (setWorker i Exited s)"
| refuse: "workerAt s i (Received pid) \<Longrightarrow> rdCanceled s \<Longrightarrow> roundStep s (setWorker i Exited s)"
| accept: "workerAt s i (Received pid) \<Longrightarrow> \<not> rdCanceled s \<Longrightarrow> roundStep s (setWorker i (Accepted pid) s)"
| skip: "workerAt s i (Accepted pid) \<Longrightarrow> keyed m \<Longrightarrow> proxyCheckSnapshot pid m = None \<Longrightarrow>
    roundStep s (setWorker i Ready (s\<lparr>rdSkipped := True\<rparr>))"
| snapshot: "workerAt s i (Accepted pid) \<Longrightarrow> keyed m \<Longrightarrow> proxyCheckSnapshot pid m = Some p \<Longrightarrow>
    roundStep s (setWorker i (Probing p) s)"
| shared: "workerAt s i (Probing p) \<Longrightarrow> FailureScopeOf err = FailureScopeShared \<Longrightarrow>
    roundStep s (setWorker i Exited (s\<lparr>rdShared := True, rdCanceled := True\<rparr>))"
| late: "workerAt s i (Probing p) \<Longrightarrow> FailureScopeOf err \<noteq> FailureScopeShared \<Longrightarrow> rdCanceled s \<Longrightarrow>
    roundStep s (setWorker i Exited s)"
| probed: "workerAt s i (Probing p) \<Longrightarrow> FailureScopeOf err \<noteq> FailureScopeShared \<Longrightarrow> \<not> rdCanceled s \<Longrightarrow>
    roundStep s (setWorker i (Reporting \<lparr>hrProxyID = pID p, hrAddress = pAddress p, hrErr = err, hrExitIP = exitIP\<rparr>) s)"
| report: "workerAt s i (Reporting r) \<Longrightarrow> roundStep s (setWorker i Ready (s\<lparr>rdResults := rdResults s @ [r]\<rparr>))"
| cancel: "\<not> rdCanceled s \<Longrightarrow> roundStep s (s\<lparr>rdCanceled := True\<rparr>)"

definition finished :: "round \<Rightarrow> bool" where
  "finished s \<longleftrightarrow> rdMain s \<noteq> Handing \<and> (\<forall>w\<in>set (rdWorkers s). w = Exited)"

text \<open>What follows the wait for the workers: nothing when the round was canceled, else the conclusion.\<close>

definition endRound :: "roundEnv \<Rightarrow> round \<Rightarrow> Manager \<Rightarrow> Manager" where
  "endRound env s m = (if rdCanceled s \<or> rdShared s then m else finishRound env (rdSkipped s) (rdResults s) m)"

section \<open>No proxy is lost or probed twice\<close>

fun heldBy :: "worker \<Rightarrow> string multiset" where
  "heldBy (Received pid) = {#pid#}"
| "heldBy (Accepted pid) = {#pid#}"
| "heldBy (Probing p) = {#pID p#}"
| "heldBy (Reporting r) = {#hrProxyID r#}"
| "heldBy _ = {#}"

definition tracked :: "round \<Rightarrow> string multiset" where
  "tracked s = mset (rdQueue s) + sum_list (map heldBy (rdWorkers s)) + mset (map hrProxyID (rdResults s))"

lemma sum_list_setWorker:
  fixes f :: "'a \<Rightarrow> 'b :: comm_monoid_add"
  shows "i < length ws \<Longrightarrow> sum_list (map f (ws[i := w])) + f (ws ! i) = sum_list (map f ws) + f w"
proof (induction ws arbitrary: i)
  case (Cons v ws)
  then show ?case by (cases i) (simp_all add: ac_simps)
qed simp

lemma held_setWorker:
  "workerAt s i v \<Longrightarrow> sum_list (map heldBy ((rdWorkers s)[i := w])) + heldBy v = sum_list (map heldBy (rdWorkers s)) + heldBy w"
  using sum_list_setWorker [of i "rdWorkers s" heldBy w] by (simp add: workerAt_def)

definition round_ok :: "string list \<Rightarrow> round \<Rightarrow> bool" where
  "round_ok pids s \<longleftrightarrow>
     tracked s \<subseteq># mset pids \<and> (\<not> rdCanceled s \<longrightarrow> \<not> rdSkipped s \<longrightarrow> tracked s = mset pids)
     \<and> (rdShared s \<longrightarrow> rdCanceled s) \<and> (rdMain s = GaveUp \<longrightarrow> rdCanceled s) \<and> (rdMain s = Closed \<longrightarrow> rdQueue s = [])
     \<and> rdWorkers s \<noteq> [] \<and> (Exited \<in> set (rdWorkers s) \<longrightarrow> rdCanceled s \<or> rdMain s \<noteq> Handing)"

section \<open>Every round ends\<close>

fun load :: "worker \<Rightarrow> nat" where
  "load (Received _) = 5"
| "load (Accepted _) = 4"
| "load (Probing _) = 3"
| "load (Reporting _) = 2"
| "load Ready = 1"
| "load Exited = 0"

definition weight :: "round \<Rightarrow> nat" where
  "weight s = 5 * length (rdQueue s) + sum_list (map load (rdWorkers s))
     + (if rdMain s = Handing then 1 else 0) + (if rdCanceled s then 0 else 1)"

lemma load_setWorker:
  "workerAt s i v \<Longrightarrow> sum_list (map load ((rdWorkers s)[i := w])) + load v = sum_list (map load (rdWorkers s)) + load w"
  using sum_list_setWorker [of i "rdWorkers s" load w] by (simp add: workerAt_def)

lemma weight_step: "roundStep s t \<Longrightarrow> weight t < weight s"
proof (induction rule: roundStep.induct)
  case (hand s pid rest i)
  with load_setWorker [OF hand(3), of "Received pid"] show ?case by (simp add: weight_def)
next
  case (no_more s i)
  with load_setWorker [OF no_more(2), of Exited] show ?case by (simp add: weight_def)
next
  case (refuse s i pid)
  with load_setWorker [OF refuse(1), of Exited] show ?case by (simp add: weight_def)
next
  case (accept s i pid)
  with load_setWorker [OF accept(1), of "Accepted pid"] show ?case by (simp add: weight_def)
next
  case (skip s i pid m)
  with load_setWorker [OF skip(1), of Ready] show ?case by (simp add: weight_def)
next
  case (snapshot s i pid m p)
  with load_setWorker [OF snapshot(1), of "Probing p"] show ?case by (simp add: weight_def)
next
  case (shared s i p err)
  with load_setWorker [OF shared(1), of Exited] show ?case by (simp add: weight_def)
next
  case (late s i p err)
  with load_setWorker [OF late(1), of Exited] show ?case by (simp add: weight_def)
next
  case (probed s i p err exitIP)
  with load_setWorker [OF probed(1), of "Reporting \<lparr>hrProxyID = pID p, hrAddress = pAddress p, hrErr = err, hrExitIP = exitIP\<rparr>"]
  show ?case by (simp add: weight_def)
next
  case (report s i r)
  with load_setWorker [OF report(1), of Ready] show ?case by (simp add: weight_def)
qed (simp_all add: weight_def)

section \<open>The invariant\<close>

lemma tracked_setWorker:
  assumes "workerAt s i v"
  shows "tracked (setWorker i w s) + heldBy v = tracked s + heldBy w"
  using held_setWorker [OF assms, of w] by (simp add: tracked_def ac_simps)

lemma workerAt_fields [simp]:
  "workerAt (s\<lparr>rdQueue := q\<rparr>) i w = workerAt s i w" "workerAt (s\<lparr>rdSkipped := b\<rparr>) i w = workerAt s i w"
  "workerAt (s\<lparr>rdShared := b, rdCanceled := c\<rparr>) i w = workerAt s i w" "workerAt (s\<lparr>rdResults := rs\<rparr>) i w = workerAt s i w"
  by (simp_all add: workerAt_def)

text \<open>A step of one worker keeps the invariant when it tracks no more proxies, and no fewer in a live round that skips none.\<close>

lemma round_ok_worker:
  assumes ok: "round_ok pids s" and at: "workerAt s i v"
    and fields: "rdMain s' = rdMain s" "rdWorkers s' = (rdWorkers s)[i := w]" "rdQueue s' = [] \<or> rdMain s \<noteq> Closed"
      "rdCanceled s \<longrightarrow> rdCanceled s'" "rdShared s' \<longrightarrow> rdShared s \<or> rdCanceled s'" "rdSkipped s \<longrightarrow> rdSkipped s'"
    and exit: "w = Exited \<longrightarrow> rdCanceled s' \<or> rdMain s \<noteq> Handing"
    and tracks: "tracked s' \<subseteq># tracked s" "\<not> rdCanceled s' \<longrightarrow> \<not> rdSkipped s' \<longrightarrow> tracked s' = tracked s"
  shows "round_ok pids s'"
proof -
  have "Exited \<in> set (rdWorkers s') \<longrightarrow> w = Exited \<or> Exited \<in> set (rdWorkers s)"
    using fields(2) set_update_subset_insert [of "rdWorkers s" i w] by auto
  then show ?thesis
    using ok fields exit tracks subset_mset.order_trans [OF tracks(1)] by (auto simp: round_ok_def)
qed

lemma round_ok_step: "roundStep s t \<Longrightarrow> round_ok pids s \<Longrightarrow> round_ok pids t"
proof (induction rule: roundStep.induct)
  case (hand s pid rest i)
  have "tracked (setWorker i (Received pid) (s\<lparr>rdQueue := rest\<rparr>)) = tracked s"
    using held_setWorker [OF hand(3), of "Received pid"] hand(2) by (simp add: tracked_def)
  then show ?case
    using hand by (intro round_ok_worker [OF hand.prems hand(3), where w = "Received pid"]) auto
next
  case (no_more s i)
  then show ?case
    using tracked_setWorker [OF no_more(2), of Exited]
    by (intro round_ok_worker [OF no_more.prems no_more(2), where w = Exited]) (auto simp: round_ok_def)
next
  case (refuse s i pid)
  have "tracked (setWorker i Exited s) \<subseteq># tracked s"
    using tracked_setWorker [OF refuse(1), of Exited] by (metis empty_neutral(2) heldBy.simps(6) mset_subset_eq_add_left)
  then show ?case
    using refuse by (intro round_ok_worker [OF refuse.prems refuse(1), where w = Exited]) (auto simp: round_ok_def)
next
  case (accept s i pid)
  then show ?case
    using tracked_setWorker [OF accept(1), of "Accepted pid"]
    by (intro round_ok_worker [OF accept.prems accept(1), where w = "Accepted pid"]) (auto simp: round_ok_def)
next
  case (skip s i pid m)
  have "tracked (setWorker i Ready (s\<lparr>rdSkipped := True\<rparr>)) + {#pid#} = tracked s"
    using held_setWorker [OF skip(1), of Ready] by (simp add: tracked_def ac_simps)
  then have "tracked (setWorker i Ready (s\<lparr>rdSkipped := True\<rparr>)) \<subseteq># tracked s"
    by (metis mset_subset_eq_add_left)
  then show ?case
    using skip by (intro round_ok_worker [OF skip.prems skip(1), where w = Ready]) (auto simp: round_ok_def)
next
  case (snapshot s i pid m p)
  have "pID p = pid"
    using snapshot(2,3) by (auto simp: keyed_def proxyCheckSnapshot_def split: option.splits if_splits)
  then show ?case
    using snapshot.prems tracked_setWorker [OF snapshot(1), of "Probing p"]
    by (intro round_ok_worker [OF snapshot.prems snapshot(1), where w = "Probing p"]) (auto simp: round_ok_def)
next
  case (shared s i p err)
  let ?t = "setWorker i Exited (s\<lparr>rdShared := True, rdCanceled := True\<rparr>)"
  have "tracked ?t + {#pID p#} = tracked s"
    using held_setWorker [OF shared(1), of Exited] by (simp add: tracked_def ac_simps)
  then have "tracked ?t \<subseteq># tracked s"
    by (metis mset_subset_eq_add_left)
  then show ?case
    using shared by (intro round_ok_worker [OF shared.prems shared(1), where w = Exited]) (auto simp: round_ok_def)
next
  case (late s i p err)
  have "tracked (setWorker i Exited s) \<subseteq># tracked s"
    using tracked_setWorker [OF late(1), of Exited] by (metis empty_neutral(2) heldBy.simps(6) mset_subset_eq_add_left)
  then show ?case
    using late by (intro round_ok_worker [OF late.prems late(1), where w = Exited]) (auto simp: round_ok_def)
next
  case (probed s i p err exitIP)
  let ?w = "Reporting \<lparr>hrProxyID = pID p, hrAddress = pAddress p, hrErr = err, hrExitIP = exitIP\<rparr>"
  show ?case
    using probed tracked_setWorker [OF probed(1), of ?w]
    by (intro round_ok_worker [OF probed.prems probed(1), where w = ?w]) (auto simp: round_ok_def)
next
  case (report s i r)
  have "tracked (setWorker i Ready (s\<lparr>rdResults := rdResults s @ [r]\<rparr>)) = tracked s"
    using held_setWorker [OF report(1), of Ready] by (simp add: tracked_def ac_simps)
  then show ?case
    using report by (intro round_ok_worker [OF report.prems report(1), where w = Ready]) (auto simp: round_ok_def)
qed (auto simp: round_ok_def tracked_def)

lemma beginRound_ok:
  assumes "distinct pids" and "case pre of None \<Rightarrow> True | Some r \<Rightarrow> hrProxyID r \<in> set pids"
  shows "round_ok pids (beginRound concurrency pids pre)"
proof -
  have held: "sum_list (replicate n ({#} :: string multiset)) = {#}" for n
    by (induction n) simp_all
  have "workerCount concurrency n \<noteq> 0" for n
    by (auto simp: workerCount_def Let_def max_def)
  moreover have "mset (filter (\<lambda>pid. pid \<noteq> x) pids) + {#x#} = mset pids" if "x \<in> set pids" for x
  proof -
    have "filter (\<lambda>pid. pid \<noteq> x) pids = remove1 x pids"
      using assms(1) by (simp add: distinct_remove1_removeAll removeAll_filter_not_eq eq_commute)
    then show ?thesis
      using that by simp
  qed
  ultimately show ?thesis
    using assms(2) by (auto simp: round_ok_def beginRound_def tracked_def held split: option.splits)
qed

definition roundStart :: "string list \<Rightarrow> round \<Rightarrow> bool" where
  "roundStart pids s \<longleftrightarrow> distinct pids \<and>
     (\<exists>concurrency pre. (case pre of None \<Rightarrow> True | Some r \<Rightarrow> hrProxyID r \<in> set pids) \<and> s = beginRound concurrency pids pre)"

interpretation pool: measured_system "roundStart pids" roundStep "round_ok pids" weight for pids
proof
  show "roundStart pids s \<Longrightarrow> round_ok pids s" for s
    using beginRound_ok by (auto simp: roundStart_def)
  show "round_ok pids s \<Longrightarrow> roundStep s t \<Longrightarrow> round_ok pids t" for s t
    by (rule round_ok_step)
  show "round_ok pids s \<Longrightarrow> roundStep s t \<Longrightarrow> weight t < weight s" for s t
    by (rule weight_step)
qed

section \<open>Progress\<close>

lemma snapshot_exists: "\<exists>m. keyed m \<and> proxyCheckSnapshot pid m = None"
  by (rule exI [of _ "exampleManager\<lparr>proxies := []\<rparr>"]) (simp add: keyed_def proxyCheckSnapshot_def)

lemma worker_moves:
  assumes "workerAt s i w" and "w \<noteq> Exited" and "w = Ready \<longrightarrow> rdMain s \<noteq> Handing"
  shows "\<exists>t. roundStep s t"
proof (cases w)
  case Ready
  with assms show ?thesis using no_more by blast
next
  case (Received pid)
  with assms show ?thesis using refuse accept by blast
next
  case (Accepted pid)
  with assms show ?thesis using skip snapshot_exists [of pid] by blast
next
  case (Probing p)
  have scope: "FailureScopeOf (None :: goError option) \<noteq> FailureScopeShared" by code_simp
  with assms Probing show ?thesis using late [of s i p None] probed [of s i p None] by blast
next
  case (Reporting r)
  with assms show ?thesis using report by blast
qed (use assms in simp)

lemma round_moves:
  assumes ok: "round_ok pids s" and "\<not> finished s"
  shows "\<exists>t. roundStep s t"
proof (cases "rdMain s = Handing")
  case False
  then obtain w where "w \<in> set (rdWorkers s)" "w \<noteq> Exited"
    using assms(2) by (auto simp: finished_def)
  then obtain i where "workerAt s i w"
    by (auto simp: in_set_conv_nth workerAt_def)
  then show ?thesis
    using False \<open>w \<noteq> Exited\<close> by (intro worker_moves) auto
next
  case main: True
  show ?thesis
  proof (cases "rdQueue s = [] \<or> rdCanceled s")
    case True
    with main show ?thesis using give_up close by blast
  next
    case False
    then obtain pid rest where queue: "rdQueue s = pid # rest"
      by (cases "rdQueue s") auto
    have some: "0 < length (rdWorkers s)" and "Exited \<notin> set (rdWorkers s)"
      using ok main False by (simp_all add: round_ok_def)
    have alive: "workerAt s 0 (rdWorkers s ! 0)"
      using some by (simp add: workerAt_def)
    have "rdWorkers s ! 0 \<noteq> Exited"
      using nth_mem [OF some] \<open>Exited \<notin> set (rdWorkers s)\<close> by metis
    show ?thesis
    proof (cases "rdWorkers s ! 0 = Ready")
      case True
      with alive main queue show ?thesis using hand by metis
    next
      case False
      with alive \<open>rdWorkers s ! 0 \<noteq> Exited\<close> show ?thesis by (intro worker_moves) auto
    qed
  qed
qed

lemma distinct_submset: "mset xs \<subseteq># mset ys \<Longrightarrow> distinct ys \<Longrightarrow> distinct xs"
proof (rule ccontr)
  assume le: "mset xs \<subseteq># mset ys" and "distinct ys" and "\<not> distinct xs"
  then obtain a as bs cs where "xs = as @ [a] @ bs @ [a] @ cs"
    using not_distinct_decomp by blast
  then have "2 \<le> count (mset xs) a" by simp
  also have "\<dots> \<le> count (mset ys) a" using le by (rule mset_subset_eq_count)
  also have "\<dots> \<le> 1" using \<open>distinct ys\<close> by (simp add: distinct_count_atmost_1)
  finally show False by simp
qed

lemma finished_tracked:
  assumes "round_ok pids s" and "finished s"
  shows "tracked s = mset (rdQueue s) + mset (map hrProxyID (rdResults s))"
proof -
  have "\<forall>w\<in>set ws. w = Exited \<Longrightarrow> sum_list (map heldBy ws) = {#}" for ws
    by (induction ws) simp_all
  then show ?thesis
    using assms(2) by (simp add: tracked_def finished_def)
qed

section \<open>A round\<close>

text \<open>
  C40. A health round is complete. Whatever the interleaving of the workers, the state of the pool and
  the outcomes of the probes, a round can always be brought to its end, and it makes boundedly many
  steps, so it ends. Then every proxy of the round has at most one result; unless the round was
  canceled, or a proxy became unfit and was skipped, every proxy has exactly one; and a shared failure
  of the front leaves the manager as it is.
\<close>

theorem health_round_is_complete:
  assumes "roundStart pids s" and "(roundStep ^^ n) s t"
  shows "n \<le> weight s \<and> (\<exists>t'. roundStep\<^sup>*\<^sup>* t t' \<and> finished t') \<and> distinct (map hrProxyID (rdResults t))
    \<and> (finished t \<and> \<not> rdCanceled t \<and> \<not> rdSkipped t \<longrightarrow> mset (map hrProxyID (rdResults t)) = mset pids)
    \<and> (rdShared t \<longrightarrow> endRound env t m = m)"
proof (intro conjI impI)
  have ok: "round_ok pids t"
    using pool.inv_reachable [OF assms(1)] assms(2) by (simp add: relpowp_imp_rtranclp)
  have "round_ok pids s"
    using assms(1) by (rule pool.inv_start)
  from pool.weight_steps [OF assms(2) this] show "n \<le> weight s"
    by simp
  show "\<exists>t'. roundStep\<^sup>*\<^sup>* t t' \<and> finished t'"
    using ok round_moves by (rule pool.reaches_end)
  have "mset (map hrProxyID (rdResults t)) \<subseteq># mset pids"
  proof (rule subset_mset.order_trans)
    show "mset (map hrProxyID (rdResults t)) \<subseteq># tracked t"
      unfolding tracked_def by (rule mset_subset_eq_add_right)
    show "tracked t \<subseteq># mset pids"
      using ok by (simp add: round_ok_def)
  qed
  then show "distinct (map hrProxyID (rdResults t))"
    using assms(1) by (auto simp: roundStart_def intro: distinct_submset)
  show "mset (map hrProxyID (rdResults t)) = mset pids" if "finished t \<and> \<not> rdCanceled t \<and> \<not> rdSkipped t"
  proof -
    have "rdMain t = Closed"
      using ok that by (cases "rdMain t") (auto simp: round_ok_def finished_def)
    then show ?thesis
      using ok that finished_tracked [OF ok] by (auto simp: round_ok_def)
  qed
  show "endRound env t m = m" if "rdShared t"
    using that by (simp add: endRound_def)
qed

text \<open>One worker checks one proxy; the round then ends with its result.\<close>

definition exampleResult :: "Proxy \<Rightarrow> healthResult" where
  "exampleResult p = \<lparr>hrProxyID = pID p, hrAddress = pAddress p, hrErr = None, hrExitIP = []\<rparr>"

definition exampleRound :: round where
  "exampleRound = beginRound 1 [''p1''] None"

lemma health_round_is_complete_witness:
  "\<exists>t. (roundStep ^^ 7) exampleRound t \<and> finished t \<and> mset (map hrProxyID (rdResults t)) = mset [''p1'']"
proof -
  let ?p = "examplePoolProxy ''p1'' ''10.0.0.1:1080''"
  let ?s = "\<lambda>q mn w rs. \<lparr>rdQueue = q, rdMain = mn, rdWorkers = [w], rdResults = rs, rdSkipped = False, rdShared = False, rdCanceled = False\<rparr>"
  have begin_eq: "exampleRound = ?s [''p1''] Handing Ready []"
    by (simp add: exampleRound_def beginRound_def workerCount_def)
  have at: "workerAt (?s q mn w rs) 0 w" for q mn w rs
    by (simp add: workerAt_def)
  have key: "keyed exampleManager" and snap: "proxyCheckSnapshot ''p1'' exampleManager = Some ?p"
    by (auto simp: keyed_def exampleManager_def examplePoolProxy_def newPoolProxy_def proxyCheckSnapshot_def split: if_splits)
  have scope: "FailureScopeOf (None :: goError option) \<noteq> FailureScopeShared" by code_simp
  let ?t = "?s [] Closed Exited [exampleResult ?p]"
  have "roundStep (?s [''p1''] Handing Ready []) (?s [] Handing (Received ''p1'') [])"
    using hand [of "?s [''p1''] Handing Ready []" "''p1''" "[]" 0] at by simp
  moreover have "roundStep (?s [] Handing (Received ''p1'') []) (?s [] Handing (Accepted ''p1'') [])"
    using accept [OF at [of "[]" Handing "Received ''p1''" "[]"]] by simp
  moreover have "roundStep (?s [] Handing (Accepted ''p1'') []) (?s [] Handing (Probing ?p) [])"
    using snapshot [OF at [of "[]" Handing "Accepted ''p1''" "[]"] key snap] by simp
  moreover have "roundStep (?s [] Handing (Probing ?p) []) (?s [] Handing (Reporting (exampleResult ?p)) [])"
    using probed [OF at [of "[]" Handing "Probing ?p" "[]"] scope, of "[]"] by (simp add: exampleResult_def)
  moreover have "roundStep (?s [] Handing (Reporting (exampleResult ?p)) []) (?s [] Handing Ready [exampleResult ?p])"
    using report [OF at [of "[]" Handing "Reporting (exampleResult ?p)" "[]"]] by simp
  moreover have "roundStep (?s [] Handing Ready [exampleResult ?p]) (?s [] Closed Ready [exampleResult ?p])"
    using close [of "?s [] Handing Ready [exampleResult ?p]"] by simp
  moreover have "roundStep (?s [] Closed Ready [exampleResult ?p]) ?t"
    using no_more [OF _ at [of "[]" Closed Ready "[exampleResult ?p]"]] by simp
  ultimately have run: "(roundStep ^^ 7) exampleRound ?t"
    unfolding begin_eq by (simp add: numeral_eq_Suc OO_def) blast
  have start: "roundStart [''p1''] exampleRound"
    by (auto simp: roundStart_def exampleRound_def intro!: exI [of _ 1] exI [of _ None])
  have fin: "finished ?t"
    by (simp add: finished_def)
  have "mset (map hrProxyID (rdResults ?t)) = mset [''p1'']"
    using health_round_is_complete [OF start run] fin by simp
  with run fin show ?thesis by blast
qed

end
