(* ===== verification/Subscription.thy ===== *)
theory Subscription
  imports PoolImport Gateway
begin

text \<open>
  internal/manager/manager.go: the HTTP client of subscription downloads, whose connections resolve
  names with the configured DNS server, and the dial of a proxy with the same resolver. Dialing, the
  resolver of the standard library and the HTTP exchange are arguments.
\<close>

section \<open>Resolving and dialing\<close>

text \<open>
  The n-th dial, and a lookup at a DNS server. \<open>resolveA\<close> completes the server's address by the port 53
  in the function that the resolver dials with.
\<close>

record netEnv =
  neDial :: "nat \<Rightarrow> string \<Rightarrow> goError + conn"
  neLookup :: "string \<Rightarrow> string \<Rightarrow> goError + ip list"

definition resolveA :: "netEnv \<Rightarrow> string \<Rightarrow> string \<Rightarrow> goError + ip list" where
  "resolveA env host upstream =
     (case neLookup env (if isl (SplitHostPort upstream) then JoinHostPort upstream ''53'' else upstream) host of
        Inl err \<Rightarrow> Inl err
      | Inr addrs \<Rightarrow>
          (let ips = List.map_filter To4 addrs in
           if ips = [] then Inl (ErrString (''no A records for '' @ host)) else Inr ips))"

text \<open>
  The loop over the addresses: a connection, or the last error, which is nil when nothing was dialed;
  with the addresses dialed.
\<close>

fun dialAll :: "netEnv \<Rightarrow> nat \<Rightarrow> string \<Rightarrow> ip list \<Rightarrow> goError option \<Rightarrow> (goError option + conn) \<times> string list" where
  "dialAll env n port [] lastErr = (Inl lastErr, [])"
| "dialAll env n port (ip # ips) lastErr =
     (let address = JoinHostPort (ipString ip) port in
      case neDial env n address of
        Inr conn \<Rightarrow> (Inr conn, [address])
      | Inl err \<Rightarrow> apsnd (Cons address) (dialAll env (Suc n) port ips (Some err)))"

definition dialOnce :: "netEnv \<Rightarrow> string \<Rightarrow> (goError option + conn) \<times> string list" where
  "dialOnce env address = (map_sum Some id (neDial env 0 address), [address])"

text \<open>\<open>DialContext\<close> of the client's transport. Nil for both results is \<open>Inl None\<close>.\<close>

definition subscriptionDial :: "netEnv \<Rightarrow> string \<Rightarrow> string \<Rightarrow> (goError option + conn) \<times> string list" where
  "subscriptionDial env upstream address =
     (case SplitHostPort address of
        Inl err \<Rightarrow> dialOnce env address
      | Inr (host, port) \<Rightarrow>
          if ParseIP host \<noteq> None then dialOnce env address
          else case resolveA env host upstream of
            Inl err \<Rightarrow> (Inl (Some err), [])
          | Inr ips \<Rightarrow> dialAll env 0 port ips None)"

record httpClient =
  htTimeout :: duration
  htDial :: "string \<Rightarrow> (goError option + conn) \<times> string list"
  htTLSHandshakeTimeout :: duration
  htResponseHeaderTimeout :: duration
  htIdleConnTimeout :: duration

definition subscriptionHTTPClient :: "netEnv \<Rightarrow> string \<Rightarrow> httpClient" where
  "subscriptionHTTPClient env upstream =
     \<lparr>htTimeout = 30 * Second, htDial = subscriptionDial env upstream, htTLSHandshakeTimeout = 10 * Second,
      htResponseHeaderTimeout = 20 * Second, htIdleConnTimeout = 30 * Second\<rparr>"

definition DialProxy :: "netEnv \<Rightarrow> Proxy \<Rightarrow> string \<Rightarrow> (goError + conn) \<times> string list" where
  "DialProxy env p upstream =
     (case SplitHostPort (pAddress p) of
        Inl err \<Rightarrow> (Inl err, [])
      | Inr (host, port) \<Rightarrow>
          if ParseIP host \<noteq> None then (neDial env 0 (pAddress p), [pAddress p])
          else case resolveA env host upstream of
            Inl err \<Rightarrow> (Inl err, [])
          | Inr ips \<Rightarrow>
              apfst (\<lambda>r. case r of
                  Inr conn \<Rightarrow> Inr conn
                | Inl (Some lastErr) \<Rightarrow> Inl lastErr
                | Inl None \<Rightarrow> Inl (ErrString (''no usable A records for '' @ host)))
                (dialAll env 0 port ips None))"

section \<open>What is dialed\<close>

lemma dialAll_error: "ips \<noteq> [] \<or> lastErr \<noteq> None \<Longrightarrow> fst (dialAll env n port ips lastErr) \<noteq> Inl None"
  by (induction env n port ips lastErr rule: dialAll.induct) (simp_all add: Let_def split: sum.split)

lemma dialAll_dials:
  "\<exists>k. snd (dialAll env n port ips lastErr) = map (\<lambda>ip. JoinHostPort (ipString ip) port) (take k ips)
     \<and> (k = length ips \<or> (\<exists>conn. fst (dialAll env n port ips lastErr) = Inr conn))"
proof (induction env n port ips lastErr rule: dialAll.induct)
  case (2 env n port ip ips lastErr)
  show ?case
  proof (cases "neDial env n (JoinHostPort (ipString ip) port)")
    case (Inl err)
    from 2 [OF refl Inl] obtain k where "snd (dialAll env (Suc n) port ips (Some err)) = map (\<lambda>ip. JoinHostPort (ipString ip) port) (take k ips)"
      "k = length ips \<or> (\<exists>conn. fst (dialAll env (Suc n) port ips (Some err)) = Inr conn)" by blast
    with Inl show ?thesis by (auto intro!: exI [where x = "Suc k"])
  next
    case (Inr conn)
    then show ?thesis by (auto intro!: exI [where x = 1])
  qed
qed simp

lemma resolveA_Inr: "resolveA env host upstream = Inr ips \<Longrightarrow> ips \<noteq> [] \<and> (\<forall>ip\<in>set ips. length ip = 4)"
  by (auto simp: resolveA_def Let_def To4_def List.map_filter_def split: sum.splits if_splits)

text \<open>The transport never gets a nil connection without an error, on which \<open>net/http\<close> would panic.\<close>

lemma subscription_never_nil: "fst (subscriptionDial env upstream address) \<noteq> Inl None"
  using dialAll_error resolveA_Inr
  by (auto simp: subscriptionDial_def dialOnce_def map_sum_def split: sum.splits prod.splits)

text \<open>A download is dialed like a proxy at the same address, except that an address without a port is tried.\<close>

lemma subscription_dials_like_proxy:
  assumes "SplitHostPort (pAddress p) = Inr (host, port)"
  shows "subscriptionDial env upstream (pAddress p) = apfst (map_sum Some id) (DialProxy env p upstream)"
proof (cases "ParseIP host = None")
  case True
  show ?thesis
  proof (cases "resolveA env host upstream")
    case (Inr ips)
    then have "fst (dialAll env 0 port ips None) \<noteq> Inl None" using resolveA_Inr dialAll_error by blast
    with assms True Inr show ?thesis
      by (cases "dialAll env 0 port ips None") (auto simp: subscriptionDial_def DialProxy_def split: sum.split option.split)
  qed (use assms True in \<open>simp add: subscriptionDial_def DialProxy_def\<close>)
qed (use assms in \<open>simp add: subscriptionDial_def DialProxy_def dialOnce_def\<close>)

end
