(* ===== verification/Startup.thy ===== *)
theory Startup
  imports Api
begin

text \<open>
  The start of the program, cmd/sock5gw/main.go, with \<open>Start\<close> and the first statements of the background
  loops: the configuration is loaded, the database opened, the manager, the routing matcher, the
  gateway and the runtime configuration are built, each error ends the process. Then the updates of
  the configuration that follow a start: what runs, what the runtime configuration answers, and what
  is in the file stay in line. Flags, signals and listeners are not modelled.
\<close>

section \<open>The background loops\<close>

datatype backgroundLoop = QueueStopper | ExpiryLoop duration | HealthLoop duration

text \<open>\<open>time.NewTicker\<close> panics for a period that is not positive; in a goroutine that ends the process.\<close>

definition NewTicker :: "duration \<Rightarrow> goError + duration" where
  "NewTicker d = (if d \<le> 0 then Inl (ErrString ''non-positive interval for NewTicker'') else Inr d)"

definition expiryLoop :: "goError + backgroundLoop" where
  "expiryLoop = (case NewTicker (10 * Second) of Inl err \<Rightarrow> Inl err | Inr d \<Rightarrow> Inr (ExpiryLoop d))"

definition healthLoop :: "Manager \<Rightarrow> goError + backgroundLoop" where
  "healthLoop m =
     (case NewTicker (hcInterval (cfgHealthCheck (mCfg m))) of Inl err \<Rightarrow> Inl err | Inr d \<Rightarrow> Inr (HealthLoop d))"

text \<open>The goroutines that \<open>Start\<close> launches, for a context that can end.\<close>

definition Start :: "Manager \<Rightarrow> (goError + backgroundLoop) list" where
  "Start m = [Inr QueueStopper, expiryLoop] @ (if hcEnabled (cfgHealthCheck (mCfg m)) then [healthLoop m] else [])"

section \<open>The program\<close>

record program =
  pgSystem :: system
  pgAPI :: APIConfig
  pgDNS :: DNSConfig
  pgFake :: FakeIPStore
  pgLoops :: "(goError + backgroundLoop) list"

definition readConfig :: "fileSys \<Rightarrow> string \<Rightarrow> goError + string" where
  "readConfig fs path = (case get fs path of None \<Rightarrow> Inl errNotExist | Some e \<Rightarrow> Inr (feData e))"

text \<open>
  A run of \<open>main\<close> up to the point where everything serves: the program or the error that it exits with,
  and the database once it has been opened. \<open>unmarshal\<close> is \<open>json.Unmarshal\<close> into the configuration.
\<close>

definition main ::
    "startEnv \<Rightarrow> 'j updateEnv \<Rightarrow> (string \<Rightarrow> goError + Config) \<Rightarrow> (string \<Rightarrow> goError + DB) \<Rightarrow> string \<Rightarrow> fileSys
      \<Rightarrow> (goError + program) \<times> DB option" where
  "main env lib unmarshal openDB path fs =
     (case Load (readConfig fs) unmarshal (ueParseURL lib) path of
        Inl err \<Rightarrow> (Inl err, None)
      | Inr cfg \<Rightarrow>
      (case openDB (DBPath cfg) of
        Inl err \<Rightarrow> (Inl err, None)
      | Inr db \<Rightarrow>
      (case New env (ueParseURL lib) cfg db of
        (Inl err, db) \<Rightarrow> (Inl err, Some db)
      | (Inr (m, provider, fake), db) \<Rightarrow>
      (case newMatcher (ueRegex lib) (ueReadFile lib) (ueGeosite lib) (cfgRouting cfg) of
        Inl err \<Rightarrow> (Inl err, Some db)
      | Inr router \<Rightarrow>
          (Inr \<lparr>pgSystem = \<lparr>syRuntime = Some (wiredConfig (ueParseURL lib) path cfg),
                            syGateway = newGateway (cfgGateway cfg) (cfgDNS cfg) (Some router),
                            syProvider = provider, syManager = m, syFiles = fs\<rparr>,
                pgAPI = cfgAPI cfg, pgDNS = cfgDNS cfg, pgFake = fake, pgLoops = Start m\<rparr>, Some db)))))"

text \<open>
  What the end of the context leads to: the queue is stopped, and \<open>main\<close> closes the connections of all
  clients before it returns. The accept loops have their listeners and connections closed by themselves.
\<close>

definition shutdown :: "program \<Rightarrow> program" where
  "shutdown p = p\<lparr>pgSystem := (pgSystem p)
     \<lparr>syManager := CloseClientConnections [] (stopQueueProcessing (syManager (pgSystem p)))\<rparr>\<rparr>"

section \<open>What a start wires\<close>

text \<open>The steps of a restoration touch neither the configuration nor the connector.\<close>

definition sameWiring :: "Manager \<Rightarrow> Manager \<Rightarrow> bool" where
  "sameWiring m m' \<longleftrightarrow> mCfg m' = mCfg m \<and> connector m' = connector m"

lemma sameWiring_simps [simp]: "sameWiring m m" "sameWiring m (withDB f m')= sameWiring m m'"
  "sameWiring m (m'\<lparr>proxies := ps, proxyOrder := os\<rparr>) = sameWiring m m'" "sameWiring m (m'\<lparr>mDB := db\<rparr>) = sameWiring m m'"
  "sameWiring m (m'\<lparr>proxies := ps, leases := ls\<rparr>) = sameWiring m m'"
  by (simp_all add: sameWiring_def withDB_def)

lemma sameWiring_trans: "sameWiring a b \<Longrightarrow> sameWiring b c \<Longrightarrow> sameWiring a c"
  by (simp add: sameWiring_def)

lemma sameWiring_fold: "(\<And>x m. sameWiring m (f x m)) \<Longrightarrow> sameWiring m (fold f xs m)"
  by (induction xs arbitrary: m) (auto intro: sameWiring_trans)

lemma upsertConfigured_wiring: "upsertConfigured env n ps m = (e, m') \<Longrightarrow> sameWiring m m'"
  by (induction env n ps m rule: upsertConfigured.induct)
    (auto simp: sameWiring_def split: if_splits prod.splits option.splits)

lemma restoreProxies_wiring: "restoreProxies env ps dyn m = (e, dyn', m') \<Longrightarrow> sameWiring m m'"
  by (induction env ps dyn m rule: restoreProxies.induct)
    (auto simp: sameWiring_def withDB_def split: if_splits option.splits)

lemma restoreLease_wiring: "sameWiring m (restoreLease env l m)"
  by (simp add: restoreLease_def Let_def split: option.split)

lemma dropUnleased_wiring: "sameWiring m (dropUnleased env pid m)"
  by (simp add: dropUnleased_def removeProxy_def sameWiring_def withDB_def split: option.split)

lemma restoreState_wiring:
  assumes "restoreState env m = (e, m')"
  shows "sameWiring m m'"
proof -
  have orphans: "sameWiring m a \<Longrightarrow> sameWiring m (dropOrphans env dyn a)" for a dyn
    unfolding dropOrphans_def by (rule sameWiring_trans [OF _ sameWiring_fold]) simp_all
  have "sameWiring m a \<Longrightarrow> sameWiring m (fold (restoreLease env) ls a)"
    "sameWiring m a \<Longrightarrow> sameWiring m (fold (dropUnleased env) ids a)" for a ls ids
    by (rule sameWiring_trans [OF _ sameWiring_fold]; simp add: restoreLease_wiring dropUnleased_wiring)+
  with orphans restoreProxies_wiring [of env _ _ m] assms show ?thesis
    unfolding restoreState_def Let_def by (auto split: option.splits prod.splits)
qed

lemma New_wiring:
  assumes "New env parseURL cfg db = (Inr (m, ps, fake), db')"
  shows "mCfg m = cfg \<and> newConnector (cfgFrontProxy cfg) (dnsUpstream (cfgDNS cfg)) = Inr (connector m)
    \<and> NewFakeIPStore (dnsFakeIPCIDR (cfgDNS cfg)) = Inr fake
    \<and> (\<exists>k. newClient parseURL (cfgProxyAPI cfg) (cfgFrontProxy cfg) = Inr k \<and> ps = \<lparr>papiConfig = cfgProxyAPI cfg, papiClient = Some k\<rparr>)"
proof -
  obtain c m1 k where c: "newConnector (cfgFrontProxy cfg) (dnsUpstream (cfgDNS cfg)) = Inr c"
    and steps: "upsertConfigured env 0 (cfgProxies cfg) (blankManager cfg db c) = (None, m1)" "restoreState env m1 = (None, m)"
    and rest: "newClient parseURL (cfgProxyAPI cfg) (cfgFrontProxy cfg) = Inr k" "NewFakeIPStore (dnsFakeIPCIDR (cfgDNS cfg)) = Inr fake"
      "ps = \<lparr>papiConfig = cfgProxyAPI cfg, papiClient = Some k\<rparr>"
    using assms by (auto simp: New_def split: sum.splits option.splits prod.splits)
  have "sameWiring (blankManager cfg db c) m"
    using upsertConfigured_wiring [OF steps(1)] restoreState_wiring [OF steps(2)] by (rule sameWiring_trans)
  then show ?thesis using c rest by (simp add: sameWiring_def blankManager_def)
qed

section \<open>Updates after a start\<close>

fun withSection :: "sectionValue \<Rightarrow> Config \<Rightarrow> Config" where
  "withSection (RoutingSection r) cfg = cfg\<lparr>cfgRouting := r\<rparr>"
| "withSection (FrontProxySection f) cfg = cfg\<lparr>cfgFrontProxy := f\<rparr>"
| "withSection (ProxyAPISection p) cfg = cfg\<lparr>cfgProxyAPI := p\<rparr>"

text \<open>
  What the JSON library promises of a section that it can print: a document that is read as a
  configuration is read with that section replaced once the section has been replaced in the document.
\<close>

definition reads_back :: "(string \<Rightarrow> goError + Config) \<Rightarrow> 'j codec \<Rightarrow> sectionValue \<Rightarrow> bool" where
  "reads_back unmarshal codec v \<longleftrightarrow>
     (\<forall>data data' doc doc' j raw. unmarshal data = Inr raw \<and> cdDecode codec data = Inr (Some doc)
        \<and> cdSection codec v = Inr j \<and> cdDecode codec data' = Inr (Some doc') \<and> get doc' = (get doc)(sectionName v \<mapsto> j)
        \<longrightarrow> unmarshal data' = Inr (withSection v raw))"

text \<open>The configuration that the program stands for: that of its start with the sections replaced since.\<close>

definition currentConfig :: "Config \<Rightarrow> RuntimeConfig \<Rightarrow> Config" where
  "currentConfig cfg c = cfg\<lparr>cfgRouting := rcRouting c, cfgFrontProxy := rcFrontProxy c, cfgProxyAPI := rcProxyAPI c\<rparr>"

text \<open>
  The file is read as the current configuration, the gateway decides by its rules, and the connector and
  the provider's client were built from its sections.
\<close>

definition in_line :: "'j updateEnv \<Rightarrow> (string \<Rightarrow> goError + Config) \<Rightarrow> Config \<Rightarrow> RuntimeConfig \<Rightarrow> system \<Rightarrow> bool" where
  "in_line lib unmarshal cfg c s \<longleftrightarrow>
     (\<exists>e raw. get (syFiles s) (rcPath c) = Some e \<and> unmarshal (feData e) = Inr raw
        \<and> setDefaults raw = setDefaults (currentConfig cfg c))
     \<and> (\<exists>router. gwRouter (syGateway s) = Some router
          \<and> newMatcher (ueRegex lib) (ueReadFile lib) (ueGeosite lib) (rcRouting c) = Inr router)
     \<and> front (connector (syManager s)) = normalizeFront (rcFrontProxy c)
     \<and> newHTTPClient (cfgFrontProxy (mCfg (syManager s))) = newHTTPClient (rcFrontProxy c)
     \<and> normalizedConfig (papiConfig (syProvider s)) = normalizedConfig (rcProxyAPI c)
     \<and> (\<exists>k. papiClient (syProvider s) = Some k \<and> clCfg k = normalizedConfig (rcProxyAPI c)
          \<and> newHTTPClient (rcFrontProxy c) = Inr (clFront k))"

definition runUpdates :: "'j updateEnv \<Rightarrow> (time \<times> writeEnv \<times> sectionValue) list \<Rightarrow> system \<Rightarrow> system" where
  "runUpdates lib us s = fold (\<lambda>(t, w, v) s. snd (update (lib\<lparr>ueNow := t, ueWrite := w\<rparr>) v s)) us s"

lemma newClient_Inr:
  "newClient parseURL p f = Inr k \<Longrightarrow> clCfg k = normalizedConfig p \<and> newHTTPClient f = Inr (clFront k)"
  by (auto simp: newClient_def Let_def split: option.splits sum.splits)

lemma newConnector_front: "newConnector f upstream = Inr c \<Longrightarrow> front c = normalizeFront f"
  by (auto simp: newConnector_def Let_def split: option.splits sum.splits)

lemma normalizeFront_normalizeNext [simp]: "normalizeFront (normalizeNext f) = normalizeFront f"
  and newHTTPClient_normalizeNext [simp]: "newHTTPClient (normalizeNext f) = newHTTPClient f"
proof -
  have "TrimSpace ''socks5'' = ''socks5''" "ToLower ''socks5'' = ''socks5''" by code_simp+
  then show "normalizeFront (normalizeNext f) = normalizeFront f" "newHTTPClient (normalizeNext f) = newHTTPClient f"
    by (auto simp: normalizeFront_def normalizeNext_def newHTTPClient_def TrimSpace_ToLower Let_def split: sum.split)
qed

lemma UpdateFrontProxy_client:
  assumes "UpdateFrontProxy now parseURL f persist (ps, m, fs) = (None, ps', m', fs')"
  obtains k where "newClient parseURL (papiConfig ps) (normalizeNext f) = Inr k" "ps' = ps\<lparr>papiClient := Some k\<rparr>"
  using assms by (auto simp: UpdateFrontProxy_def Let_def split: sum.splits prod.splits option.splits if_splits)

text \<open>The defaults of one section do not depend on the others.\<close>

fun defaulted :: "sectionValue \<Rightarrow> sectionValue" where
  "defaulted (RoutingSection r) = RoutingSection (r\<lparr>rtDefaultAction := orElse [] ''proxy'' (rtDefaultAction r)\<rparr>)"
| "defaulted (FrontProxySection f) =
     FrontProxySection (f\<lparr>fpProtocol := (if fpEnabled f \<and> fpProtocol f = [] then ''socks5'' else fpProtocol f)\<rparr>)"
| "defaulted (ProxyAPISection p) =
     ProxyAPISection (p\<lparr>paCountryParam := orElse [] ''region'' (paCountryParam p),
                        paDurationParam := orElse [] ''time'' (paDurationParam p)\<rparr>)"

lemma setDefaults_withSection: "setDefaults (withSection v cfg) = withSection (defaulted v) (setDefaults cfg)"
  by (cases v) (simp_all add: setDefaults_def)

text \<open>The runtime configuration after an update.\<close>

fun updated :: "sectionValue \<Rightarrow> RuntimeConfig \<Rightarrow> RuntimeConfig" where
  "updated (RoutingSection r) c = c\<lparr>rcRouting := r\<rparr>"
| "updated (FrontProxySection f) c = c\<lparr>rcFrontProxy := f\<rparr>"
| "updated (ProxyAPISection p) c = c\<lparr>rcProxyAPI := normalizedConfig p\<rparr>"

lemma currentConfig_updated: "currentConfig cfg (updated v c) = withSection (stored v) (currentConfig cfg c)"
  by (cases v) (simp_all add: currentConfig_def)

lemma updated_path [simp]: "rcPath (updated v c) = rcPath c"
  by (cases v) simp_all

lemma update_success:
  assumes w: "wired lib s" and u: "update lib v s = (None, s')" and c: "syRuntime s = Some c"
    and line: "in_line lib unmarshal cfg c s"
  shows "syRuntime s' = Some (updated v c)
    \<and> (\<exists>router. gwRouter (syGateway s') = Some router
         \<and> newMatcher (ueRegex lib) (ueReadFile lib) (ueGeosite lib) (rcRouting (updated v c)) = Inr router)
    \<and> front (connector (syManager s')) = normalizeFront (rcFrontProxy (updated v c))
    \<and> newHTTPClient (cfgFrontProxy (mCfg (syManager s'))) = newHTTPClient (rcFrontProxy (updated v c))
    \<and> normalizedConfig (papiConfig (syProvider s')) = normalizedConfig (rcProxyAPI (updated v c))
    \<and> (\<exists>k. papiClient (syProvider s') = Some k \<and> clCfg k = normalizedConfig (rcProxyAPI (updated v c))
         \<and> newHTTPClient (rcFrontProxy (updated v c)) = Inr (clFront k))"
proof -
  have applies: "rcApplyRouting c = Some SetRouter" "rcApplyFrontProxy c = Some (\<lambda>t. UpdateFrontProxy t (ueParseURL lib))"
    "rcApplyProxyAPI c = Some (UpdateProxyAPI (ueParseURL lib))"
    using w c by (auto simp: wired_def)
  show ?thesis
  proof (cases v)
    case (RoutingSection r)
    then show ?thesis
      using u c line applies by (auto simp: in_line_def UpdateRouting_def SetRouter_def split: sum.splits prod.splits option.splits)
  next
    case (FrontProxySection f)
    obtain e ps m fs where r: "UpdateFrontProxy (ueNow lib) (ueParseURL lib) f
        (persistSection (ueWrite lib) (ueCodec lib) (rcPath c) (FrontProxySection f)) (syProvider s, syManager s, syFiles s) = (e, ps, m, fs)"
      by (metis surj_pair)
    with u c applies FrontProxySection have e: "e = None"
      by (auto simp: UpdateFrontProxySection_def runApply_def Let_def)
    obtain k where k: "newClient (ueParseURL lib) (papiConfig (syProvider s)) (normalizeNext f) = Inr k"
      "ps = (syProvider s)\<lparr>papiClient := Some k\<rparr>"
      using UpdateFrontProxy_client r e by metis
    show ?thesis
      using r [unfolded e] u c applies line FrontProxySection k(2) newClient_Inr [OF k(1)]
      by (cases rule: UpdateFrontProxy_cases)
        (auto simp: r e in_line_def UpdateFrontProxySection_def runApply_def Let_def dest!: newConnector_front)
  next
    case (ProxyAPISection p)
    obtain e ps m fs where r: "UpdateProxyAPI (ueParseURL lib) (normalizedConfig p)
        (persistSection (ueWrite lib) (ueCodec lib) (rcPath c) (ProxyAPISection (normalizedConfig p))) (syProvider s, syManager s, syFiles s) = (e, ps, m, fs)"
      by (metis surj_pair)
    from r u c applies line ProxyAPISection show ?thesis
      by (cases rule: UpdateProxyAPI_cases)
        (auto simp: r in_line_def UpdateProxyAPISection_def runApply_def Let_def split: option.splits dest!: newClient_Inr)
  qed
qed

text \<open>
  A section that the validation of a start accepts. The sections of the provider need no condition, since
  an update validates them itself.
\<close>

fun acceptable :: "sectionValue \<Rightarrow> bool" where
  "acceptable (RoutingSection r) \<longleftrightarrow> action_ok (rtDefaultAction r) \<and> (\<forall>rule \<in> set (rtRules r). action_ok (ruleAction rule))"
| "acceptable (FrontProxySection f) \<longleftrightarrow>
     front_ok (f\<lparr>fpProtocol := (if fpEnabled f \<and> fpProtocol f = [] then ''socks5'' else fpProtocol f)\<rparr>)"
| "acceptable (ProxyAPISection p) \<longleftrightarrow> True"

lemma update_keeps_valid:
  assumes "wired lib s" and "update lib v s = (None, s')" and "acceptable v"
    and "config_ok (ueParseURL lib) (setDefaults cfg)"
  shows "config_ok (ueParseURL lib) (setDefaults (withSection (stored v) cfg))"
proof (cases v)
  case (RoutingSection r)
  then show ?thesis using assms(3,4) unfolding setDefaults_withSection by (auto simp: config_ok_def action_ok_def)
next
  case (FrontProxySection f)
  then show ?thesis using assms(3,4) unfolding setDefaults_withSection by (simp add: config_ok_def)
next
  case (ProxyAPISection p)
  have "provider_ok (ueParseURL lib) (normalizedConfig p)"
    using assms(1,2) ProxyAPISection
    by (auto simp: wired_def UpdateProxyAPISection_def Let_def ValidateProxyAPI_iff split: option.splits)
  moreover have "defaulted (ProxyAPISection (normalizedConfig p)) = ProxyAPISection (normalizedConfig p)"
    by (simp add: normalizedConfig_def)
  ultimately show ?thesis using assms(4) ProxyAPISection unfolding setDefaults_withSection by (simp add: config_ok_def)
qed

lemma update_in_line:
  assumes "wired lib s" and "codec_ok (ueCodec lib)" and "reads_back unmarshal (ueCodec lib) (stored v)"
    and "syRuntime s = Some c" and "in_line lib unmarshal cfg c s"
  shows "\<exists>c'. rcPath c' = rcPath c \<and> syRuntime (snd (update lib v s)) = Some c'
    \<and> in_line lib unmarshal cfg c' (snd (update lib v s)) \<and> wired lib (snd (update lib v s))
    \<and> (acceptable v \<and> config_ok (ueParseURL lib) (setDefaults (currentConfig cfg c))
         \<longrightarrow> config_ok (ueParseURL lib) (setDefaults (currentConfig cfg c')))"
proof (cases rule: updates.run_cases [OF assms(1), of v, case_names failed succeeded])
  case (failed err s')
  have path: "rcPath c \<noteq> weTmp (ueWrite lib)"
    using assms(1,4) by (auto simp: wired_def)
  with failed(2) have "s'\<lparr>syFiles := syFiles s\<rparr> = s" "get (syFiles s') (rcPath c) = get (syFiles s) (rcPath c)"
    by (auto simp: visible_iff dest: sameBut_get)
  then have "syRuntime s' = Some c" "in_line lib unmarshal cfg c s'"
    using assms(4,5) unfolding in_line_def by (cases s; cases s'; simp)+
  with failed show ?thesis by auto
next
  case (succeeded s')
  have new: "rewritten lib (stored v) (rcPath c) (syFiles s) (syFiles s')"
    using succeeded(2) assms(2,4) by (simp add: configPath_def)
  then obtain e raw where old: "get (syFiles s) (rcPath c) = Some e" "unmarshal (feData e) = Inr raw"
      "setDefaults raw = setDefaults (currentConfig cfg c)"
    using assms(5) by (auto simp: in_line_def)
  then obtain e' where "get (syFiles s') (rcPath c) = Some e'" "unmarshal (feData e') = Inr (withSection (stored v) raw)"
    using new assms(3) by (auto simp: rewritten_def reads_back_def)
  then have "in_line lib unmarshal cfg (updated v c) s'"
    using update_success [OF assms(1) succeeded(1) assms(4,5)] old(3)
    by (simp add: in_line_def currentConfig_updated setDefaults_withSection)
  then show ?thesis
    using update_success [OF assms(1) succeeded(1) assms(4,5)] succeeded update_keeps_valid [OF assms(1) succeeded(1)]
    by (auto simp: currentConfig_updated)
qed

lemma in_line_write [simp]: "in_line (lib\<lparr>ueNow := t, ueWrite := w\<rparr>) unmarshal cfg c s = in_line lib unmarshal cfg c s"
  by (simp add: in_line_def)

lemma runUpdates_in_line:
  assumes "wired lib s" and "codec_ok (ueCodec lib)" and "syRuntime s = Some c" and "in_line lib unmarshal cfg c s"
    and "\<forall>(_, w, v) \<in> set us. weTmp w \<noteq> rcPath c \<and> reads_back unmarshal (ueCodec lib) (stored v)"
  shows "\<exists>c'. rcPath c' = rcPath c \<and> syRuntime (runUpdates lib us s) = Some c' \<and> in_line lib unmarshal cfg c' (runUpdates lib us s)
    \<and> ((\<forall>(_, _, v) \<in> set us. acceptable v) \<and> config_ok (ueParseURL lib) (setDefaults (currentConfig cfg c))
         \<longrightarrow> config_ok (ueParseURL lib) (setDefaults (currentConfig cfg c')))"
  using assms
proof (induction us arbitrary: s c)
  case (Cons u us)
  obtain t w v where u: "u = (t, w, v)" by (cases u) auto
  let ?lib = "lib\<lparr>ueNow := t, ueWrite := w\<rparr>"
  let ?s = "snd (update ?lib v s)"
  have "wired ?lib s" using Cons.prems(1,3,5) u by (auto simp: wired_def)
  from update_in_line [OF this, of unmarshal v c cfg] Cons.prems u
  obtain c1 where c1: "rcPath c1 = rcPath c" "syRuntime ?s = Some c1" "in_line lib unmarshal cfg c1 ?s" "wired ?lib ?s"
    and valid: "acceptable v \<and> config_ok (ueParseURL lib) (setDefaults (currentConfig cfg c))
         \<longrightarrow> config_ok (ueParseURL lib) (setDefaults (currentConfig cfg c1))"
    by auto
  then have "wired lib ?s"
    using Cons.prems(1,3) by (auto simp: wired_def)
  from Cons.IH [OF this Cons.prems(2) c1(2,3)] Cons.prems(5) c1(1) valid show ?case
    by (auto simp: runUpdates_def u)
qed (auto simp: runUpdates_def)

section \<open>What can stop a start\<close>

definition clashesWithFront :: "Config \<Rightarrow> string \<Rightarrow> bool" where
  "clashesWithFront cfg address \<longleftrightarrow>
     fpEnabled (cfgFrontProxy cfg) \<and> sameEndpoint address (TrimSpace (fpAddress (cfgFrontProxy cfg)))"

lemma validateAddress_iff: "validateAddress address = None \<longleftrightarrow>
    (\<exists>host port n. SplitHostPort address = Inr (host, port) \<and> host \<noteq> []
       \<and> set host \<inter> {CHR 0x00, CHR '' '', CHR 0x09, CHR 0x0D, CHR 0x0A} = {} \<and> Atoi port = Some n \<and> 1 \<le> n \<and> n \<le> 65535)"
  by (auto simp: validateAddress_def splitAddress_def ContainsAny_iff split: sum.splits option.splits if_splits)

lemma trimmed_socks5: "ToLower (TrimSpace ''socks5'') = ''socks5''"
  by code_simp

lemma loaded_connector:
  assumes "config_ok parseURL cfg"
  shows "(\<exists>c. newConnector (cfgFrontProxy cfg) (dnsUpstream (cfgDNS cfg)) = Inr c) \<longleftrightarrow>
      (fpEnabled (cfgFrontProxy cfg) \<longrightarrow> validateAddress (TrimSpace (fpAddress (cfgFrontProxy cfg))) = None)
      \<and> (TrimSpace (dnsUpstream (cfgDNS cfg)) = [] \<or> (\<exists>u. normalizeDNSUpstream (TrimSpace (dnsUpstream (cfgDNS cfg))) = Inr u))"
proof -
  have "front_ok (cfgFrontProxy cfg)" using assms by (simp add: config_ok_def)
  then have "checkFront (normalizeFront (cfgFrontProxy cfg)) = None \<longleftrightarrow>
      (fpEnabled (cfgFrontProxy cfg) \<longrightarrow> validateAddress (TrimSpace (fpAddress (cfgFrontProxy cfg))) = None)"
    using trimmed_socks5
    by (auto simp: checkFront_def normalizeFront_def front_ok_def validateCredentials_def Let_def split: option.split)
  then show ?thesis
    by (auto simp: newConnector_def Let_def split: option.splits sum.splits)
qed

lemma loaded_client:
  assumes "config_ok parseURL cfg"
    and "fpEnabled (cfgFrontProxy cfg) \<longrightarrow> validateAddress (TrimSpace (fpAddress (cfgFrontProxy cfg))) = None"
  shows "\<exists>k. newClient parseURL (cfgProxyAPI cfg) (cfgFrontProxy cfg) = Inr k"
proof -
  have "provider_ok parseURL (cfgProxyAPI cfg)" "front_ok (cfgFrontProxy cfg)" using assms(1) by (simp_all add: config_ok_def)
  then have "provider_ok parseURL (normalizedConfig (cfgProxyAPI cfg))"
    by (auto simp: provider_ok_def normalizedConfig_def split: if_splits)
  moreover have "\<exists>f. newHTTPClient (cfgFrontProxy cfg) = Inr f"
    using \<open>front_ok (cfgFrontProxy cfg)\<close> assms(2) trimmed_socks5
    by (auto simp: newHTTPClient_def front_ok_def validateAddress_iff Let_def split: sum.split)
  ultimately show ?thesis
    by (auto simp: newClient_def Let_def simp flip: ValidateProxyAPI_iff)
qed

lemma newConnector_keeps:
  "newConnector f upstream = Inr c \<Longrightarrow> fpEnabled (front c) = fpEnabled f \<and> \<not> halfOpenInFlight c
     \<and> (fpEnabled f \<longrightarrow> fsAddress (status c) = TrimSpace (fpAddress f))"
  by (auto simp: newConnector_def normalizeFront_def Let_def split: option.splits sum.splits if_splits)

lemma newConnector_conflict:
  "newConnector (cfgFrontProxy cfg) upstream = Inr (connector m) \<Longrightarrow> frontAddressConflict m address \<longleftrightarrow> clashesWithFront cfg address"
  using newConnector_keeps [of "cfgFrontProxy cfg" upstream "connector m"]
  by (auto simp: frontAddressConflict_def clashesWithFront_def FrontEnabled_def FrontStatusOf_def)

lemma frontAddressConflict_cong: "connector m' = connector m \<Longrightarrow> frontAddressConflict m' a = frontAddressConflict m a"
  by (simp add: frontAddressConflict_def)

lemma upsertConfigured_succeeds:
  "fst (upsertConfigured env n ps m) = None \<longleftrightarrow>
     (\<forall>p \<in> set ps. \<not> frontAddressConflict m (pcAddress p)) \<and> (\<forall>i < length ps. \<not> seUpsert env (n + i) 0)"
proof (induction env n ps m rule: upsertConfigured.induct)
  case (2 env n p ps m)
  obtain e db where up: "UpsertProxy (seUpsert env n) (seNow env) (configuredRow p) (mDB m) = (e, db)" by fastforce
  have e: "e = None \<longleftrightarrow> \<not> seUpsert env n 0" using up by (auto simp: UpsertProxy_result)
  have all: "(\<forall>i < length (p # ps). \<not> seUpsert env (n + i) 0) \<longleftrightarrow>
      \<not> seUpsert env n 0 \<and> (\<forall>i < length ps. \<not> seUpsert env (Suc n + i) 0)"
    by (simp add: All_less_Suc2)
  show ?case
    unfolding all using 2 [OF _ up [symmetric]] up e frontAddressConflict_cong [of "m\<lparr>mDB := db\<rparr>" m]
    by (cases e) auto
qed simp

lemma restoreProxies_succeeds:
  "fst (restoreProxies env ps dyn m) = None \<longleftrightarrow> (\<forall>p \<in> set ps. \<not> frontAddressConflict m (spAddress p))"
proof (induction env ps dyn m rule: restoreProxies.induct)
  case (2 env p ps dyn m)
  have same: "frontAddressConflict (withDB g m) a = frontAddressConflict m a"
    "frontAddressConflict (m\<lparr>proxies := x, proxyOrder := y\<rparr>) a = frontAddressConflict m a" for g a x y
    by (rule frontAddressConflict_cong; simp)+
  show ?case using 2 by (auto simp: same split: option.split)
qed simp

lemma upsertConfigured_addresses:
  assumes "upsertConfigured env n ps m = (None, m')"
  shows "k \<in> pcID ` set ps \<Longrightarrow> get (dbProxies (mDB m')) k = Some row \<Longrightarrow> spAddress row \<in> pcAddress ` set ps"
    and "k \<notin> pcID ` set ps \<Longrightarrow> get (dbProxies (mDB m')) k = get (dbProxies (mDB m)) k"
proof -
  have "(if k \<in> pcID ` set ps then (\<forall>row. get (dbProxies (mDB m')) k = Some row \<longrightarrow> spAddress row \<in> pcAddress ` set ps)
      else get (dbProxies (mDB m')) k = get (dbProxies (mDB m)) k)"
    using assms
  proof (induction env n ps m rule: upsertConfigured.induct)
    case (2 env n p ps m)
    obtain e1 db1 where up: "UpsertProxy (seUpsert env n) (seNow env) (configuredRow p) (mDB m) = (e1, db1)" by fastforce
    with 2(2) have none: "\<not> frontAddressConflict m (pcAddress p)" "e1 = None"
      "upsertConfigured env (Suc n) ps (m\<lparr>mDB := db1\<rparr>) = (None, m')"
      by (auto split: if_splits option.splits)
    with up have db1: "db1 = insertProxy (seNow env) (configuredRow p) (mDB m)"
      by (auto simp: UpsertProxy_result split: if_splits)
    then have "get (dbProxies db1) k = get (dbProxies (mDB m)) k" if "k \<noteq> pcID p"
      using that by (simp add: insertProxy_def configuredRow_def split: option.split)
    moreover have "get (dbProxies db1) k = Some row \<Longrightarrow> spAddress row = pcAddress p" if "k = pcID p" for row
      using that db1 by (auto simp: insertProxy_def configuredRow_def split: option.splits)
    ultimately show ?case
      using 2(1) [OF none(1) up [symmetric] none(2,3)] by (cases "k = pcID p"; cases "k \<in> pcID ` set ps") auto
  qed simp
  then show "k \<in> pcID ` set ps \<Longrightarrow> get (dbProxies (mDB m')) k = Some row \<Longrightarrow> spAddress row \<in> pcAddress ` set ps"
    and "k \<notin> pcID ` set ps \<Longrightarrow> get (dbProxies (mDB m')) k = get (dbProxies (mDB m)) k"
    by (simp_all split: if_splits)
qed

lemma restoreState_succeeds:
  assumes "db_ok (mDB m)"
  shows "fst (restoreState env m) = None \<longleftrightarrow> (\<forall>i < 3. seQuery env i = None)
    \<and> (\<forall>k row. get (dbProxies (mDB m)) k = Some row \<longrightarrow> \<not> frontAddressConflict m (spAddress row))"
proof -
  have three: "(\<forall>i < 3. P i) \<longleftrightarrow> P 0 \<and> P 1 \<and> P 2" for P :: "nat \<Rightarrow> bool"
    by (simp add: numeral_3_eq_3 All_less_Suc numeral_2_eq_2 conj_ac)
  obtain e dyn m2 where run: "restoreProxies env (ListProxies (mDB m)) (dynamicByID (ListDynamicProxies (mDB m))) m = (e, dyn, m2)"
    using prod_cases3 by blast
  have "p \<in> set (ListProxies (mDB m)) \<longleftrightarrow> (\<exists>k. get (dbProxies (mDB m)) k = Some p)" for p
    using ListProxies_rows(2) [OF assms] assms by (auto simp: db_ok_def)
  then have "e = None \<longleftrightarrow> (\<forall>k row. get (dbProxies (mDB m)) k = Some row \<longrightarrow> \<not> frontAddressConflict m (spAddress row))"
    using restoreProxies_succeeds [of env "ListProxies (mDB m)" "dynamicByID (ListDynamicProxies (mDB m))" m] run by auto
  then show ?thesis
    unfolding three by (auto simp: restoreState_def Let_def run split: option.splits)
qed

lemma New_succeeds:
  assumes "config_ok parseURL cfg" and "db_ok db"
  shows "(\<exists>r. fst (New env parseURL cfg db) = Inr r) \<longleftrightarrow>
      (\<exists>c. newConnector (cfgFrontProxy cfg) (dnsUpstream (cfgDNS cfg)) = Inr c)
    \<and> (\<exists>fake. NewFakeIPStore (dnsFakeIPCIDR (cfgDNS cfg)) = Inr fake)
    \<and> (\<forall>p \<in> set (cfgProxies cfg). \<not> clashesWithFront cfg (pcAddress p))
    \<and> (\<forall>k row. get (dbProxies db) k = Some row \<and> k \<notin> pcID ` set (cfgProxies cfg) \<longrightarrow> \<not> clashesWithFront cfg (spAddress row))
    \<and> (\<forall>i < length (cfgProxies cfg). \<not> seUpsert env i 0) \<and> (\<forall>i < 3. seQuery env i = None)"
proof (cases "\<exists>c fake. newConnector (cfgFrontProxy cfg) (dnsUpstream (cfgDNS cfg)) = Inr c \<and> NewFakeIPStore (dnsFakeIPCIDR (cfgDNS cfg)) = Inr fake")
  case False
  then show ?thesis by (auto simp: New_def split: sum.splits)
next
  case True
  then obtain c fake where c: "newConnector (cfgFrontProxy cfg) (dnsUpstream (cfgDNS cfg)) = Inr c"
    and fake: "NewFakeIPStore (dnsFakeIPCIDR (cfgDNS cfg)) = Inr fake" by blast
  obtain client where client: "newClient parseURL (cfgProxyAPI cfg) (cfgFrontProxy cfg) = Inr client"
    using loaded_client [OF assms(1)] loaded_connector [OF assms(1)] c by blast
  let ?m = "blankManager cfg db c"
  have clash: "frontAddressConflict m a \<longleftrightarrow> clashesWithFront cfg a" if "connector m = c" for m a
    using newConnector_conflict [of cfg _ m] c that by simp
  obtain e m1 where ups: "upsertConfigured env 0 (cfgProxies cfg) ?m = (e, m1)" by fastforce
  have conn: "connector ?m = c" "mDB ?m = db" by (simp_all add: blankManager_def)
  have e: "e = None \<longleftrightarrow> (\<forall>p \<in> set (cfgProxies cfg). \<not> clashesWithFront cfg (pcAddress p))
      \<and> (\<forall>i < length (cfgProxies cfg). \<not> seUpsert env i 0)"
    using upsertConfigured_succeeds [of env 0 "cfgProxies cfg" ?m] ups clash conn by simp
  obtain e2 m2 where res: "restoreState env m1 = (e2, m2)" by fastforce
  have "(\<exists>r. fst (New env parseURL cfg db) = Inr r) \<longleftrightarrow> e = None \<and> fst (restoreState env m1) = None"
    by (cases e; cases e2) (simp_all add: New_def c client fake ups res)
  also have "\<dots> \<longleftrightarrow> e = None \<and> (\<forall>i < 3. seQuery env i = None)
      \<and> (\<forall>k row. get (dbProxies db) k = Some row \<and> k \<notin> pcID ` set (cfgProxies cfg) \<longrightarrow> \<not> clashesWithFront cfg (spAddress row))"
  proof (cases e)
    case None
    have kept: "db_ok (mDB m1)" "connector m1 = c"
      using upsertConfigured_keeps [OF ups] upsertConfigured_wiring [OF ups] assms(2) conn by (simp_all add: sameWiring_def)
    note rows = upsertConfigured_addresses [OF ups [unfolded None], unfolded conn]
    have "(\<forall>k row. get (dbProxies (mDB m1)) k = Some row \<longrightarrow> \<not> clashesWithFront cfg (spAddress row)) \<longleftrightarrow>
        (\<forall>k row. get (dbProxies db) k = Some row \<and> k \<notin> pcID ` set (cfgProxies cfg) \<longrightarrow> \<not> clashesWithFront cfg (spAddress row))"
    proof (intro iffI allI impI)
      fix k row
      assume "\<forall>k row. get (dbProxies (mDB m1)) k = Some row \<longrightarrow> \<not> clashesWithFront cfg (spAddress row)"
        and "get (dbProxies db) k = Some row \<and> k \<notin> pcID ` set (cfgProxies cfg)"
      then show "\<not> clashesWithFront cfg (spAddress row)" using rows(2) [of k] by simp
    next
      fix k row
      assume old: "\<forall>k row. get (dbProxies db) k = Some row \<and> k \<notin> pcID ` set (cfgProxies cfg) \<longrightarrow> \<not> clashesWithFront cfg (spAddress row)"
        and row: "get (dbProxies (mDB m1)) k = Some row"
      show "\<not> clashesWithFront cfg (spAddress row)"
      proof (cases "k \<in> pcID ` set (cfgProxies cfg)")
        case True
        then have "spAddress row \<in> pcAddress ` set (cfgProxies cfg)" using rows(1) [OF _ row] by simp
        then show ?thesis using None e by auto
      next
        case False
        then show ?thesis using rows(2) row old by auto
      qed
    qed
    then show ?thesis
      unfolding restoreState_succeeds [OF kept(1)] clash [OF kept(2)] by blast
  qed simp
  finally show ?thesis unfolding e using c fake by blast
qed

lemma main_succeeds:
  assumes "Load (readConfig fs) unmarshal (ueParseURL lib) path = Inr cfg" and "openDB (DBPath cfg) = Inr db"
  shows "\<not> isl (fst (main env lib unmarshal openDB path fs)) \<longleftrightarrow>
    (\<exists>r. fst (New env (ueParseURL lib) cfg db) = Inr r)
    \<and> (\<exists>router. newMatcher (ueRegex lib) (ueReadFile lib) (ueGeosite lib) (cfgRouting cfg) = Inr router)"
proof -
  obtain r db' where new: "New env (ueParseURL lib) cfg db = (r, db')" by fastforce
  show ?thesis
  proof (cases r)
    case (Inr started)
    then show ?thesis using assms new by (cases started) (auto simp: main_def split: sum.split)
  qed (use assms new in \<open>simp add: main_def\<close>)
qed

lemma NewFakeIPStore_succeeds: "(\<exists>fake. NewFakeIPStore cidr = Inr fake) \<longleftrightarrow>
    (\<exists>a net. ParseCIDR cidr = Inr (a, net) \<and> To4 a \<noteq> None \<and> netBits net = 32 \<and> netOnes net \<le> 30)"
  by (auto simp: NewFakeIPStore_def split: sum.splits option.splits)

section \<open>Properties\<close>

lemma main_Inr:
  assumes "main env lib unmarshal openDB path fs = (Inr p, db')"
  obtains cfg db m ps fake router where "Load (readConfig fs) unmarshal (ueParseURL lib) path = Inr cfg"
    and "openDB (DBPath cfg) = Inr db" and "New env (ueParseURL lib) cfg db = (Inr (m, ps, fake), the db')"
    and "newMatcher (ueRegex lib) (ueReadFile lib) (ueGeosite lib) (cfgRouting cfg) = Inr router"
    and "p = \<lparr>pgSystem = \<lparr>syRuntime = Some (wiredConfig (ueParseURL lib) path cfg),
                            syGateway = newGateway (cfgGateway cfg) (cfgDNS cfg) (Some router),
                            syProvider = ps, syManager = m, syFiles = fs\<rparr>,
                pgAPI = cfgAPI cfg, pgDNS = cfgDNS cfg, pgFake = fake, pgLoops = Start m\<rparr>"
  using assms by (auto simp: main_def split: sum.splits prod.splits)

lemma Load_setDefaults: "Load readFile unmarshal parseURL path = Inr cfg \<Longrightarrow> setDefaults cfg = cfg"
  by (auto simp: Load_def Let_def setDefaults_idem split: sum.splits option.splits)

lemma main_in_line:
  assumes "main env lib unmarshal openDB path fs = (Inr p, db)" and "weTmp (ueWrite lib) \<noteq> path"
  shows "\<exists>c. rcPath c = path \<and> syRuntime (pgSystem p) = Some c \<and> wired lib (pgSystem p)
    \<and> in_line lib unmarshal (mCfg (syManager (pgSystem p))) c (pgSystem p)
    \<and> config_ok (ueParseURL lib) (setDefaults (currentConfig (mCfg (syManager (pgSystem p))) c))"
  using main_Inr [OF assms(1)]
proof cases
  case (1 cfg db m ps fake router)
  let ?c = "wiredConfig (ueParseURL lib) path cfg"
  obtain e raw where e: "get fs path = Some e" "unmarshal (feData e) = Inr raw" "cfg = setDefaults raw"
    using 1(1) by (auto simp: Load_def readConfig_def Let_def split: sum.splits option.splits)
  have "currentConfig cfg ?c = cfg"
    by (simp add: currentConfig_def wiredConfig_def NewRuntimeConfig_def)
  moreover have "config_ok (ueParseURL lib) (setDefaults cfg)"
    using 1(1) Load_setDefaults [OF 1(1)] by (auto simp: Load_def Let_def validate_iff split: sum.splits option.splits)
  ultimately show ?thesis
    using 1(4,5) e New_wiring [OF 1(3)] assms(2) Load_setDefaults [OF 1(1)]
    by (auto simp: in_line_def wired_def wiredConfig_def NewRuntimeConfig_def newGateway_def
        dest!: newConnector_front newClient_Inr)
qed

text \<open>
  C16. The file and the running program stay in line. From its start on, after any sequence of updates of
  the configuration, whether they succeed or fail at any call, the configuration file is still read as
  the configuration of the start with the sections that are in force, and the program runs by them: the
  gateway's matcher was built from the routing rules in force, and the connector and the provider's
  client from the front proxy and the provider in force. A restart, then, loads exactly what is in
  force, or it refuses to start because the validation of \<open>Load\<close> does not accept it. It does accept it
  when the routing rules and front proxies that were stored name known actions and are valid front
  proxies; updates do not check that (\<open>update_accepts_what_load_refuses\<close>). Updates of the provider are
  always accepted again.
\<close>

theorem file_follows_running:
  assumes "main env lib unmarshal openDB path fs = (Inr p, db)" and "codec_ok (ueCodec lib)"
    and "weTmp (ueWrite lib) \<noteq> path"
    and "\<forall>(_, w, v) \<in> set us. weTmp w \<noteq> path \<and> reads_back unmarshal (ueCodec lib) (stored v)"
  shows "\<exists>c. syRuntime (runUpdates lib us (pgSystem p)) = Some c
    \<and> in_line lib unmarshal (mCfg (syManager (pgSystem p))) c (runUpdates lib us (pgSystem p))
    \<and> Load (readConfig (syFiles (runUpdates lib us (pgSystem p)))) unmarshal (ueParseURL lib) path =
        (let cfg = setDefaults (currentConfig (mCfg (syManager (pgSystem p))) c) in
         case validate (ueParseURL lib) cfg of None \<Rightarrow> Inr cfg | Some err \<Rightarrow> Inl err)
    \<and> ((\<forall>(_, _, v) \<in> set us. acceptable v) \<longrightarrow>
         Load (readConfig (syFiles (runUpdates lib us (pgSystem p)))) unmarshal (ueParseURL lib) path =
           Inr (setDefaults (currentConfig (mCfg (syManager (pgSystem p))) c)))"
proof -
  let ?s = "runUpdates lib us (pgSystem p)" and ?cfg = "mCfg (syManager (pgSystem p))"
  obtain c0 where start: "rcPath c0 = path" "syRuntime (pgSystem p) = Some c0" "wired lib (pgSystem p)"
    "in_line lib unmarshal ?cfg c0 (pgSystem p)" "config_ok (ueParseURL lib) (setDefaults (currentConfig ?cfg c0))"
    using main_in_line [OF assms(1,3)] by metis
  have "\<forall>(_, w, v) \<in> set us. weTmp w \<noteq> rcPath c0 \<and> reads_back unmarshal (ueCodec lib) (stored v)"
    using assms(4) start(1) by simp
  from runUpdates_in_line [OF start(3) assms(2) start(2,4) this] start(1,5)
  obtain c where "rcPath c = path" "syRuntime ?s = Some c" "in_line lib unmarshal ?cfg c ?s"
    "(\<forall>(_, _, v) \<in> set us. acceptable v) \<longrightarrow> config_ok (ueParseURL lib) (setDefaults (currentConfig ?cfg c))"
    by blast
  then show ?thesis
    using validate_iff [of "ueParseURL lib" "setDefaults (currentConfig ?cfg c)"]
    by (auto simp: in_line_def Load_def readConfig_def Let_def)
qed

text \<open>A shutdown closes every registered connection, and no wake-up of the queue starts a worker after it.\<close>

lemma shutdown_closes_all:
  assumes "get (conns (syManager (pgSystem p))) ip = Some cs" and "c \<in> set cs"
  shows "c \<in> set (closing (syManager (pgSystem (shutdown p))))"
    and "fst (processQueueAsync now (syManager (pgSystem (shutdown p)))) = False"
proof -
  have "(ip, cs) \<in> set (conns (syManager (pgSystem p)))"
    using assms(1) by (rule map_of_SomeD)
  moreover have "conns (stopQueueProcessing m) = conns m" for m
    by (simp add: stopQueueProcessing_def cancelQueueRetry_def Let_def)
  ultimately show "c \<in> set (closing (syManager (pgSystem (shutdown p))))"
    using assms(2) by (auto simp: shutdown_def CloseClientConnections_def connectionSnapshot_def)
  show "fst (processQueueAsync now (syManager (pgSystem (shutdown p)))) = False"
    by (simp add: shutdown_def CloseClientConnections_def stopQueueProcessing_def cancelQueueRetry_def processQueueAsync_def Let_def)
qed

text \<open>A start whose routing section is replaced, and an update whose renaming fails.\<close>

definition startRouting :: RoutingConfig where
  "startRouting = (cfgRouting exampleConfig)\<lparr>rtEnabled := True, rtDefaultAction := ''block'', rtProxyDomains := [''b.org'']\<rparr>"

definition startUnmarshal :: "string \<Rightarrow> goError + Config" where
  "startUnmarshal data =
     (if data = ''old'' then Inr exampleConfig
      else if data = ''new'' @ [CHR 0x0A] then Inr (exampleConfig\<lparr>cfgRouting := startRouting\<rparr>) else Inl (ErrIO ''syntax''))"

definition startFiles :: fileSys where
  "startFiles = [(''config'', \<lparr>feMode = 420, feData = ''old''\<rparr>)]"

definition startUpdates :: "(time \<times> writeEnv \<times> sectionValue) list" where
  "startUpdates = map (\<lambda>(t, fail). (t, ueWrite (exampleUpdate fail), RoutingSection startRouting)) [(1, renameFails), (2, \<lambda>_. None)]"

definition startRun :: "(goError + program) \<times> DB option" where
  "startRun = main exampleStart (exampleUpdate (\<lambda>_. None)) startUnmarshal (\<lambda>_. Inr emptyDB) ''config'' startFiles"

definition afterUpdates :: system where
  "afterUpdates = runUpdates (exampleUpdate (\<lambda>_. None)) startUpdates (pgSystem (projr (fst startRun)))"

lemma start_reads_back: "reads_back startUnmarshal (ueCodec (exampleUpdate fail)) (RoutingSection startRouting)"
  by (auto simp: reads_back_def startUnmarshal_def exampleUpdate_def exampleCodec_def exampleDoc_def fun_eq_iff
      split: if_splits dest!: spec [where x = "''routing''"])

lemma file_follows_running_witness:
  "(\<exists>c. syRuntime afterUpdates = Some c
      \<and> in_line (exampleUpdate (\<lambda>_. None)) startUnmarshal (mCfg (syManager (pgSystem (projr (fst startRun))))) c afterUpdates)
   \<and> map_option rcRouting (syRuntime afterUpdates) = Some startRouting
   \<and> (\<exists>cfg. Load (readConfig (syFiles afterUpdates)) startUnmarshal (\<lambda>_. None) ''config'' = Inr cfg
        \<and> rtDefaultAction (cfgRouting cfg) = ''block'')"
proof -
  have "\<not> isl (fst startRun)" by code_simp
  then have run: "main exampleStart (exampleUpdate (\<lambda>_. None)) startUnmarshal (\<lambda>_. Inr emptyDB) ''config'' startFiles
      = (Inr (projr (fst startRun)), snd startRun)"
    unfolding startRun_def [symmetric] by (cases "fst startRun") (auto simp: isl_def prod_eq_iff)
  have tmp: "weTmp (ueWrite (exampleUpdate (\<lambda>_. None))) \<noteq> ''config''"
    by (simp add: exampleUpdate_def)
  have us: "\<forall>(_, w, v) \<in> set startUpdates. weTmp w \<noteq> ''config'' \<and> reads_back startUnmarshal (ueCodec (exampleUpdate (\<lambda>_. None))) (stored v)"
    using start_reads_back [of "\<lambda>_. None"] by (simp add: startUpdates_def exampleUpdate_def)
  have routing: "map_option rcRouting (syRuntime afterUpdates) = Some startRouting"
    by code_simp+
  have ok: "\<forall>(_, _, v) \<in> set startUpdates. acceptable v"
  proof -
    have "rtDefaultAction startRouting = ''block''" "rtRules startRouting = []" by code_simp+
    then show ?thesis by (simp add: startUpdates_def action_ok_def)
  qed
  obtain c where c: "syRuntime afterUpdates = Some c"
    "in_line (exampleUpdate (\<lambda>_. None)) startUnmarshal (mCfg (syManager (pgSystem (projr (fst startRun))))) c afterUpdates"
    "Load (readConfig (syFiles afterUpdates)) startUnmarshal (\<lambda>_. None) ''config'' =
       Inr (setDefaults (currentConfig (mCfg (syManager (pgSystem (projr (fst startRun))))) c))"
    using file_follows_running [OF run exampleUpdate_ok(2) tmp us] ok by (auto simp: afterUpdates_def exampleUpdate_def)
  have "rtDefaultAction (cfgRouting (setDefaults (currentConfig cfg c))) = ''block''" for cfg
    using routing c(1) by (simp add: setDefaults_def currentConfig_def startRouting_def)
  with c routing show ?thesis by blast
qed

text \<open>
  C32. What can stop a start. Once \<open>Load\<close> has accepted the file and the database is open and well-formed,
  \<open>main\<close> gets to serving exactly when the following hold: the address of an enabled front proxy has a
  host without blanks and NUL and a port, without its surrounding blanks; the DNS upstream is usable; the
  pool of fake addresses is an IPv4 network of at least four addresses; neither a configured proxy nor a
  stored one that the configuration does not replace has the endpoint of the front proxy; each configured
  proxy could be stored and the three tables could be read; and the routing rules compile. Nothing else
  can stop it: no failing deletion, no stored lease or provider data, and not the provider's section, for
  the validation of the provider, of the credentials and of the protocol of the front proxy is enough for
  all that is built from them.
\<close>

theorem start_succeeds_exactly:
  assumes "Load (readConfig fs) unmarshal (ueParseURL lib) path = Inr cfg"
    and "openDB (DBPath cfg) = Inr db" and "db_ok db"
  shows "\<not> isl (fst (main env lib unmarshal openDB path fs)) \<longleftrightarrow>
      (fpEnabled (cfgFrontProxy cfg) \<longrightarrow> (\<exists>host port n. SplitHostPort (TrimSpace (fpAddress (cfgFrontProxy cfg))) = Inr (host, port)
         \<and> host \<noteq> [] \<and> set host \<inter> {CHR 0x00, CHR '' '', CHR 0x09, CHR 0x0D, CHR 0x0A} = {} \<and> Atoi port = Some n \<and> 1 \<le> n \<and> n \<le> 65535))
    \<and> (TrimSpace (dnsUpstream (cfgDNS cfg)) = [] \<or> (\<exists>u. normalizeDNSUpstream (TrimSpace (dnsUpstream (cfgDNS cfg))) = Inr u))
    \<and> (\<exists>a net. ParseCIDR (dnsFakeIPCIDR (cfgDNS cfg)) = Inr (a, net) \<and> To4 a \<noteq> None \<and> netBits net = 32 \<and> netOnes net \<le> 30)
    \<and> (\<forall>p \<in> set (cfgProxies cfg). \<not> clashesWithFront cfg (pcAddress p))
    \<and> (\<forall>k row. get (dbProxies db) k = Some row \<and> k \<notin> pcID ` set (cfgProxies cfg) \<longrightarrow> \<not> clashesWithFront cfg (spAddress row))
    \<and> (\<forall>i < length (cfgProxies cfg). \<not> seUpsert env i 0) \<and> (\<forall>i < 3. seQuery env i = None)
    \<and> (\<exists>router. newMatcher (ueRegex lib) (ueReadFile lib) (ueGeosite lib) (cfgRouting cfg) = Inr router)"
proof -
  have "config_ok (ueParseURL lib) cfg"
    using assms(1) by (auto simp: Load_def Let_def validate_iff split: sum.splits option.splits)
  then show ?thesis
    unfolding main_succeeds [where openDB = openDB, OF assms(1,2)] New_succeeds [OF \<open>config_ok (ueParseURL lib) cfg\<close> assms(3)]
      loaded_connector [OF \<open>config_ok (ueParseURL lib) cfg\<close>] validateAddress_iff NewFakeIPStore_succeeds
    by (simp only: conj_assoc)
qed

text \<open>A start with a front proxy and one configured proxy: another endpoint starts, the same one does not.\<close>

definition startWith :: "string \<Rightarrow> Config" where
  "startWith address = setDefaults (exampleConfig
     \<lparr>cfgFrontProxy := \<lparr>fpEnabled = True, fpProtocol = [], fpAddress = ''10.0.0.9:1080'', fpUsername = [], fpPassword = [], fpFailOpen = False\<rparr>,
      cfgProxies := [\<lparr>pcID = ''p7'', pcAddress = address, pcUsername = [], pcPassword = []\<rparr>]\<rparr>)"

lemma start_succeeds_exactly_witness:
  "\<not> isl (fst (main exampleStart (exampleUpdate (\<lambda>_. None)) (\<lambda>_. Inr (startWith ''10.0.0.7:1080'')) (\<lambda>_. Inr emptyDB) ''config'' startFiles))
   \<and> isl (fst (main exampleStart (exampleUpdate (\<lambda>_. None)) (\<lambda>_. Inr (startWith ''10.0.0.9:1080'')) (\<lambda>_. Inr emptyDB) ''config'' startFiles))"
proof -
  have load: "Load (readConfig startFiles) (\<lambda>_. Inr (startWith ''10.0.0.7:1080'')) (ueParseURL (exampleUpdate (\<lambda>_. None))) ''config''
      = Inr (startWith ''10.0.0.7:1080'')"
    "Load (readConfig startFiles) (\<lambda>_. Inr (startWith ''10.0.0.9:1080'')) (ueParseURL (exampleUpdate (\<lambda>_. None))) ''config''
      = Inr (startWith ''10.0.0.9:1080'')"
    by code_simp+
  have db: "db_ok emptyDB" by (simp add: emptyDB_def db_ok_def keys_ok_def)
  let ?cfg = "startWith ''10.0.0.7:1080''"
  have rows: "get (dbProxies emptyDB) k = None" for k by (simp add: emptyDB_def)
  have proxies: "cfgProxies (startWith a) = [\<lparr>pcID = ''p7'', pcAddress = a, pcUsername = [], pcPassword = []\<rparr>]" for a
    by (simp add: startWith_def setDefaults_def)
  have front: "validateAddress (TrimSpace (fpAddress (cfgFrontProxy ?cfg))) = None"
    and upstream: "\<not> isl (normalizeDNSUpstream (TrimSpace (dnsUpstream (cfgDNS ?cfg))))"
    and fake: "\<not> isl (NewFakeIPStore (dnsFakeIPCIDR (cfgDNS ?cfg)))"
    and clash: "\<not> clashesWithFront ?cfg ''10.0.0.7:1080''" "clashesWithFront (startWith ''10.0.0.9:1080'') ''10.0.0.9:1080''"
    and rules: "\<not> isl (newMatcher (ueRegex (exampleUpdate (\<lambda>_. None))) (ueReadFile (exampleUpdate (\<lambda>_. None)))
        (ueGeosite (exampleUpdate (\<lambda>_. None))) (cfgRouting ?cfg))"
    by code_simp+
  have env: "\<not> seUpsert exampleStart i 0" "seQuery exampleStart i = None" for i by (simp_all add: exampleStart_def)
  have some: "\<not> isl r \<longleftrightarrow> (\<exists>x. r = Inr x)" for r :: "goError + 'b" by (cases r) simp_all
  have starts: "\<not> isl (fst (main exampleStart (exampleUpdate (\<lambda>_. None)) (\<lambda>_. Inr ?cfg) (\<lambda>_. Inr emptyDB) ''config'' startFiles))"
    unfolding start_succeeds_exactly [where openDB = "\<lambda>_. Inr emptyDB", OF load(1) refl db] proxies rows
      NewFakeIPStore_succeeds [symmetric] validateAddress_iff [symmetric]
    using front upstream fake clash(1) rules env by (simp add: some)
  have "isl (fst (main exampleStart (exampleUpdate (\<lambda>_. None)) (\<lambda>_. Inr (startWith ''10.0.0.9:1080'')) (\<lambda>_. Inr emptyDB) ''config'' startFiles))"
    using start_succeeds_exactly [where openDB = "\<lambda>_. Inr emptyDB" and env = exampleStart, OF load(2) refl db] clash(2) proxies by auto
  with starts show ?thesis by blast
qed

text \<open>
  A negative interval of the health checks passes the validation, and the health loop panics on it: the
  defaults only replace an interval of zero.
\<close>

definition negativeInterval :: Config where
  "negativeInterval = exampleConfig\<lparr>cfgHealthCheck := (cfgHealthCheck exampleConfig)\<lparr>hcEnabled := True, hcInterval := - Second\<rparr>\<rparr>"

lemma negative_interval_panics:
  "validate parseURL (setDefaults negativeInterval) = None"
  "healthLoop (blankManager (setDefaults negativeInterval) db c) \<in> set (Start (blankManager (setDefaults negativeInterval) db c))
   \<and> healthLoop (blankManager (setDefaults negativeInterval) db c) = Inl (ErrString ''non-positive interval for NewTicker'')"
  by code_simp+

end
