(* ===== verification/StoreFile.thy ===== *)
theory StoreFile
  imports Store
begin

text \<open>
  internal/store/store.go, \<open>Open\<close> and \<open>migrate\<close>: the tables of the database file are created when they are
  missing, statement by statement, and rows that are there stay. The driver is an argument by its failures.
\<close>

section \<open>The file\<close>

text \<open>A table that has not been created is \<open>None\<close>; \<open>dfIndexed\<close> is the index on the times of the events.\<close>

record dbFile =
  dfLeases :: "StoreLease table option"
  dfEvents :: "Event list option"
  dfIndexed :: bool
  dfProxies :: "StoreProxy table option"
  dfDynamic :: "DynamicProxy table option"

definition newFile :: dbFile where
  "newFile = \<lparr>dfLeases = None, dfEvents = None, dfIndexed = False, dfProxies = None, dfDynamic = None\<rparr>"

definition createIfMissing :: "'t list option \<Rightarrow> 't list option" where
  "createIfMissing t = (case t of None \<Rightarrow> Some [] | Some rows \<Rightarrow> Some rows)"

definition schema :: "(dbFile \<Rightarrow> dbFile) list" where
  "schema =
     [dfLeases_update createIfMissing, dfEvents_update createIfMissing, \<lambda>f. f\<lparr>dfIndexed := True\<rparr>,
      dfProxies_update createIfMissing, dfDynamic_update createIfMissing]"

text \<open>\<open>Exec\<close> runs the statements in their order and stops at the first that fails.\<close>

fun execAll :: "(nat \<Rightarrow> goError option) \<Rightarrow> nat \<Rightarrow> (dbFile \<Rightarrow> dbFile) list \<Rightarrow> dbFile \<Rightarrow> goError option \<times> dbFile" where
  "execAll fails n [] f = (None, f)"
| "execAll fails n (stmt # stmts) f =
     (case fails n of Some err \<Rightarrow> (Some err, f) | None \<Rightarrow> execAll fails (Suc n) stmts (stmt f))"

definition migrate :: "(nat \<Rightarrow> goError option) \<Rightarrow> dbFile \<Rightarrow> goError option \<times> dbFile" where
  "migrate fails f = execAll fails 0 schema f"

record openEnv =
  oeDriver :: "goError option"
  oePragmas :: "goError option"
  oeSchema :: "nat \<Rightarrow> goError option"

definition tablesOf :: "dbFile \<Rightarrow> DB" where
  "tablesOf f = \<lparr>dbLeases = the (dfLeases f), dbProxies = the (dfProxies f), dbDynamic = the (dfDynamic f), dbEvents = the (dfEvents f)\<rparr>"

definition Open :: "openEnv \<Rightarrow> dbFile \<Rightarrow> (goError + DB) \<times> dbFile" where
  "Open env f =
     (case oeDriver env of
        Some err \<Rightarrow> (Inl err, f)
      | None \<Rightarrow>
      (case oePragmas env of
        Some err \<Rightarrow> (Inl err, f)
      | None \<Rightarrow>
      (case migrate (oeSchema env) f of
        (Some err, f) \<Rightarrow> (Inl err, f)
      | (None, f) \<Rightarrow> (Inr (tablesOf f), f))))"

text \<open>The file that a database leaves behind.\<close>

definition fileOf :: "DB \<Rightarrow> dbFile" where
  "fileOf db = \<lparr>dfLeases = Some (dbLeases db), dfEvents = Some (dbEvents db), dfIndexed = True,
     dfProxies = Some (dbProxies db), dfDynamic = Some (dbDynamic db)\<rparr>"

section \<open>Laws\<close>

text \<open>More tables, and no table with other rows; a new table is empty.\<close>

definition extended :: "'t list option \<Rightarrow> 't list option \<Rightarrow> bool" where
  "extended t t' \<longleftrightarrow> t' = t \<or> t = None \<and> t' = Some []"

lemma extended_simps [simp]: "extended t t" "extended t (createIfMissing t)"
  by (auto simp: extended_def createIfMissing_def split: option.split)

lemma extended_trans: "extended a b \<Longrightarrow> extended b c \<Longrightarrow> extended a c"
  by (auto simp: extended_def)

definition grown :: "dbFile \<Rightarrow> dbFile \<Rightarrow> bool" where
  "grown f f' \<longleftrightarrow> extended (dfLeases f) (dfLeases f') \<and> extended (dfEvents f) (dfEvents f')
     \<and> extended (dfProxies f) (dfProxies f') \<and> extended (dfDynamic f) (dfDynamic f')"

lemma grown_trans: "grown a b \<Longrightarrow> grown b c \<Longrightarrow> grown a c"
  by (auto simp: grown_def intro: extended_trans)

lemma execAll_grown: "execAll fails n stmts f = (e, f') \<Longrightarrow> (\<And>stmt g. stmt \<in> set stmts \<Longrightarrow> grown g (stmt g)) \<Longrightarrow> grown f f'"
proof (induction fails n stmts f rule: execAll.induct)
  case (2 fails n stmt stmts f)
  show ?case
  proof (cases "fails n")
    case None
    with 2 have "grown (stmt f) f'" by auto
    moreover have "grown f (stmt f)" using 2(3) by simp
    ultimately show ?thesis using grown_trans by blast
  qed (use 2(2) in \<open>simp add: grown_def\<close>)
qed (simp add: grown_def)

lemma Open_grown:
  assumes "Open env f = (r, f')"
  shows "grown f f'"
proof -
  have "grown g (stmt g)" if "stmt \<in> set schema" for stmt g
    using that by (auto simp: schema_def grown_def)
  then have "grown f (snd (migrate (oeSchema env) f))"
    unfolding migrate_def by (intro execAll_grown [OF prod.collapse [symmetric]])
  then show ?thesis
    using assms by (auto simp: Open_def grown_def split: option.splits prod.splits)
qed

lemma Open_tables:
  assumes "Open env f = (Inr db, f')"
  shows "f' = fileOf db \<and> dbLeases db = (case dfLeases f of None \<Rightarrow> [] | Some t \<Rightarrow> t)
    \<and> dbProxies db = (case dfProxies f of None \<Rightarrow> [] | Some t \<Rightarrow> t)
    \<and> dbDynamic db = (case dfDynamic f of None \<Rightarrow> [] | Some t \<Rightarrow> t)"
  using assms
  by (auto simp: Open_def migrate_def schema_def tablesOf_def fileOf_def createIfMissing_def split: option.splits)

lemma Open_fileOf: "fst (Open env (fileOf db)) = Inr db \<or> isl (fst (Open env (fileOf db)))"
  and Open_fileOf_kept: "snd (Open env (fileOf db)) = fileOf db"
  by (auto simp: Open_def migrate_def schema_def tablesOf_def fileOf_def createIfMissing_def split: option.splits)

lemma Open_new: "Open env newFile = (Inr db, f') \<Longrightarrow> db = emptyDB"
  by (auto simp: Open_def migrate_def schema_def tablesOf_def newFile_def createIfMissing_def emptyDB_def split: option.splits)

end
