(* ===== verification/Durations.thy ===== *)
theory Durations
  imports Config "HOL-Library.Word"
begin

text \<open>
  The durations of internal/config/config.go: a string is read by \<open>time.ParseDuration\<close>, a number counts
  seconds. A \<open>time.Duration\<close> is a signed 64-bit count of nanoseconds; the product with \<open>time.Second\<close> wraps.
\<close>

section \<open>time.ParseDuration\<close>

text \<open>Digits, with the overflow checks at the top of 63 bits.\<close>

fun leadingInt :: "nat \<Rightarrow> string \<Rightarrow> (nat \<times> string) option" where
  "leadingInt x [] = Some (x, [])"
| "leadingInt x (c # s) =
     (if \<not> is_digit c then Some (x, c # s)
      else if x > 2 ^ 63 div 10 then None
      else let y = x * 10 + digit_value c in if y > 2 ^ 63 then None else leadingInt y s)"

text \<open>The fraction, its number of digits that count, and whether it has overflowed.\<close>

fun leadingFraction :: "nat \<Rightarrow> nat \<Rightarrow> bool \<Rightarrow> string \<Rightarrow> nat \<times> nat \<times> string" where
  "leadingFraction x k over [] = (x, k, [])"
| "leadingFraction x k over (c # s) =
     (if \<not> is_digit c then (x, k, c # s)
      else if over \<or> x > (2 ^ 63 - 1) div 10 then leadingFraction x k True s
      else let y = x * 10 + digit_value c in
        if y > 2 ^ 63 then leadingFraction x k True s else leadingFraction y (Suc k) False s)"

definition unitMap :: "nat table" where
  "unitMap =
     [(''ns'', 1), (''us'', 1000), ([CHR 0xC2, CHR 0xB5, CHR ''s''], 1000), ([CHR 0xCE, CHR 0xBC, CHR ''s''], 1000),
      (''ms'', 1000000), (''s'', 1000000000), (''m'', 60000000000), (''h'', 3600000000000)]"

text \<open>
  One number with its unit, and what follows. The fraction is scaled in floating point:
  \<open>frac f k unit\<close> is \<open>f\<close> times \<open>unit\<close> over ten to the \<open>k\<close>, rounded as \<open>float64\<close> does and truncated.
\<close>

definition parseGroup :: "(nat \<Rightarrow> nat \<Rightarrow> nat \<Rightarrow> nat) \<Rightarrow> string \<Rightarrow> (nat \<times> string) option" where
  "parseGroup frac s =
     (if \<not> (hd s = CHR ''.'' \<or> is_digit (hd s)) then None
      else case leadingInt 0 s of
        None \<Rightarrow> None
      | Some (v, s1) \<Rightarrow>
          (let pre = s1 \<noteq> s;
               (f, k, s2) = (case s1 of CHR ''.'' # t \<Rightarrow> leadingFraction 0 0 False t | _ \<Rightarrow> (0, 0, s1));
               post = (case s1 of CHR ''.'' # t \<Rightarrow> s2 \<noteq> t | _ \<Rightarrow> False);
               u = takeWhile (\<lambda>c. \<not> (c = CHR ''.'' \<or> is_digit c)) s2; rest = drop (length u) s2 in
           if \<not> pre \<and> \<not> post \<or> u = [] then None
           else case get unitMap u of
             None \<Rightarrow> None
           | Some unit \<Rightarrow>
               if v > 2 ^ 63 div unit then None
               else let v = v * unit + (if f > 0 then frac f k unit else 0) in
                 if f > 0 \<and> v > 2 ^ 63 then None else Some (v, rest)))"

lemma leadingInt_shorter: "leadingInt x s = Some (v, s') \<Longrightarrow> length s' \<le> length s"
  by (induction x s rule: leadingInt.induct) (auto simp: Let_def split: if_splits)

lemma leadingFraction_shorter: "leadingFraction x k over s = (f, n, s') \<Longrightarrow> length s' \<le> length s"
  by (induction x k over s rule: leadingFraction.induct) (auto simp: Let_def split: if_splits)

lemma parseGroup_shorter:
  assumes "parseGroup frac s = Some (v, rest)"
  shows "length rest < length s"
proof -
  obtain w s1 where s1: "leadingInt 0 s = Some (w, s1)"
    using assms by (auto simp: parseGroup_def split: if_splits option.splits)
  obtain f k s2 where s2: "(case s1 of CHR ''.'' # t \<Rightarrow> leadingFraction 0 0 False t | _ \<Rightarrow> (0, 0, s1)) = (f, k, s2)"
    by (metis surj_pair)
  let ?u = "takeWhile (\<lambda>c. \<not> (c = CHR ''.'' \<or> is_digit c)) s2"
  have "length s2 \<le> length s1"
  proof (cases "\<exists>t. s1 = CHR ''.'' # t")
    case True
    then show ?thesis using s2 leadingFraction_shorter by fastforce
  next
    case False
    then have "s2 = s1" using s2 by (auto split: list.splits char.splits bool.splits)
    then show ?thesis by simp
  qed
  moreover have "?u \<noteq> []" "rest = drop (length ?u) s2"
    using assms s1 s2 by (auto simp: parseGroup_def Let_def split: if_splits option.splits)
  moreover from this have "length rest < length s2"
    by (cases s2) (auto split: if_splits)
  ultimately show ?thesis using leadingInt_shorter [OF s1] by simp
qed

text \<open>The sum of the groups is kept in 64 bits and checked after each of them.\<close>

function parseGroups :: "(nat \<Rightarrow> nat \<Rightarrow> nat \<Rightarrow> nat) \<Rightarrow> nat \<Rightarrow> string \<Rightarrow> nat option" where
  "parseGroups frac d s =
     (if s = [] then Some d
      else case parseGroup frac s of
        None \<Rightarrow> None
      | Some (v, rest) \<Rightarrow> let d = (d + v) mod 2 ^ 64 in if d > 2 ^ 63 then None else parseGroups frac d rest)"
  by pat_completeness auto
termination
  by (relation "measure (\<lambda>(frac, d, s). length s)") (auto dest: parseGroup_shorter)

declare parseGroups.simps [simp del]

definition ParseDuration :: "(nat \<Rightarrow> nat \<Rightarrow> nat \<Rightarrow> nat) \<Rightarrow> string \<Rightarrow> goError + duration" where
  "ParseDuration frac orig =
     (let invalid = Inl (ErrString (''time: invalid duration '' @ Quote orig));
          (neg, s) = (case orig of c # t \<Rightarrow> if c = CHR ''-'' \<or> c = CHR ''+'' then (c = CHR ''-'', t) else (False, orig)
                                 | [] \<Rightarrow> (False, [])) in
      if s = ''0'' then Inr 0
      else if s = [] then invalid
      else case parseGroups frac 0 s of
        None \<Rightarrow> invalid
      | Some d \<Rightarrow> if neg then Inr (- int d) else if d > 2 ^ 63 - 1 then invalid else Inr (int d))"

section \<open>Reading a duration\<close>

text \<open>\<open>time.Duration(n) * time.Second\<close> on 64 bits.\<close>

definition secondsDuration :: "int \<Rightarrow> duration" where
  "secondsDuration n = sint (word_of_int n * word_of_int Second :: 64 word)"

text \<open>\<open>json.Unmarshal\<close> into a string and into an \<open>int64\<close> are arguments.\<close>

definition UnmarshalDuration ::
    "(nat \<Rightarrow> nat \<Rightarrow> nat \<Rightarrow> nat) \<Rightarrow> (string \<Rightarrow> goError + string) \<Rightarrow> (string \<Rightarrow> goError + int) \<Rightarrow> string \<Rightarrow> goError + duration" where
  "UnmarshalDuration frac asString asInt data =
     (case asString data of
        Inr s \<Rightarrow> ParseDuration frac s
      | Inl _ \<Rightarrow> (case asInt data of Inl err \<Rightarrow> Inl err | Inr n \<Rightarrow> Inr (secondsDuration n)))"

section \<open>What the durations are\<close>

lemma parseGroups_bound: "parseGroups frac d s = Some v \<Longrightarrow> d \<le> 2 ^ 63 \<Longrightarrow> v \<le> 2 ^ 63"
proof (induction frac d s rule: parseGroups.induct)
  case (1 frac d s)
  from 1(2) show ?case
    unfolding parseGroups.simps [of frac d s] using 1(1,3) by (auto simp: Let_def split: if_splits option.splits)
qed

lemma ParseDuration_fits:
  assumes "ParseDuration frac s = Inr d"
  shows "- (2 ^ 63) \<le> d \<and> d < 2 ^ 63"
  using assms parseGroups_bound [of frac 0]
  by (fastforce simp: ParseDuration_def Let_def split: list.splits if_splits option.splits)

lemma secondsDuration_fits: "- (2 ^ 63) \<le> secondsDuration n \<and> secondsDuration n < 2 ^ 63"
  using sint_range_size [of "word_of_int n * word_of_int Second :: 64 word"]
  by (simp add: secondsDuration_def word_size)

lemma secondsDuration_exact: "secondsDuration n = n * Second \<longleftrightarrow> \<bar>n\<bar> \<le> 9223372036"
proof
  assume "secondsDuration n = n * Second"
  then show "\<bar>n\<bar> \<le> 9223372036"
    using secondsDuration_fits [of n] by (simp add: abs_le_iff)
next
  assume n: "\<bar>n\<bar> \<le> 9223372036"
  then have range: "- (2 ^ 63) \<le> n * Second" "n * Second < 2 ^ 63"
    by simp_all
  have "secondsDuration n = signed_take_bit 63 (n * Second)"
    unfolding secondsDuration_def wi_hom_mult by (simp only: sint_sbintrunc' len_num1 len_bit0 len_num1) simp
  then show "secondsDuration n = n * Second"
    using range by (simp add: signed_take_bit_int_eq_self)
qed

text \<open>
  C39. A configured duration is a signed 64-bit count of nanoseconds, and a number of seconds is exact up to
  9223372036 of them, in both directions, and never beyond: the product wraps, so a larger number of
  seconds is silently another duration.
\<close>

theorem configured_durations_fit:
  assumes "UnmarshalDuration frac asString asInt data = Inr d"
  shows "- (2 ^ 63) \<le> d \<and> d < 2 ^ 63
    \<and> (\<forall>n. isl (asString data) \<longrightarrow> asInt data = Inr n \<longrightarrow> (d = n * Second \<longleftrightarrow> \<bar>n\<bar> \<le> 9223372036))"
  using assms ParseDuration_fits secondsDuration_fits secondsDuration_exact
  by (auto simp: UnmarshalDuration_def split: sum.splits)

text \<open>The first number of seconds that wraps is a negative duration, and larger ones may be nearly none at all.\<close>

lemma secondsDuration_wraps: "secondsDuration 9223372037 = - 9223372036709551616" "secondsDuration 18446744074 = 290448384"
  by (simp_all add: secondsDuration_def wi_hom_mult sint_sbintrunc' signed_take_bit_int_eq_self_iff)

theorem configured_durations_fit_witness:
  "\<exists>d. UnmarshalDuration (\<lambda>f k unit. f * unit div 10 ^ k) (\<lambda>_. Inl ErrEOF) (\<lambda>_. Inr 9223372037) ''9223372037'' = Inr d
    \<and> - (2 ^ 63) \<le> d \<and> d < 2 ^ 63 \<and> d \<noteq> 9223372037 * Second"
proof -
  let ?frac = "\<lambda>f k unit. f * unit div 10 ^ k"
  obtain d where d: "UnmarshalDuration ?frac (\<lambda>_. Inl ErrEOF) (\<lambda>_. Inr 9223372037) ''9223372037'' = Inr d"
    by (simp add: UnmarshalDuration_def)
  from configured_durations_fit [OF d] have fits: "- (2 ^ 63) \<le> d \<and> d < 2 ^ 63"
    and exact: "d = 9223372037 * Second \<longleftrightarrow> \<bar>9223372037 :: int\<bar> \<le> 9223372036"
    by simp_all
  from exact have "d \<noteq> 9223372037 * Second" by simp
  with d fits show ?thesis by blast
qed

text \<open>The durations of the example configuration, and some that are refused.\<close>

lemma ParseDuration_examples:
  "ParseDuration (\<lambda>f k unit. f * unit div 10 ^ k) ''24h'' = Inr (24 * Hour)"
  "ParseDuration (\<lambda>f k unit. f * unit div 10 ^ k) ''-1m1.5s'' = Inr (- 61500000000)"
  "isl (ParseDuration (\<lambda>f k unit. f * unit div 10 ^ k) ''10'')" "isl (ParseDuration (\<lambda>f k unit. f * unit div 10 ^ k) [])"
  by (simp_all add: ParseDuration_def parseGroups.simps parseGroup_def unitMap_def is_digit_def digit_value_def Let_def)

end
