(* ===== verification/Lifecycle.thy ===== *)
theory Lifecycle
  imports Startup StoreFile
begin

text \<open>
  The life of the process, cmd/sock5gw/main.go: the accept loop of the gateway, the DNS servers, the HTTP
  server, the background loops and the main goroutine run side by side until a signal arrives or a
  server fails; then the context ends, and \<open>main\<close> shuts the HTTP server down and closes the connections.
  Two panics that the code can reach are part of it: that of the health loop ends the process, and that of
  an update of the front proxy is caught by the HTTP server while the manager's mutex stays locked. What
  the process does to the manager are sections of its machine, each under that mutex.
\<close>

section \<open>The servers\<close>

datatype server = Binding | Serving | Returned "goError option"

fun failed :: "server \<Rightarrow> bool" where
  "failed (Returned (Some _)) = True"
| "failed _ = False"

fun_cases failedE: "failed r"

text \<open>
  \<open>Run\<close> of the gateway, with the connections it has handed to handlers. The end of the context closes the
  listener, so that \<open>Accept\<close> fails; until it does, connections may still be accepted.
\<close>

inductive gatewayStep :: "bool \<Rightarrow> server \<times> gwClient list \<Rightarrow> server \<times> gwClient list \<Rightarrow> bool" for ended where
  listen_failed: "gatewayStep ended (Binding, cs) (Returned (Some err), cs)"
| listening: "gatewayStep ended (Binding, cs) (Serving, cs)"
| accepted: "gatewayStep ended (Serving, cs) (Serving, cs @ [c])"
| accept_failed: "gatewayStep ended (Serving, cs) (Returned (if ended then None else Some err), cs)"

text \<open>
  \<open>Run\<close> of the DNS servers: the first result of one of them, or nil when the context has ended; when both
  are ready the choice is free.
\<close>

inductive dnsStep :: "bool \<Rightarrow> server \<Rightarrow> server \<Rightarrow> bool" for ended where
  dns_listening: "dnsStep ended Binding Serving"
| dns_failed: "s = Binding \<or> s = Serving \<Longrightarrow> dnsStep ended s (Returned (Some err))"
| dns_done: "ended \<Longrightarrow> s = Binding \<or> s = Serving \<Longrightarrow> dnsStep ended s (Returned None)"

text \<open>
  The HTTP server. \<open>Shutdown\<close> is \<open>asked\<close> for before it has \<open>closed\<close> the listener; from then on the server
  returns \<open>ErrServerClosed\<close>, which counts as no error.
\<close>

inductive apiStep :: "bool \<Rightarrow> bool \<Rightarrow> server \<Rightarrow> server \<Rightarrow> bool" for asked closed where
  api_listening: "\<not> closed \<Longrightarrow> apiStep asked closed Binding Serving"
| api_failed: "\<not> closed \<Longrightarrow> s = Binding \<or> s = Serving \<Longrightarrow> apiStep asked closed s (Returned (Some err))"
| api_closed: "asked \<Longrightarrow> s = Binding \<or> s = Serving \<Longrightarrow> apiStep asked closed s (Returned None)"

inductive_simps gateway_returned [simp]: "gatewayStep ended (Returned r, cs) t"
inductive_simps dns_returned [simp]: "dnsStep ended (Returned r) t"
inductive_simps api_returned [simp]: "apiStep asked closed (Returned r) t"

inductive_cases gatewayStepE: "gatewayStep ended (g, cs) (g', cs')"
inductive_cases dnsStepE: "dnsStep ended d d'"
inductive_cases apiStepE: "apiStep asked closed a a'"

section \<open>The process\<close>

text \<open>
  Where the main goroutine is: it waits for the context, is in \<open>Shutdown\<close>, waits for the manager's mutex to
  take the snapshot of the connections, closes the connections of the snapshot, or has returned. A panic
  that nobody recovers ends the process wherever it is. So does a signal after a server has failed: \<open>stop\<close>
  has then restored the default behaviour of the signals. Signals that the program does not ask for are
  not modelled.
\<close>

datatype mainPhase = Awaiting | ClosingAPI | ClosingClients | Closing "connID list" | Gone | Crashed | Killed

text \<open>
  \<open>prLost\<close>: a goroutine has panicked while it held the manager's mutex. \<open>prClosed\<close>: what \<open>main\<close> has closed.
  \<open>prEdited\<close> records that somebody else has written files. \<open>prLoops\<close> are the goroutines that \<open>Start\<close> launched.
\<close>

record process =
  prEnded :: bool
  prSignal :: bool
  prGateway :: server
  prAccepted :: "gwClient list"
  prDNS :: server
  prAPI :: server
  prLoops :: "(goError + backgroundLoop) list"
  prMain :: mainPhase
  prClosed :: "connID list"
  prLost :: bool
  prEdited :: bool
  prClock :: time
  prOwner :: "string \<times> connID \<Rightarrow> string option"
  prSystem :: system

definition alive :: "process \<Rightarrow> bool" where
  "alive s \<longleftrightarrow> prMain s \<notin> {Gone, Crashed, Killed}"

text \<open>\<open>stop\<close> has been called.\<close>

definition stopped :: "process \<Rightarrow> bool" where
  "stopped s \<longleftrightarrow> failed (prGateway s) \<or> failed (prDNS s) \<or> failed (prAPI s)"

definition worldOf :: "process \<Rightarrow> world" where
  "worldOf s = \<lparr>clock = prClock s, mgr = syManager (prSystem s), owner = prOwner s\<rparr>"

definition onWorld :: "world \<Rightarrow> process \<Rightarrow> process" where
  "onWorld w s = s\<lparr>prSystem := (prSystem s)\<lparr>syManager := mgr w\<rparr>, prClock := clock w, prOwner := owner w\<rparr>"

text \<open>A goroutine that saw its server fail calls \<open>stop\<close>. A turn of the manager's machine is one locked section.\<close>

definition stopIf :: "server \<Rightarrow> process \<Rightarrow> process" where
  "stopIf r s = s\<lparr>prEnded := prEnded s \<or> failed r\<rparr>"

definition turn :: "time \<Rightarrow> event \<Rightarrow> world \<Rightarrow> world" where
  "turn t e w = \<lparr>clock = t, mgr = perform t e (mgr w), owner = track t e (mgr w) (owner w)\<rparr>"

text \<open>
  The panic of \<open>writeSection\<close>: the file holds the JSON value null, and the assignment to the nil map panics
  after the section has been encoded. In an update of the front proxy \<open>m.mu\<close> and \<open>proxyAPIMu\<close> are locked at
  that point, and no deferred call unlocks them. The update gets there when all its checks pass, which
  the run with a writing that does nothing tells. In the other updates deferred calls unlock.
\<close>

definition writePanics :: "'j codec \<Rightarrow> string \<Rightarrow> sectionValue \<Rightarrow> fileSys \<Rightarrow> bool" where
  "writePanics codec path v fs \<longleftrightarrow> path \<noteq> []
     \<and> (\<exists>info j. get fs path = Some info \<and> cdDecode codec (feData info) = Inr None \<and> cdSection codec v = Inr j)"

definition frontPanics :: "'j updateEnv \<Rightarrow> FrontProxy \<Rightarrow> system \<Rightarrow> bool" where
  "frontPanics lib f s \<longleftrightarrow> (\<exists>c apply. syRuntime s = Some c \<and> rcApplyFrontProxy c = Some apply
     \<and> fst (apply (ueNow lib) f (Some (\<lambda>fs. (None, fs))) (syProvider s, syManager s, syFiles s)) = None
     \<and> writePanics (ueCodec lib) (rcPath c) (FrontProxySection f) (syFiles s))"

lemma writePanics_writeSection:
  "writePanics codec path v fs \<Longrightarrow> writeSection env codec path v fs = (Some nilMapPanic, [fs])"
  by (auto simp: writePanics_def writeSection_def rewrite_def)

text \<open>
  Handlers, requests, queue workers and background loops contribute sections at any time, and the
  handlers of the runtime configuration its updates; all of them wait for ever once the mutex is lost, but
  for the sections of the connector and updates of the routing, which do not take it. An update of the
  front proxy that panics is recovered by the HTTP server and loses the mutex. Anybody may write files.
  When \<open>main\<close> has returned, or the process has been killed or has crashed, nothing moves any more.
\<close>

inductive processStep :: "'j updateEnv \<Rightarrow> process \<Rightarrow> process \<Rightarrow> bool" for lib where
  signal: "alive s \<Longrightarrow> \<not> stopped s \<Longrightarrow> processStep lib s (s\<lparr>prEnded := True, prSignal := True\<rparr>)"
| killed: "alive s \<Longrightarrow> stopped s \<Longrightarrow> processStep lib s (s\<lparr>prMain := Killed\<rparr>)"
| gateway: "alive s \<Longrightarrow> gatewayStep (prEnded s) (prGateway s, prAccepted s) (g, cs) \<Longrightarrow>
     processStep lib s (stopIf g (s\<lparr>prGateway := g, prAccepted := cs\<rparr>))"
| dns: "alive s \<Longrightarrow> dnsStep (prEnded s) (prDNS s) d \<Longrightarrow> processStep lib s (stopIf d (s\<lparr>prDNS := d\<rparr>))"
| api: "alive s \<Longrightarrow> apiStep (prMain s \<noteq> Awaiting) (prMain s \<noteq> Awaiting \<and> prMain s \<noteq> ClosingAPI) (prAPI s) a \<Longrightarrow>
     processStep lib s (stopIf a (s\<lparr>prAPI := a\<rparr>))"
| handler: "alive s \<Longrightarrow> \<not> prLost s \<Longrightarrow> mgr_step (worldOf s) w \<Longrightarrow> processStep lib s (onWorld w s)"
| circuit: "alive s \<Longrightarrow> prClock s \<le> t \<Longrightarrow> processStep lib s (onWorld (turn t (EvConnector c) (worldOf s)) s)"
| configure: "alive s \<Longrightarrow> \<not> prLost s \<or> (\<exists>r. v = RoutingSection r) \<Longrightarrow> (\<And>f. v = FrontProxySection f \<Longrightarrow> \<not> frontPanics lib f (prSystem s)) \<Longrightarrow>
     prClock s \<le> t \<Longrightarrow> weTmp w \<noteq> configPath (prSystem s) \<Longrightarrow>
     processStep lib s (s\<lparr>prClock := t, prSystem := snd (update (lib\<lparr>ueNow := t, ueWrite := w\<rparr>) v (prSystem s))\<rparr>)"
| panics: "alive s \<Longrightarrow> \<not> prLost s \<Longrightarrow> frontPanics lib f (prSystem s) \<Longrightarrow> processStep lib s (s\<lparr>prLost := True\<rparr>)"
| edited: "alive s \<Longrightarrow> processStep lib s (s\<lparr>prEdited := True, prSystem := (prSystem s)\<lparr>syFiles := fs\<rparr>\<rparr>)"
| loop_panics: "alive s \<Longrightarrow> Inl err \<in> set (prLoops s) \<Longrightarrow> processStep lib s (s\<lparr>prMain := Crashed\<rparr>)"
| loop_done: "alive s \<Longrightarrow> prEnded s \<Longrightarrow> l \<noteq> QueueStopper \<Longrightarrow> processStep lib s (s\<lparr>prLoops := remove1 (Inr l) (prLoops s)\<rparr>)"
| stopper: "alive s \<Longrightarrow> prEnded s \<Longrightarrow> \<not> prLost s \<Longrightarrow> Inr QueueStopper \<in> set (prLoops s) \<Longrightarrow> prClock s \<le> t \<Longrightarrow>
     processStep lib s (onWorld (turn t EvStop (worldOf s)) (s\<lparr>prLoops := remove1 (Inr QueueStopper) (prLoops s)\<rparr>))"
| wakes: "prMain s = Awaiting \<Longrightarrow> prEnded s \<Longrightarrow> processStep lib s (s\<lparr>prMain := ClosingAPI\<rparr>)"
| shuts_down: "prMain s = ClosingAPI \<Longrightarrow> processStep lib s (s\<lparr>prMain := ClosingClients\<rparr>)"
| snapshot: "prMain s = ClosingClients \<Longrightarrow> \<not> prLost s \<Longrightarrow> prClock s \<le> t \<Longrightarrow>
     processStep lib s (onWorld (turn t (EvCloseClient []) (worldOf s))
       (s\<lparr>prMain := Closing (connectionSnapshot [] (syManager (prSystem s)))\<rparr>))"
| closes: "prMain s = Closing (c # cs) \<Longrightarrow> processStep lib s (s\<lparr>prMain := Closing cs, prClosed := prClosed s @ [c]\<rparr>)"
| returns: "prMain s = Closing [] \<Longrightarrow> processStep lib s (s\<lparr>prMain := Gone\<rparr>)"

inductive_cases processStepE: "processStep lib s t"

text \<open>The process that \<open>main\<close> has started.\<close>

definition processOf :: "time \<Rightarrow> program \<Rightarrow> process" where
  "processOf now p =
     \<lparr>prEnded = False, prSignal = False, prGateway = Binding, prAccepted = [], prDNS = Binding, prAPI = Binding,
      prLoops = pgLoops p, prMain = Awaiting, prClosed = [], prLost = False, prEdited = False,
      prClock = now, prOwner = (\<lambda>_. None), prSystem = pgSystem p\<rparr>"

section \<open>The invariant\<close>

definition fileIsNull :: "'j updateEnv \<Rightarrow> system \<Rightarrow> bool" where
  "fileIsNull lib s \<longleftrightarrow>
     (\<exists>info. get (syFiles s) (configPath s) = Some info \<and> cdDecode (ueCodec lib) (feData info) = Inr None)"

definition runtimeWired :: "'j updateEnv \<Rightarrow> system \<Rightarrow> bool" where
  "runtimeWired lib s \<longleftrightarrow> codec_ok (ueCodec lib) \<and> (\<exists>c. syRuntime s = Some c \<and> rcApplyRouting c = Some SetRouter
     \<and> rcApplyFrontProxy c = Some (\<lambda>t. UpdateFrontProxy t (ueParseURL lib))
     \<and> rcApplyProxyAPI c = Some (UpdateProxyAPI (ueParseURL lib)))"

definition processStart :: "'j updateEnv \<Rightarrow> process \<Rightarrow> bool" where
  "processStart lib s \<longleftrightarrow> \<not> prEnded s \<and> \<not> prSignal s \<and> prGateway s = Binding \<and> prDNS s = Binding \<and> prAPI s = Binding
     \<and> prMain s = Awaiting \<and> \<not> prLost s \<and> world_start (worldOf s) \<and> runtimeWired lib (prSystem s) \<and> \<not> fileIsNull lib (prSystem s)"

definition process_ok :: "'j updateEnv \<Rightarrow> process \<Rightarrow> bool" where
  "process_ok lib s \<longleftrightarrow> world_inv (worldOf s) \<and> runtimeWired lib (prSystem s)
     \<and> (prEnded s \<longleftrightarrow> prSignal s \<or> stopped s)
     \<and> (\<forall>r. prGateway s = Returned r \<or> prDNS s = Returned r \<or> prAPI s = Returned r \<longrightarrow> prEnded s)
     \<and> (prMain s \<notin> {Awaiting, Crashed} \<longrightarrow> prEnded s) \<and> (prMain s = Killed \<longrightarrow> stopped s)
     \<and> (prMain s = Crashed \<longrightarrow> (\<exists>err. Inl err \<in> set (prLoops s)))
     \<and> (fileIsNull lib (prSystem s) \<or> prLost s \<longrightarrow> prEdited s)"

lemma worldOf_simps [simp]:
  "worldOf (onWorld w s) = w" "worldOf (s\<lparr>prEnded := a, prSignal := b\<rparr>) = worldOf s" "worldOf (stopIf r s) = worldOf s"
  "worldOf (s\<lparr>prGateway := g, prAccepted := cs\<rparr>) = worldOf s" "worldOf (s\<lparr>prDNS := d\<rparr>) = worldOf s" "worldOf (s\<lparr>prAPI := d\<rparr>) = worldOf s"
  "worldOf (s\<lparr>prLost := a\<rparr>) = worldOf s" "worldOf (s\<lparr>prMain := m\<rparr>) = worldOf s" "worldOf (s\<lparr>prLoops := ls\<rparr>) = worldOf s"
  "worldOf (s\<lparr>prMain := m, prClosed := cl\<rparr>) = worldOf s"
  "worldOf (s\<lparr>prEdited := a, prSystem := (prSystem s)\<lparr>syFiles := fs\<rparr>\<rparr>) = worldOf s"
  "clock (worldOf s) = prClock s" "mgr (worldOf s) = syManager (prSystem s)"
  by (simp_all add: worldOf_def onWorld_def stopIf_def)

lemma system_views [simp]:
  "runtimeWired lib (sy\<lparr>syManager := m\<rparr>) = runtimeWired lib sy" "runtimeWired lib (sy\<lparr>syFiles := fs\<rparr>) = runtimeWired lib sy"
  "fileIsNull lib (sy\<lparr>syManager := m\<rparr>) = fileIsNull lib sy"
  by (simp_all add: runtimeWired_def fileIsNull_def configPath_def)

lemma turn_step: "clock w \<le> t \<Longrightarrow> allowed e w \<Longrightarrow> mgr_step w (turn t e w)"
  unfolding turn_def by (rule happens)

lemma turn_inv: "world_inv w \<Longrightarrow> clock w \<le> t \<Longrightarrow> allowed e w \<Longrightarrow> world_inv (turn t e w)"
  using manager.inv_step turn_step by blast

section \<open>Updates\<close>

lemma wired_updateEnv:
  "wired (lib\<lparr>ueNow := t, ueWrite := w\<rparr>) s \<longleftrightarrow> (\<exists>c. syRuntime s = Some c \<and> rcPath c \<noteq> weTmp w \<and> rcApplyRouting c = Some SetRouter
     \<and> rcApplyFrontProxy c = Some (\<lambda>t. UpdateFrontProxy t (ueParseURL lib))
     \<and> rcApplyProxyAPI c = Some (UpdateProxyAPI (ueParseURL lib)))"
  by (simp add: wired_def)

lemma update_path: "update lib v s = (e, s') \<Longrightarrow> configPath s' = configPath s"
  by (cases v)
    (auto simp: UpdateRouting_def UpdateFrontProxySection_def UpdateProxyAPISection_def runApply_def configPath_def Let_def
      split: option.splits sum.splits prod.splits if_splits)

text \<open>An update neither unwires the program nor makes the file the value null.\<close>

lemma update_keeps:
  assumes "runtimeWired lib s" and "weTmp w \<noteq> configPath s" and "update (lib\<lparr>ueNow := t, ueWrite := w\<rparr>) v s = (e, s')"
  shows "runtimeWired lib s' \<and> (fileIsNull lib s' \<longrightarrow> fileIsNull lib s)"
proof -
  let ?lib = "lib\<lparr>ueNow := t, ueWrite := w\<rparr>"
  have wired: "wired ?lib s" using assms(1,2) by (auto simp: wired_updateEnv runtimeWired_def configPath_def)
  have codec: "codec_ok (ueCodec ?lib)" using assms(1) by (simp add: runtimeWired_def)
  from wired show ?thesis
  proof (cases rule: updates.run_cases [of ?lib _ v, case_names failed succeeded])
    case (failed err s1)
    have s1: "s1 = s'" using failed(1) assms(3) by simp
    have "s'\<lparr>syFiles := syFiles s\<rparr> = s" and same: "sameBut (weTmp w) (syFiles s) (syFiles s')"
      using failed(2) unfolding s1 by (simp_all add: visible_iff)
    moreover have "get (syFiles s') (configPath s) = get (syFiles s) (configPath s)"
      using sameBut_get [OF same] assms(2) by metis
    ultimately have "s'\<lparr>syFiles := syFiles s\<rparr> = s" "get (syFiles s') (configPath s) = get (syFiles s) (configPath s)" by blast+
    then show ?thesis using assms(1)
      unfolding runtimeWired_def fileIsNull_def configPath_def by (cases s; cases s'; simp)
  next
    case (succeeded s1)
    then have s1: "s1 = s'" using assms(3) by simp
    have "rewritten ?lib (stored v) (configPath s) (syFiles s) (syFiles s')"
      using succeeded(2) codec unfolding s1 by simp
    then have "\<not> fileIsNull lib s'"
      unfolding fileIsNull_def update_path [OF assms(3)] by (auto simp: rewritten_def)
    moreover have "runtimeWired lib s'"
      using succeeded(3) codec unfolding s1 by (auto simp: runtimeWired_def wired_updateEnv)
    ultimately show ?thesis by simp
  qed
qed

text \<open>Seen from the manager, an update is a run of at most two sections.\<close>

lemma silent_step: "c \<le> t \<Longrightarrow> mgr_step \<lparr>clock = c, mgr = m, owner = own\<rparr> \<lparr>clock = t, mgr = m, owner = own\<rparr>"
  using happens [of "\<lparr>clock = c, mgr = m, owner = own\<rparr>" t "EvConnector (connector m)"] by simp

lemma update_sections:
  assumes "runtimeWired lib s" and "update (lib\<lparr>ueNow := t, ueWrite := w\<rparr>) v s = (e, s')" and "c \<le> t"
  shows "mgr_step\<^sup>*\<^sup>* \<lparr>clock = c, mgr = syManager s, owner = own\<rparr> \<lparr>clock = t, mgr = syManager s', owner = own\<rparr>"
proof (cases "syManager s' = syManager s")
  case True
  then show ?thesis using silent_step [OF assms(3)] by (simp add: r_into_rtranclp)
next
  case False
  let ?w = "\<lambda>t m. \<lparr>clock = t, mgr = m, owner = own\<rparr>"
  obtain rc where rc: "syRuntime s = Some rc" "rcApplyFrontProxy rc = Some (\<lambda>t. UpdateFrontProxy t (ueParseURL lib))"
    "rcApplyProxyAPI rc = Some (UpdateProxyAPI (ueParseURL lib))"
    using assms(1) by (auto simp: runtimeWired_def)
  consider (config) cfg where "syManager s' = (syManager s)\<lparr>mCfg := cfg\<rparr>"
    | (front) k cfg where "syManager s' = snd (processQueueAsync t (cancelQueueRetry ((syManager s)\<lparr>connector := k, mCfg := cfg, queueBackoffUntil := 0\<rparr>)))"
  proof (cases v)
    case (RoutingSection r)
    then show ?thesis using assms(2) False by (auto simp: UpdateRouting_def split: option.splits sum.splits prod.splits)
  next
    case (FrontProxySection f)
    then show ?thesis using assms(2) False rc that(2)
      by (auto simp: UpdateFrontProxySection_def runApply_def UpdateFrontProxy_def Let_def
          split: option.splits sum.splits prod.splits if_splits)
  next
    case (ProxyAPISection p)
    then show ?thesis using assms(2) False rc that(1)
      by (auto simp: UpdateProxyAPISection_def runApply_def UpdateProxyAPI_def Let_def
          split: option.splits sum.splits prod.splits if_splits)
  qed
  then show ?thesis
  proof cases
    case config
    then show ?thesis using happens [of "?w c (syManager s)" t "EvConfig cfg"] assms(3) by (simp add: r_into_rtranclp)
  next
    case front
    let ?m = "cancelQueueRetry ((syManager s)\<lparr>connector := k, mCfg := cfg, queueBackoffUntil := 0\<rparr>)"
    have "mgr_step (?w c (syManager s)) (?w t ?m)"
      using happens [of "?w c (syManager s)" t "EvFront k cfg"] assms(3) by simp
    moreover have "mgr_step (?w t ?m) (?w t (syManager s'))"
      using happens [of "?w t ?m" t EvProcessQueue] front by simp
    ultimately show ?thesis by (meson converse_rtranclp_into_rtranclp r_into_rtranclp)
  qed
qed

lemma frontPanics_null: "frontPanics lib f s \<Longrightarrow> fileIsNull lib s"
  by (auto simp: frontPanics_def writePanics_def fileIsNull_def configPath_def)

section \<open>The process as a step system\<close>

lemma step_world:
  assumes "process_ok lib s" and "processStep lib s t"
  shows "mgr_step\<^sup>*\<^sup>* (worldOf s) (worldOf t)"
  using assms(2)
proof (cases rule: processStep.cases)
  case (configure v tt w)
  let ?lib = "lib\<lparr>ueNow := tt, ueWrite := w\<rparr>"
  obtain e sy where u: "update ?lib v (prSystem s) = (e, sy)" by fastforce
  have "runtimeWired lib (prSystem s)" using assms(1) by (simp add: process_ok_def)
  from update_sections [OF this u configure(5), of "prOwner s"] show ?thesis
    by (simp add: configure(1) u worldOf_def)
qed (simp_all add: turn_step r_into_rtranclp)

lemma process_ok_step:
  assumes ok: "process_ok lib s" and step: "processStep lib s t"
  shows "process_ok lib t"
proof -
  have world: "world_inv (worldOf t)"
    using manager.inv_steps [OF step_world [OF assms]] ok by (simp add: process_ok_def)
  from step show ?thesis
  proof (cases rule: processStep.cases)
    case (gateway g cs)
    from gateway(3) ok world gateway(2) show ?thesis
      unfolding gateway(1) by (cases rule: gatewayStep.cases) (auto simp: process_ok_def stopIf_def alive_def stopped_def)
  next
    case (dns d)
    from dns(3) ok world dns(2) show ?thesis
      unfolding dns(1) by (cases rule: dnsStep.cases) (auto simp: process_ok_def stopIf_def alive_def stopped_def)
  next
    case (api a)
    from api(3) ok world api(2) show ?thesis
      unfolding api(1) by (cases rule: apiStep.cases) (auto simp: process_ok_def stopIf_def alive_def stopped_def)
  next
    case (configure v tt w)
    let ?lib = "lib\<lparr>ueNow := tt, ueWrite := w\<rparr>"
    obtain e sy where u: "update ?lib v (prSystem s) = (e, sy)" by fastforce
    have "runtimeWired lib sy \<and> (fileIsNull lib sy \<longrightarrow> fileIsNull lib (prSystem s))"
      using ok by (intro update_keeps [OF _ configure(6) u]) (simp add: process_ok_def)
    then show ?thesis using ok world by (auto simp: process_ok_def stopped_def configure(1) u)
  next
    case (panics f)
    then show ?thesis using ok world frontPanics_null by (auto simp: process_ok_def stopped_def)
  next
    case (loop_done l)
    have "Inl err \<in> set (remove1 (Inr l) (prLoops s)) \<longleftrightarrow> Inl err \<in> set (prLoops s)" for err
      by (induction "prLoops s") auto
    then show ?thesis using ok world loop_done by (simp add: process_ok_def alive_def stopped_def)
  qed (use ok world in \<open>auto simp: process_ok_def onWorld_def alive_def stopped_def\<close>)
qed

interpretation process: step_system "processStart lib" "processStep lib" "process_ok lib" for lib
proof
  show "processStart lib s \<Longrightarrow> process_ok lib s" for s
    by (auto simp: processStart_def process_ok_def stopped_def world_start_inv)
qed (rule process_ok_step)

interpretation runs: step_refinement "processStart lib" "processStep lib" "process_ok lib" "mgr_step\<^sup>*\<^sup>*" worldOf for lib
  by unfold_locales (rule step_world)

section \<open>From the start to the end\<close>

lemma main_starts_process:
  assumes "main env lib unmarshal openDB path fs = (Inr p, db')"
    and "\<And>name db. openDB name = Inr db \<Longrightarrow> db_ok db \<and> inj_on slProxyID (set (ListLeases db))"
    and "codec_ok (ueCodec lib)"
    and "\<And>data raw. cdDecode (ueCodec lib) data = Inr None \<Longrightarrow> unmarshal data = Inr raw \<Longrightarrow> apiClientKey (cfgAPI raw) = []"
  shows "processStart lib (processOf (seNow env) p)"
  using main_Inr [OF assms(1)]
proof cases
  case (1 cfg db m ps fake router)
  have "db_ok db" "inj_on slProxyID (set (ListLeases db))"
    using assms(2) 1(2) by blast+
  from New_start [OF this(1) 1(3) this(2)] have world: "world_start (worldOf (processOf (seNow env) p))"
    by (simp add: worldOf_def processOf_def 1(5))
  have runtime: "runtimeWired lib (pgSystem p)"
    using assms(3) by (simp add: 1(5) runtimeWired_def wiredConfig_def NewRuntimeConfig_def)
  obtain e raw where e: "get fs path = Some e" "unmarshal (feData e) = Inr raw" "config_ok (ueParseURL lib) (setDefaults raw)"
    using 1(1) unfolding Load_Inr_iff by (auto simp: readConfig_def split: option.splits)
  then have "apiClientKey (cfgAPI raw) \<noteq> []" by (simp add: config_ok_def setDefaults_def)
  then have "\<not> fileIsNull lib (pgSystem p)"
    using e assms(4) by (auto simp: 1(5) fileIsNull_def configPath_def wiredConfig_def NewRuntimeConfig_def)
  then show ?thesis using world runtime by (simp add: processStart_def processOf_def)
qed

text \<open>The loops that panic are those that \<open>Start\<close> could not start.\<close>

lemma loops_shrink: "(processStep lib)\<^sup>*\<^sup>* s t \<Longrightarrow> set (prLoops t) \<subseteq> set (prLoops s)"
proof (induction rule: rtranclp_induct)
  case (step u v)
  have "set (prLoops v) \<subseteq> set (prLoops u)"
    using step(2) by (cases rule: processStep.cases)
      (simp_all add: stopIf_def onWorld_def set_remove1_subset)
  with step(3) show ?case by blast
qed simp

lemma Start_panics:
  "Inl err \<in> set (Start m) \<Longrightarrow> hcEnabled (cfgHealthCheck (mCfg m)) \<and> hcInterval (cfgHealthCheck (mCfg m)) \<le> 0"
  by (auto simp: Start_def expiryLoop_def healthLoop_def NewTicker_def split: if_splits)

lemma main_loops:
  assumes "main env lib unmarshal openDB path fs = (Inr p, db')" and "Inl err \<in> set (pgLoops p)"
  shows "hcEnabled (cfgHealthCheck (mCfg (syManager (pgSystem p)))) \<and> hcInterval (cfgHealthCheck (mCfg (syManager (pgSystem p)))) < 0"
  using main_Inr [OF assms(1)]
proof cases
  case (1 cfg db m ps fake router)
  have "mCfg m = cfg" using New_wiring [OF 1(3)] by blast
  moreover have "hcInterval (cfgHealthCheck (setDefaults cfg)) \<noteq> 0" by (simp add: setDefaults_def)
  ultimately show ?thesis
    using Start_panics assms(2) Load_setDefaults [OF 1(1)] by (fastforce simp: 1(5))
qed

text \<open>The main goroutine waits for nothing but the mutex.\<close>

lemma reaches: "processStep lib s u \<Longrightarrow> \<exists>t. (processStep lib)\<^sup>*\<^sup>* u t \<and> prMain t = Gone \<Longrightarrow> \<exists>t. (processStep lib)\<^sup>*\<^sup>* s t \<and> prMain t = Gone"
  by (meson converse_rtranclp_into_rtranclp)

lemma closing_ends:
  assumes "prMain s = Closing cs"
  shows "\<exists>t. (processStep lib)\<^sup>*\<^sup>* s t \<and> prMain t = Gone"
  using assms
proof (induction cs arbitrary: s)
  case Nil
  from returns [OF Nil] show ?case by (rule reaches) auto
next
  case (Cons c cs)
  from closes [OF Cons.prems] show ?case by (rule reaches) (rule Cons.IH, simp)
qed

lemma main_ends:
  assumes "prEnded s" and "prMain s \<notin> {Crashed, Killed}" and "prLost s \<longrightarrow> prMain s \<notin> {Awaiting, ClosingAPI, ClosingClients}"
  shows "\<exists>t. (processStep lib)\<^sup>*\<^sup>* s t \<and> prMain t = Gone"
proof -
  have clients: "\<exists>t. (processStep lib)\<^sup>*\<^sup>* u t \<and> prMain t = Gone" if "prMain u = ClosingClients" "\<not> prLost u" for u
    by (rule reaches [OF snapshot [OF that order_refl]], rule closing_ends) (simp add: onWorld_def)
  have api: "\<exists>t. (processStep lib)\<^sup>*\<^sup>* u t \<and> prMain t = Gone" if "prMain u = ClosingAPI" "\<not> prLost u" for u
    by (rule reaches [OF shuts_down [OF that(1)]], rule clients) (simp_all add: that)
  show ?thesis
  proof (cases "prMain s")
    case Awaiting
    with assms have "\<not> prLost s" by simp
    then show ?thesis
      by (intro reaches [OF wakes [OF Awaiting assms(1)]] api) simp_all
  next
    case (Closing cs)
    then show ?thesis by (rule closing_ends)
  qed (use assms api clients in auto)
qed

text \<open>Once the mutex is lost before the snapshot, \<open>main\<close> never returns.\<close>

definition stuck :: "process \<Rightarrow> bool" where
  "stuck s \<longleftrightarrow> prLost s \<and> prMain s \<in> {Awaiting, ClosingAPI, ClosingClients, Crashed, Killed}"

lemma stuck_stays: "(processStep lib)\<^sup>*\<^sup>* s t \<Longrightarrow> stuck s \<Longrightarrow> stuck t"
proof (induction rule: rtranclp_induct)
  case (step u v)
  from step(2,3) step.prems show ?case
    by (cases rule: processStep.cases) (auto simp: stuck_def stopIf_def onWorld_def)
qed

text \<open>What the snapshot holds is closed when \<open>main\<close> returns.\<close>

definition leftToClose :: "process \<Rightarrow> connID list" where
  "leftToClose s = (case prMain s of Closing cs \<Rightarrow> cs | _ \<Rightarrow> [])"

lemma snapshot_closed:
  assumes "(processStep lib)\<^sup>*\<^sup>* s0 s" and "prMain s0 = Awaiting" and "prMain s = Gone \<or> (\<exists>cs. prMain s = Closing cs)"
  shows "\<exists>u. (processStep lib)\<^sup>*\<^sup>* s0 u \<and> (processStep lib)\<^sup>*\<^sup>* u s \<and> prMain u = ClosingClients
    \<and> set (connectionSnapshot [] (syManager (prSystem u))) \<subseteq> set (prClosed s) \<union> set (leftToClose s)"
  using assms(1,3)
proof (induction rule: rtranclp_induct)
  case base
  then show ?case using assms(2) by simp
next
  case (step u v)
  have keep: ?case if "prMain u = Gone \<or> (\<exists>cs. prMain u = Closing cs)"
    "set (prClosed u) \<union> set (leftToClose u) \<subseteq> set (prClosed v) \<union> set (leftToClose v)"
    using step.IH [OF that(1)] that(2) step(2) by (meson rtranclp.rtrancl_into_rtrancl subset_trans)
  from step(2) show ?case
  proof (cases rule: processStep.cases)
    case (snapshot t)
    then show ?thesis using step(1,2) by (intro exI [of _ u]) (simp add: leftToClose_def onWorld_def)
  qed (use keep step.prems in \<open>auto simp: leftToClose_def stopIf_def onWorld_def alive_def split: mainPhase.splits\<close>)
qed

lemma connectionSnapshot_all: "c \<in> set (registered m ip) \<Longrightarrow> c \<in> set (connectionSnapshot [] m)"
proof -
  assume "c \<in> set (registered m ip)"
  then obtain cs where "get (conns m) ip = Some cs" "c \<in> set cs"
    by (cases "get (conns m) ip") (auto simp: registered_def)
  then have "\<exists>e \<in> set (conns m). c \<in> set (snd e)"
    by (metis map_of_SomeD snd_conv)
  then show ?thesis by (auto simp: connectionSnapshot_def split_beta)
qed

text \<open>The three conclusions about the end, of a process in which the invariant holds.\<close>

lemma failed_iff: "failed r \<longleftrightarrow> (\<exists>err. r = Returned (Some err))"
  by (auto elim: failedE)

lemma stopped_iff: "stopped s \<longleftrightarrow> (\<exists>err. Returned (Some err) \<in> {prGateway s, prDNS s, prAPI s})"
  unfolding stopped_def failed_iff insert_iff empty_iff by metis

lemma main_returns_iff:
  assumes "prEnded s" and "prMain s \<notin> {Crashed, Killed}"
  shows "(\<exists>t. (processStep lib)\<^sup>*\<^sup>* s t \<and> prMain t = Gone) \<longleftrightarrow> \<not> (prLost s \<and> prMain s \<in> {Awaiting, ClosingAPI, ClosingClients})"
proof
  assume "\<exists>t. (processStep lib)\<^sup>*\<^sup>* s t \<and> prMain t = Gone"
  then have "\<not> stuck s" using stuck_stays by (fastforce simp: stuck_def)
  then show "\<not> (prLost s \<and> prMain s \<in> {Awaiting, ClosingAPI, ClosingClients})" by (auto simp: stuck_def)
qed (use assms main_ends in blast)

lemma crashed_loop:
  assumes "process_ok lib s" and "prMain s = Crashed" and "(processStep lib)\<^sup>*\<^sup>* (processOf now p) s"
  shows "\<exists>err. Inl err \<in> set (pgLoops p)"
proof -
  obtain err where "Inl err \<in> set (prLoops s)" using assms(1,2) unfolding process_ok_def by blast
  then show ?thesis using loops_shrink [OF assms(3)] by (auto simp: processOf_def)
qed

lemma returned_closed:
  assumes "(processStep lib)\<^sup>*\<^sup>* s0 s" and "prMain s0 = Awaiting" and "prMain s = Gone"
  shows "\<exists>u. (processStep lib)\<^sup>*\<^sup>* s0 u \<and> (processStep lib)\<^sup>*\<^sup>* u s
    \<and> prMain u = ClosingClients \<and> (\<forall>ip c. c \<in> set (registered (syManager (prSystem u)) ip) \<longrightarrow> c \<in> set (prClosed s))"
  using snapshot_closed [OF assms(1,2)] assms(3) connectionSnapshot_all by (fastforce simp: leftToClose_def)

section \<open>Properties\<close>

text \<open>
  C7. The end of the program, from a successful start on a well-formed database in which no two lease rows
  share a proxy, whatever the interleaving of its servers, handlers, loops, updates, signals and of
  others that write its files. Of the JSON library it is assumed that it reads back what it prints and
  that the value null leaves the configuration empty. The manager is a legal start and then makes runs of
  its sections, updates of the configuration included, so all that is proved of reachable managers holds
  of it. The context ends exactly by a signal or a server that failed, and no server returns before. The
  process crashes in a background loop only when health checks are enabled with a negative interval, and
  a signal kills it only after a server has failed.
  The manager's mutex is lost only when somebody else has written the files: no update of the program's own
  makes the configuration file null. And when the context has ended in a process that neither crashed nor was killed, \<open>main\<close>
  can get to its return if and only if the mutex is not lost before the snapshot of the connections; at
  its return it has closed every connection that was registered at the snapshot.
\<close>

theorem program_ends_when_told:
  assumes "main env lib unmarshal openDB path fs = (Inr p, db')"
    and "\<And>name db. openDB name = Inr db \<Longrightarrow> db_ok db \<and> inj_on slProxyID (set (ListLeases db))"
    and "codec_ok (ueCodec lib)"
    and "\<And>data raw. cdDecode (ueCodec lib) data = Inr None \<Longrightarrow> unmarshal data = Inr raw \<Longrightarrow> apiClientKey (cfgAPI raw) = []"
    and "(processStep lib)\<^sup>*\<^sup>* (processOf (seNow env) p) s"
  shows "world_start (worldOf (processOf (seNow env) p)) \<and> mgr_step\<^sup>*\<^sup>* (worldOf (processOf (seNow env) p)) (worldOf s)
    \<and> (prEnded s \<longleftrightarrow> prSignal s \<or> (\<exists>err. Returned (Some err) \<in> {prGateway s, prDNS s, prAPI s}))
    \<and> (\<forall>r. Returned r \<in> {prGateway s, prDNS s, prAPI s} \<longrightarrow> prEnded s)
    \<and> (prMain s = Crashed \<longrightarrow> hcEnabled (cfgHealthCheck (mCfg (syManager (pgSystem p))))
         \<and> hcInterval (cfgHealthCheck (mCfg (syManager (pgSystem p)))) < 0)
    \<and> (prLost s \<longrightarrow> prEdited s)
    \<and> (prMain s = Killed \<longrightarrow> (\<exists>err. Returned (Some err) \<in> {prGateway s, prDNS s, prAPI s}))
    \<and> (prEnded s \<and> prMain s \<notin> {Crashed, Killed} \<longrightarrow>
         ((\<exists>t. (processStep lib)\<^sup>*\<^sup>* s t \<and> prMain t = Gone) \<longleftrightarrow> \<not> (prLost s \<and> prMain s \<in> {Awaiting, ClosingAPI, ClosingClients})))
    \<and> (prMain s = Gone \<longrightarrow> prEnded s \<and> (\<exists>u. (processStep lib)\<^sup>*\<^sup>* (processOf (seNow env) p) u \<and> (processStep lib)\<^sup>*\<^sup>* u s
         \<and> prMain u = ClosingClients \<and> (\<forall>ip c. c \<in> set (registered (syManager (prSystem u)) ip) \<longrightarrow> c \<in> set (prClosed s))))"
proof -
  let ?p = "processOf (seNow env) p"
  have start: "processStart lib ?p"
    using assms(1-4) by (rule main_starts_process)
  then have ok: "process_ok lib s" using assms(5) by (rule process.inv_reachable)
  have "(mgr_step\<^sup>*\<^sup>*)\<^sup>*\<^sup>* (worldOf ?p) (worldOf s)"
    using assms(5) process.inv_start [OF start] by (rule runs.run_refines)
  then have sections: "mgr_step\<^sup>*\<^sup>* (worldOf ?p) (worldOf s)" by simp
  have why: "prEnded s \<longleftrightarrow> prSignal s \<or> stopped s" and killed: "prMain s = Killed \<longrightarrow> stopped s"
    and lost: "prLost s \<longrightarrow> prEdited s" and gone: "prMain s = Gone \<longrightarrow> prEnded s"
    using ok unfolding process_ok_def by auto
  have returned: "\<forall>r. Returned r \<in> {prGateway s, prDNS s, prAPI s} \<longrightarrow> prEnded s"
    using ok unfolding process_ok_def insert_iff empty_iff by metis
  have crash: "prMain s = Crashed \<longrightarrow> hcEnabled (cfgHealthCheck (mCfg (syManager (pgSystem p))))
      \<and> hcInterval (cfgHealthCheck (mCfg (syManager (pgSystem p)))) < 0"
    using crashed_loop [OF ok _ assms(5)] assms(1) by (metis main_loops)
  have "prMain ?p = Awaiting" by (simp add: processOf_def)
  then show ?thesis
    using start sections why returned crash killed lost gone main_returns_iff [of s lib] returned_closed [OF assms(5)]
    unfolding processStart_def stopped_iff by blast
qed

text \<open>
  The program of the example start, with a JSON library that knows null. A signal arrives, and it ends.
  When somebody has replaced the file by null and the front proxy is updated before, it never does.
\<close>

definition nullLib :: "string updateEnv" where
  "nullLib = (exampleUpdate (\<lambda>_. None))
     \<lparr>ueCodec := exampleCodec\<lparr>cdDecode := (\<lambda>d. if d = ''null'' then Inr None else cdDecode exampleCodec d)\<rparr>\<rparr>"

definition nullRun :: "(goError + program) \<times> DB option" where
  "nullRun = main exampleStart nullLib startUnmarshal (\<lambda>_. Inr emptyDB) ''config'' startFiles"

definition freshProcess :: process where
  "freshProcess = processOf (seNow exampleStart) (projr (fst nullRun))"

definition nullProcess :: process where
  "nullProcess = freshProcess\<lparr>prEdited := True,
     prSystem := (prSystem freshProcess)\<lparr>syFiles := [(''config'', \<lparr>feMode = 420, feData = ''null''\<rparr>)]\<rparr>\<rparr>"

lemma signal_stays: "(processStep lib)\<^sup>*\<^sup>* s t \<Longrightarrow> prSignal s \<Longrightarrow> prSignal t"
proof (induction rule: rtranclp_induct)
  case (step u v)
  from step(2,3) step.prems show ?case
    by (cases rule: processStep.cases) (simp_all add: stopIf_def onWorld_def)
qed

lemma nullProcess_panics: "frontPanics nullLib (cfgFrontProxy exampleConfig) (prSystem nullProcess)"
proof -
  have run: "map_option rcPath (syRuntime (prSystem nullProcess)) = Some ''config''"
    "case syRuntime (prSystem nullProcess) of None \<Rightarrow> False | Some c \<Rightarrow> (case rcApplyFrontProxy c of None \<Rightarrow> False
       | Some apply \<Rightarrow> fst (apply (ueNow nullLib) (cfgFrontProxy exampleConfig) (Some (\<lambda>fs. (None, fs)))
           (syProvider (prSystem nullProcess), syManager (prSystem nullProcess), syFiles (prSystem nullProcess))) = None)"
    by code_simp+
  have "writePanics (ueCodec nullLib) ''config'' (FrontProxySection (cfgFrontProxy exampleConfig)) (syFiles (prSystem nullProcess))"
    by (simp add: writePanics_def nullProcess_def nullLib_def exampleCodec_def)
  with run show ?thesis
    unfolding frontPanics_def by (auto split: option.splits)
qed

lemma program_ends_when_told_witness:
  "(\<exists>t. (processStep nullLib)\<^sup>*\<^sup>* freshProcess t \<and> prSignal t \<and> prMain t = Gone)
   \<and> (\<exists>s. (processStep nullLib)\<^sup>*\<^sup>* freshProcess s \<and> prSignal s \<and> prMain s = Awaiting
        \<and> \<not> (\<exists>t. (processStep nullLib)\<^sup>*\<^sup>* s t \<and> prMain t = Gone))"
proof -
  have "\<not> isl (fst nullRun)" by code_simp
  then have run: "main exampleStart nullLib startUnmarshal (\<lambda>_. Inr emptyDB) ''config'' startFiles
      = (Inr (projr (fst nullRun)), snd nullRun)"
    unfolding nullRun_def [symmetric] by (cases "fst nullRun") (auto simp: isl_def prod_eq_iff)
  have db: "db_ok d \<and> inj_on slProxyID (set (ListLeases d))" if "(\<lambda>_. Inr emptyDB) name = (Inr d :: goError + DB)" for name :: string and d
    using that by (auto simp: emptyDB_def db_ok_def keys_ok_def ListLeases_def)
  have codec: "codec_ok (ueCodec nullLib)"
    by (simp add: codec_ok_def nullLib_def exampleCodec_def finishDocument_def)
  have null: "apiClientKey (cfgAPI raw) = []" if "cdDecode (ueCodec nullLib) data = Inr None" "startUnmarshal data = Inr raw" for data raw
    using that by (auto simp: nullLib_def exampleCodec_def startUnmarshal_def split: if_splits)
  have ends: "(\<exists>t. (processStep nullLib)\<^sup>*\<^sup>* s t \<and> prMain t = Gone) \<longleftrightarrow> \<not> (prLost s \<and> prMain s \<in> {Awaiting, ClosingAPI, ClosingClients})"
    if "(processStep nullLib)\<^sup>*\<^sup>* freshProcess s" "prEnded s \<and> prMain s \<notin> {Crashed, Killed}" for s
    by (rule program_ends_when_told [THEN conjunct2, THEN conjunct2, THEN conjunct2, THEN conjunct2, THEN conjunct2, THEN conjunct2,
          THEN conjunct2, THEN conjunct1, THEN mp])
      (rule run | (rule db, assumption) | rule codec | (rule null; assumption) | rule that(1) [unfolded freshProcess_def] | rule that(2))+
  let ?s = "freshProcess\<lparr>prEnded := True, prSignal := True\<rparr>"
  let ?u = "nullProcess\<lparr>prLost := True\<rparr>" and ?v = "nullProcess\<lparr>prLost := True, prEnded := True, prSignal := True\<rparr>"
  have fresh: "prMain freshProcess = Awaiting" "\<not> prLost freshProcess" "\<not> stopped freshProcess"
    by (simp_all add: freshProcess_def processOf_def stopped_def)
  have s: "(processStep nullLib)\<^sup>*\<^sup>* freshProcess ?s"
    using signal [of freshProcess nullLib] fresh by (simp add: alive_def r_into_rtranclp)
  then obtain t where t: "(processStep nullLib)\<^sup>*\<^sup>* ?s t" "prMain t = Gone"
    using ends [OF s] fresh by auto
  have first: "(processStep nullLib)\<^sup>*\<^sup>* freshProcess t \<and> prSignal t \<and> prMain t = Gone"
    using s t signal_stays [OF t(1)] by simp
  have "processStep nullLib freshProcess nullProcess"
    using edited [of freshProcess nullLib "[(''config'', \<lparr>feMode = 420, feData = ''null''\<rparr>)]"] fresh by (simp add: alive_def nullProcess_def)
  moreover have "processStep nullLib nullProcess ?u"
    using panics [of nullProcess nullLib "cfgFrontProxy exampleConfig"] nullProcess_panics fresh by (simp add: alive_def nullProcess_def)
  moreover have "processStep nullLib ?u ?v"
    using signal [of ?u nullLib] fresh by (simp add: alive_def nullProcess_def stopped_def)
  ultimately have v: "(processStep nullLib)\<^sup>*\<^sup>* freshProcess ?v"
    by (meson converse_rtranclp_into_rtranclp r_into_rtranclp)
  have "prMain nullProcess = Awaiting" using fresh by (simp add: nullProcess_def)
  then have "\<not> (\<exists>t. (processStep nullLib)\<^sup>*\<^sup>* ?v t \<and> prMain t = Gone)"
    using ends [OF v] by simp
  then show ?thesis using first v \<open>prMain nullProcess = Awaiting\<close> by (intro conjI exI [of _ t] exI [of _ ?v]) auto
qed

end
