(* ===== verification/Probe.thy ===== *)
theory Probe
  imports Gateway Health LeaseEngine
begin

text \<open>
  The probe that leases and health checks share, with the connections it opens: \<open>defaultProbeProxy\<close> of
  internal/manager/manager.go, \<open>probeSOCKS\<close> and the use of the connector by \<open>probeExitIP\<close> of
  internal/manager/health.go. It acts on the manager's connector alone, so it may run between sections.
\<close>

section \<open>Probing over the connector\<close>

text \<open>
  The n-th connection of a probe runs in \<open>pbConnect n\<close> on what the other goroutines made of the manager;
  \<open>pbExchange n\<close> is what the exchange over an open tunnel yields, and \<open>pbEnded n\<close> tells whether the
  context of the probe had ended when the outcome was known.
\<close>

record probeEnv =
  pbConnect :: "nat \<Rightarrow> connectEnv"
  pbOthers :: "nat \<Rightarrow> Manager \<Rightarrow> Manager"
  pbExchange :: "nat \<Rightarrow> conn \<Rightarrow> exchange"
  pbEnded :: "nat \<Rightarrow> bool"
  pbParseURL :: "string \<Rightarrow> URL option"
  pbUnmarshal :: "string \<Rightarrow> string table option"

definition probeSOCKS :: "connectEnv \<Rightarrow> Proxy \<Rightarrow> string \<Rightarrow> int \<Rightarrow> Manager \<Rightarrow> goError option \<times> Manager" where
  "probeSOCKS env p host port m =
     (case ConnectProxy env p (JoinHostPort host (Itoa port)) m of
        (Inl err, m) \<Rightarrow> (Some err, m)
      | (Inr _, m) \<Rightarrow> (None, m))"

definition probeURL :: "probeEnv \<Rightarrow> nat \<Rightarrow> Proxy \<Rightarrow> string \<Rightarrow> Manager \<Rightarrow> probeResult \<times> Manager" where
  "probeURL env n p rawURL m =
     (case exitIPTarget (pbParseURL env rawURL) of
        None \<Rightarrow> (Inr [], m)
      | Some host \<Rightarrow>
          (case ConnectProxy (pbConnect env n) p host (pbOthers env n m) of
             (r, m) \<Rightarrow>
               (probeExitIP (pbParseURL env) (pbUnmarshal env) (\<lambda>_. map_sum id (pbExchange env n) r) rawURL, m)))"

fun probeURLs :: "probeEnv \<Rightarrow> nat \<Rightarrow> Proxy \<Rightarrow> string list \<Rightarrow> Manager \<Rightarrow> probeResult \<times> Manager" where
  "probeURLs env n p [] m = (Inr [], m)"
| "probeURLs env n p (rawURL # urls) m =
     (case probeURL env n p rawURL m of
        (Inl err, m) \<Rightarrow>
          if pbEnded env n \<or> FailureScopeOf (Some err) = FailureScopeShared then (Inl err, m)
          else probeURLs env (Suc n) p urls m
      | (Inr ip, m) \<Rightarrow> if ip \<noteq> [] then (Inr ip, m) else probeURLs env (Suc n) p urls m)"

definition probeProxy :: "probeEnv \<Rightarrow> Proxy \<Rightarrow> Manager \<Rightarrow> probeResult \<times> Manager" where
  "probeProxy env p m =
     (let hc = cfgHealthCheck (mCfg m) in
      case probeSOCKS (pbConnect env 0) p (hcTargetHost hc) (hcTargetPort hc) m of
        (Some err, m) \<Rightarrow> (Inl err, m)
      | (None, m) \<Rightarrow> probeURLs env 1 p (exitIPURLs (hcExitIPURL hc)) m)"

section \<open>What a probe does and finds\<close>

definition sameButConnector :: "Manager \<Rightarrow> Manager \<Rightarrow> bool" where
  "sameButConnector m m' \<longleftrightarrow> (\<exists>c. m' = m\<lparr>connector := c\<rparr>)"

lemma sameButConnector_refl [simp]: "sameButConnector m m"
  unfolding sameButConnector_def by (rule exI [of _ "connector m"]) simp

lemma ConnectProxy_same: "ConnectProxy env p target m = (r, m') \<Longrightarrow> sameButConnector m m'"
  by (auto simp: sameButConnector_def ConnectProxy_def split: prod.splits option.splits intro: exI [of _ "connector m"])

lemma sameButConnector_trans: "sameButConnector a b \<Longrightarrow> sameButConnector b c \<Longrightarrow> sameButConnector a c"
  by (auto simp: sameButConnector_def)

definition alone :: "probeEnv \<Rightarrow> bool" where
  "alone env \<longleftrightarrow> (\<forall>n m. pbOthers env n m = m)"

lemma probeURL_same: "alone env \<Longrightarrow> probeURL env n p u m = (r, m') \<Longrightarrow> sameButConnector m m'"
  by (auto simp: probeURL_def alone_def split: option.splits prod.splits dest: ConnectProxy_same)

lemma probeURLs_same: "alone env \<Longrightarrow> probeURLs env n p us m = (r, m') \<Longrightarrow> sameButConnector m m'"
proof (induction env n p us m rule: probeURLs.induct)
  case (2 env n p u us m)
  obtain r1 m1 where first: "probeURL env n p u m = (r1, m1)" by fastforce
  then have "sameButConnector m m1" using probeURL_same 2(3) by blast
  then show ?case
    using 2 first by (auto split: sum.splits if_splits intro: sameButConnector_trans)
qed simp

lemma probeExitIP_valid: "probeExitIP parseURL unmarshal connect u = Inr ip \<Longrightarrow> ip \<noteq> [] \<Longrightarrow> ParseIP ip \<noteq> None"
  by (auto simp: probeExitIP_def abortedBy_def Let_def split: option.splits sum.splits if_splits)

text \<open>Where an address that a probe reports comes from: one service, asked over a tunnel through the proxy.\<close>

definition reportedBy :: "probeEnv \<Rightarrow> Proxy \<Rightarrow> string list \<Rightarrow> string \<Rightarrow> bool" where
  "reportedBy env p urls ip \<longleftrightarrow>
     (\<exists>n rawURL host w k. rawURL \<in> set urls \<and> exitIPTarget (pbParseURL env rawURL) = Some host
        \<and> fst (ConnectProxy (pbConnect env n) p host w) = Inr k
        \<and> probeExitIP (pbParseURL env) (pbUnmarshal env) (\<lambda>_. Inr (pbExchange env n k)) rawURL = Inr ip)"

lemma probeURL_reported:
  assumes "probeURL env n p u m = (Inr ip, m')" and "ip \<noteq> []"
  shows "ParseIP ip \<noteq> None \<and> reportedBy env p [u] ip"
proof -
  obtain host r where host: "exitIPTarget (pbParseURL env u) = Some host"
    and r: "fst (ConnectProxy (pbConnect env n) p host (pbOthers env n m)) = r"
    and ip: "probeExitIP (pbParseURL env) (pbUnmarshal env) (\<lambda>_. map_sum id (pbExchange env n) r) u = Inr ip"
    using assms by (auto simp: probeURL_def split: option.splits prod.splits)
  obtain k where "r = Inr k"
    using host ip by (cases r) (auto simp: probeExitIP_def)
  with host r ip show ?thesis
    using probeExitIP_valid [OF ip assms(2)] by (auto simp: reportedBy_def intro!: exI [of _ n])
qed

lemma reportedBy_more: "reportedBy env p us ip \<Longrightarrow> set us \<subseteq> set vs \<Longrightarrow> reportedBy env p vs ip"
  unfolding reportedBy_def by blast

lemma probeURLs_found:
  "probeURLs env n p us m = (Inr ip, m') \<Longrightarrow> ip \<noteq> [] \<Longrightarrow> ParseIP ip \<noteq> None \<and> reportedBy env p us ip"
proof (induction env n p us m rule: probeURLs.induct)
  case (2 env n p u us m)
  obtain r1 m1 where first: "probeURL env n p u m = (r1, m1)" by fastforce
  show ?case
  proof (cases "r1 = Inr ip")
    case True
    with probeURL_reported [of env n p u m ip m1] first 2(4) reportedBy_more [of env p "[u]" ip "u # us"] show ?thesis by auto
  next
    case False
    with 2 first have "ParseIP ip \<noteq> None \<and> reportedBy env p us ip"
      by (auto split: sum.splits if_splits)
    then show ?thesis using reportedBy_more [of env p us ip "u # us"] by auto
  qed
qed simp

lemma probeURLs_failed:
  "probeURLs env n p us m = (Inl err, m') \<Longrightarrow> (\<exists>k\<ge>n. pbEnded env k) \<or> FailureScopeOf (Some err) = FailureScopeShared"
proof (induction env n p us m rule: probeURLs.induct)
  case (2 env n p u us m)
  obtain r1 m1 where first: "probeURL env n p u m = (r1, m1)" by fastforce
  show ?case
  proof (cases "r1 = Inl err \<and> (pbEnded env n \<or> FailureScopeOf (Some err) = FailureScopeShared)")
    case False
    with 2 first have "(\<exists>k\<ge>Suc n. pbEnded env k) \<or> FailureScopeOf (Some err) = FailureScopeShared"
      by (auto split: sum.splits if_splits)
    then show ?thesis by (meson Suc_leD)
  qed auto
qed simp

lemma probeProxy_same:
  assumes "alone env" and "probeProxy env p m = (r, m')"
  shows "sameButConnector m m'"
  using assms(2) ConnectProxy_same probeURLs_same [OF assms(1)] sameButConnector_trans
  unfolding probeProxy_def probeSOCKS_def Let_def by (fastforce split: prod.splits sum.splits option.splits)

text \<open>So the engine that assigns leases may run on such probes: they are calm and change no answer.\<close>

definition probing :: "(nat \<Rightarrow> probeEnv) \<Rightarrow> leaseEnv \<Rightarrow> leaseEnv" where
  "probing pb env = env\<lparr>leProbe := \<lambda>n p m. probeProxy (pb n) p m\<rparr>"

lemma probing_calm:
  assumes "\<forall>n. alone (pb n)"
  shows "calm ip m (snd (probeProxy (pb n) p m))" "answerBase (snd (probeProxy (pb n) p m)) = answerBase m"
proof -
  obtain c where "snd (probeProxy (pb n) p m) = m\<lparr>connector := c\<rparr>"
    using probeProxy_same [of "pb n" p m] assms by (metis prod.collapse sameButConnector_def)
  then show "calm ip m (snd (probeProxy (pb n) p m))" "answerBase (snd (probeProxy (pb n) p m)) = answerBase m"
    by (simp_all add: calm_def idleSet_def leaseFlag_def answerBase_def)
qed

lemma probing_env:
  assumes "\<forall>n. alone (pb n)"
  shows "(\<forall>n m. calm ip m (leOthers env n m)) \<Longrightarrow> calm_env ip (probing pb env)"
    and "(\<forall>n m. answerBase (leOthers env n m) = answerBase m) \<Longrightarrow> quiet_env (probing pb env)"
  using probing_calm [OF assms] by (simp_all add: calm_env_def quiet_env_def probing_def)

text \<open>
  C23. A probe blames a proxy for its tunnel only. When the tunnel to the configured target opens, the probe
  fails only because its own context has ended or the front is to blame for all proxies, never because
  a service that tells addresses fails; and it succeeds only if the tunnel opened. An address it reports
  is a valid one that such a service told over a tunnel through this very proxy. All that a probe does to
  the manager is what its connections do to the circuit of the front.
\<close>

theorem probe_blames_only_the_tunnel:
  assumes "probeProxy env p m = (r, m')"
  shows "(\<forall>k err. fst (ConnectProxy (pbConnect env 0) p (probeTarget (mCfg m)) m) = Inr k \<longrightarrow> r = Inl err \<longrightarrow>
        (\<exists>n\<ge>1. pbEnded env n) \<or> FailureScopeOf (Some err) = FailureScopeShared)
    \<and> (\<forall>err. fst (ConnectProxy (pbConnect env 0) p (probeTarget (mCfg m)) m) = Inl err \<longrightarrow> r = Inl err)
    \<and> (\<forall>ip. r = Inr ip \<longrightarrow> ip \<noteq> [] \<longrightarrow>
        ParseIP ip \<noteq> None \<and> reportedBy env p (exitIPURLs (hcExitIPURL (cfgHealthCheck (mCfg m)))) ip)
    \<and> (alone env \<longrightarrow> m' = m\<lparr>connector := connector m'\<rparr>)"
proof -
  obtain t m1 where t: "ConnectProxy (pbConnect env 0) p (probeTarget (mCfg m)) m = (t, m1)" by fastforce
  let ?urls = "exitIPURLs (hcExitIPURL (cfgHealthCheck (mCfg m)))"
  have run: "(r, m') = (case t of Inl err \<Rightarrow> (Inl err, m1) | Inr _ \<Rightarrow> probeURLs env 1 p ?urls m1)"
    using assms t by (auto simp: probeProxy_def probeSOCKS_def probeTarget_def Let_def split: sum.splits)
  have "alone env \<longrightarrow> m' = m\<lparr>connector := connector m'\<rparr>"
    using probeProxy_same [OF _ assms] by (auto simp: sameButConnector_def)
  then show ?thesis
    using run t probeURLs_failed [of env 1 p ?urls m1] probeURLs_found [of env 1 p ?urls m1]
    by (cases t) (auto dest: sym)
qed

text \<open>A proxy that opens every tunnel, and a service that tells an address.\<close>

definition openingConnect :: connectEnv where
  "openingConnect = Connector.exampleEnv ([5, 0] @ [5, 0, 0, 1, 0, 0, 0, 0, 0, 0])"

definition exampleProbe :: probeEnv where
  "exampleProbe =
     \<lparr>pbConnect = (\<lambda>_. openingConnect), pbOthers = (\<lambda>_ m. m),
      pbExchange = (\<lambda>_ _. \<lparr>exTLS = True, exWritten = True, exResponse = Some (200, Some ''203.0.113.7''), exCause = None\<rparr>),
      pbEnded = (\<lambda>_. False),
      pbParseURL = (\<lambda>_. Some \<lparr>urlScheme = ''http'', urlOpaque = [], urlUser = None, urlHost = ''ip.test'', urlPath = [], urlRawQuery = [], urlFragment = []\<rparr>),
      pbUnmarshal = (\<lambda>_. None)\<rparr>"

lemma probe_blames_only_the_tunnel_witness:
  "\<exists>m'. probeProxy exampleProbe (examplePoolProxy ''p1'' ''10.0.0.1:1080'') exampleManager = (Inr ''203.0.113.7'', m')
    \<and> m' = exampleManager\<lparr>connector := connector m'\<rparr> \<and> ParseIP ''203.0.113.7'' \<noteq> None"
proof -
  let ?run = "probeProxy exampleProbe (examplePoolProxy ''p1'' ''10.0.0.1:1080'') exampleManager"
  have "fst ?run = Inr ''203.0.113.7''" by code_simp
  then obtain m' where run: "?run = (Inr ''203.0.113.7'', m')" by (metis prod.collapse)
  have "alone exampleProbe" by (simp add: alone_def exampleProbe_def)
  with probe_blames_only_the_tunnel [OF run] run show ?thesis by simp
qed

end
