(* ===== verification/Spec2Isabelle.thy ===== *)
theory Spec2Isabelle
  imports Prelude GoStrings Errors GoNet FakeIP Socks5 Config Routing Connector Store PoolState Pool ProviderApi Dynamic Health PoolInv ManagerMachine LeaseEngine DnsProxy Gateway PoolImport Restart RuntimeConfig Isolation Api DynamicGate HealthRound Subscription Startup StoreFile Durations Lifecycle Probe
begin

text \<open>
  A verification library for sock5gw, a transparent gateway that gives every client of a LAN an
  exclusive SOCKS5 exit.

  \<^bold>\<open>The program.\<close> A client asks the DNS server for a name and is answered with a fake address out of a
  pool that remembers the name. Its connections are redirected to the gateway, which recovers the
  original destination, turns a fake address back into its name, lets the routing rules choose between
  the client's proxy, a direct connection and a refusal, and relays the bytes. The proxy of a client is
  its lease. The manager hands out the leases: one proxy per client and one client per proxy, from a
  pool of static proxies or rented from a provider's API. It checks a proxy before it leases it, queues
  the clients that find none, expires and renews leases, keeps proxies and leases in SQLite, and checks
  the health of all proxies in rounds. Proxies may be reached through a shared front proxy, whose
  failures must not be charged to them: the connector keeps a circuit for the front and classifies each
  error by its phase and scope. An HTTP interface lets clients ask for leases and an administrator
  change proxies and configuration at run time.

  \<^bold>\<open>The theories\<close>, with the code they model under src/internal/:

  \<^item> \<open>Prelude\<close>, \<open>GoStrings\<close>, \<open>GoNet\<close>: Go maps as tables, the parts of strings, strconv, net and net/url
    that the program uses, the locales of maps and of step systems.
  \<^item> \<open>Errors\<close>: outbound/connector.go (phases, scopes, \<open>FailureScopeOf\<close>, causal tokens) and the predicates
    of the manager on errors. \<open>Connector\<close>: the rest of connector.go, the front's circuit and the two
    dialing operations. \<open>Socks5\<close>: outbound/socks5.go and manager/socks5.go, the client of the protocol.
  \<^item> \<open>FakeIP\<close>: manager/fakeip.go. \<open>DnsProxy\<close>: dnsproxy/dnsproxy.go, the handler of a query.
  \<^item> \<open>Config\<close>, \<open>Durations\<close>: config/config.go, defaults and validation, and its 64-bit durations. \<open>Routing\<close>: routing/routing.go.
    \<open>RuntimeConfig\<close>: manager/runtime_config.go, updates of the configuration file and of what is running.
  \<^item> \<open>Store\<close>, \<open>StoreFile\<close>: store/store.go, the tables and transactions of the database, and opening its file.
  \<^item> \<open>PoolState\<close>, \<open>Pool\<close>: manager/manager.go, its records, its helpers under the mutex, and its
    locked sections. \<open>PoolInv\<close>: the invariant of that state. \<open>ManagerMachine\<close>: the sections as events of a
    step system, and the abstract lease table. \<open>LeaseEngine\<close>: the loops \<open>ensureLease\<close> and \<open>processQueues\<close>
    that run the sections. \<open>PoolImport\<close>: imports and batches. \<open>Subscription\<close>: the
    client of subscription downloads. \<open>Restart\<close>: \<open>New\<close> and the views.
  \<^item> \<open>ProviderApi\<close>: providerapi/client.go. \<open>Dynamic\<close>, \<open>DynamicGate\<close>: manager/dynamic.go, rented leases and the
    gate that serialises the requests of one client.
  \<^item> \<open>Health\<close>, \<open>HealthRound\<close>: manager/health.go, the conclusion of a round and its worker pool.
    \<open>Probe\<close>: the probe of one proxy over the connector, shared with the leases.
  \<^item> \<open>Gateway\<close>: gateway/gateway.go and originaldst_linux.go, from an accepted connection to its relay.
  \<^item> \<open>Startup\<close>: cmd/sock5gw/main.go and \<open>Start\<close>, from the configuration file to the serving program, and the updates after it.
    \<open>Lifecycle\<close>: the process that then runs, its servers, loops and shutdown, around the machine of the manager.
  \<^item> \<open>Api\<close>: manager/api.go, all routes of the HTTP interface. \<open>Isolation\<close>: what a request leaves alone.

  Records, operations and their fields keep the names of the code, fields with a prefix of their record;
  a method gets its receiver as its last argument and returns the new one with its results. Theories are
  imported in the order in which the code calls.

  \<^bold>\<open>Conventions.\<close> A section of code that runs under a mutex is one function of the guarded state and reads
  the clock once. A loop that releases the mutex is split into its sections; what the other goroutines do
  between them is an arbitrary change of the state (arguments named Others) or, in the step systems, any
  event. Database statements, contexts, probes, file operations and the peers of a connection fail as their
  arguments say: a function of type \<open>faults\<close> or \<open>dbfaults\<close> names the failing statements, a scripted
  connection names what each read and write does. Errors are values of one datatype, \<open>goError\<close>, and a
  panic of the code is an error value of its own; what the panics that can be reached do to the process and
  to its mutexes is modelled in \<open>Lifecycle\<close>. Contexts are never nil, requests of the standard library are built
  without an error, and white space is that of ASCII. Times and durations are integers of nanoseconds; the
  32-bit arithmetic of the fake pool and the 64-bit product that reads a duration are kept in words, the 64-bit counters of generations are natural
  numbers, for they cannot wrap in the life of a process. Iteration over a Go map runs in the order of the
  table, so that a statement for all tables covers every order.

  \<^bold>\<open>Interfaces.\<close> \<open>go_map\<close> (lookup, insertion and removal; interpreted on the tables), \<open>step_system\<close> (an
  invariant of a step relation; interpreted on the circuit, the manager, the lease table, the gates, the
  worker pool of a round and the process), its extensions \<open>measured_system\<close> (every step decreases a weight;
  interpreted on the worker pool) and \<open>step_refinement\<close> (every step is one of an abstract machine; interpreted
  on the manager over the lease table, the circuit over the breaker, the process over the manager), \<open>normaliser\<close> (idempotent functions; interpreted on the string functions,
  the defaults of the configuration and those of the provider), \<open>name_pool\<close> (names and addresses;
  interpreted on the fake pool), \<open>atomic_op\<close> (a transaction of the database happens or does not; interpreted
  on the operations of the store), \<open>transaction\<close> (a change of file, memory and running system that is
  undone when it fails; interpreted on the updates of the configuration), \<open>conn_accounting\<close> (what the gateway
  needs of registration; interpreted on the manager).

  \<^bold>\<open>What the lemmas show.\<close>

  \<^item> Leases: every reachable state of the manager, whatever the interleaving and the database failures, is
    exclusive in both directions and refines an abstract table of leases; a connection is given its client's
    own proxy; answers are honest about the lease; the retry flag of the queue and its timer agree, and
    waking the queue while someone waits leaves a worker or a timer behind (an expiry by itself does not
    wake it); a restart keeps exactly the leases in force and their proxies, if no two stored leases name the
    same proxy; requests of one client leave the others alone; at most one rental per client is under way.
  \<^item> The front: results of an older generation never change the circuit, the circuit refines a three-state
    breaker, a probe is never lost, an error is charged to the hop that caused it, and a health round charges
    a proxy only with confirmed failures; a probe blames a proxy for its own tunnel only.
  \<^item> Wire formats: the SOCKS5 client succeeds with every compliant server, sends only decodable requests, shows
    credentials only when asked, and hands over a connection with nothing read or left behind.
  \<^item> Names: as long as the pool has room, the address answered for a name leads back to that name
    in the gateway (this theory), and what happens beyond that bound.
  \<^item> The gateway: sessions are balanced, the dialed proxy is the client's own, blocked ports are never dialed.
  \<^item> Configuration and storage: what \<open>Load\<close> accepts, what a rule list decides, transactions that happen as
    a whole or not at all, lines of proxies and rows of leases that are read back as written; what can stop a
    start; after a start and any updates the file, the runtime configuration and what runs agree, so that a
    restart loads them unless the validation of \<open>Load\<close> refuses a routing or front proxy that was stored.
    An import counts every line up to the first one of a mebibyte or more.
  \<^item> The process: what it does to the manager are sections of its machine, so all of the above holds while it
    runs. Its context ends by a signal or a failed server only. Then \<open>main\<close> can return, with every connection
    of its snapshot closed, unless the manager's mutex has been lost to a panic, which takes a file that
    somebody else has set to null. A signal kills the process only after a server has failed, since that failure
    stops the handling of signals; and it crashes only when a negative interval of the health checks makes
    their loop panic.
  \<^item> Access: without the key of its scope a request to a guarded route of the HTTP interface changes nothing
    and learns nothing. The page \<open>GET /admin/\<close> is open and contains the administrator's key, as docs/api.md says,
    so the key protects nothing from those who can load that page.

  \<^bold>\<open>Termination.\<close> All functions are total except the loops \<open>leaseLoop\<close> and \<open>processQueues\<close>, partial functions
  whose value is \<open>None\<close> when they run for ever: \<open>ensureLease\<close> is proved to return when the other goroutines
  are calm, each turn taking one proxy out of the candidates. The interleaving of a health round carries a
  weight that every step decreases. No fuel is used anywhere.

  \<^bold>\<open>Arguments of the model\<close>, for code that is not in the repository: \<open>url.Parse\<close> beyond the forms that
  \<open>GoNet\<close> covers, regular expressions, JSON decoding, SHA-1, the DNS message library, HTTP exchanges, the
  geosite decoder and the file system. No law is assumed of them except where a theorem names one.

  \<^bold>\<open>Not modelled.\<close> Flags, sockets, deadlines and system calls, the SQL engine beneath the statements, the
  reader of the country database, and the idle time of a relay: they hold no decision about leases, or none
  that could be stated without the libraries they wrap. The administrator's page is a document with
  JavaScript that the server sends unchanged.
\<close>

section \<open>From the DNS answer to the name\<close>

lemma originalDst_ip4:
  assumes "length a = 4"
  shows "originalDst (SockAddr a port) = Inr (JoinHostPort (ip4String a) (Itoa (int (be16 port))))"
  using assms by (simp add: originalDst_def makeAddress_def ipString_def To4_def v4InV6Prefix_def)

lemma rewrite_fake:
  assumes "length a = 4" and "Lookup fake a = Some name"
  shows "rewriteFakeIPTarget fake (JoinHostPort (ip4String a) (Itoa (int n))) = JoinHostPort name (Itoa (int n))"
proof -
  have "host_chars (ip4String a)"
    using ip4String_port_chars [OF assms(1)] by (simp add: host_chars_def port_chars_def)
  then have "SplitHostPort (JoinHostPort (ip4String a) (Itoa (int n))) = Inr (ip4String a, Itoa (int n))"
    by (rule SplitHostPort_JoinHostPort) simp
  moreover have "Lookup fake (v4InV6Prefix @ a) = Some name"
    using assms by (simp add: Lookup_def To4_def v4InV6Prefix_def)
  ultimately show ?thesis
    by (simp add: rewriteFakeIPTarget_def ParseIP_ip4String [OF assms(1)])
qed

text \<open>
  C3. The address that the DNS server answers for a name leads back to the name. Whatever requests the
  server handled before and after, as long as the names fit into the pool, a connection that a client
  opens to the answered address is decided by the gateway as a connection to the name (lower case,
  without the root dot) at that port: its routing rules, its blocked ports and the dial see the name,
  never the fake address.
\<close>

theorem dns_answer_reaches_name:
  assumes "NewFakeIPStore (dnsFakeIPCIDR cfg) = Inr s" and "base s AND netMask (netOnes (network s)) = base s"
    and "card (fakeName ` set (concat (map (allocates lib cfg) (earlier @ q # later)))) \<le> capacity s"
    and "addressQuery lib cfg q name"
    and "rrA (last (msgAnswer (fst (dnsHandle lib cfg q (dnsServe lib cfg earlier s))))) = Some a"
    and "gwTransparentProxy (gwCfg g)" and "gcSockopt c = SockAddr a port"
  shows "decide g (dnsServe lib cfg (earlier @ q # later) s) c =
    decideTarget g (remoteIP (gcRemote c)) (JoinHostPort (fakeName name) (Itoa (int (be16 port))))"
proof -
  let ?names = "\<lambda>rs. concat (map (allocates lib cfg) rs)"
  have names: "?names (earlier @ q # later) = ?names earlier @ name # ?names later"
    using assms(4) by (auto simp: addressQuery_def allocates_def)
  let ?fake = "dnsServe lib cfg (earlier @ q # later) s" and ?before = "dnsServe lib cfg earlier s"
  have short: "length (fst (Get ?before name)) = 4"
    using short_answers_getAll [OF short_answers_New [OF assms(1)]] by (simp add: dnsServe_pool short_answers_Get)
  then have a: "a = fst (Get ?before name)"
    using assms(5) by (simp add: dnsHandle_addressQuery [OF assms(4)] To4_def)
  have "Lookup (getAll s (?names earlier @ name # ?names later)) (fst (Get (getAll s (?names earlier)) name)) = Some (fakeName name)"
    using assms(3) by (intro answered_name [OF assms(1,2)]) (simp only: names)
  then have "Lookup ?fake a = Some (fakeName name)"
    by (simp only: a dnsServe_pool names)
  with short show ?thesis
    using assms(6,7) by (simp add: decide_def targetAddress_def originalDst_ip4 a rewrite_fake)
qed

definition smallDNS :: DNSConfig where
  "smallDNS = exampleDNS\<lparr>dnsFakeIPCIDR := ''198.18.0.0/29''\<rparr>"

definition smallPool :: FakeIPStore where
  "smallPool = \<lparr>network = \<lparr>netIP = [198, 18, 0, 0], netOnes = 29, netBits = 32\<rparr>,
     base = 3323068416, poolSize = 8, nextOffset = 1, nameToIP = [], ipToName = []\<rparr>"

definition secondVisitor :: gwClient where
  "secondVisitor = (exampleVisitor 2)\<lparr>gcSockopt := SockAddr [198, 18, 0, 2] [1, 187]\<rparr>"

lemma dns_answer_reaches_name_witness:
  "decide exampleGateway (dnsServe exampleLib smallDNS
       ([exampleQuery 1 ''a.com.''] @ exampleQuery 1 ''B.org.'' # [exampleQuery 1 ''c.net.'']) smallPool) secondVisitor
   = GoProxy ''192.168.1.5'' ''b.org:443''"
proof -
  let ?q = "exampleQuery 1 ''B.org.''" and ?earlier = "[exampleQuery 1 ''a.com.'']" and ?later = "[exampleQuery 1 ''c.net.'']"
  have pool: "NewFakeIPStore (dnsFakeIPCIDR smallDNS) = Inr smallPool" by code_simp
  have aligned: "base smallPool AND netMask (netOnes (network smallPool)) = base smallPool" by code_simp
  have room: "card (fakeName ` set (concat (map (allocates exampleLib smallDNS) (?earlier @ ?q # ?later)))) \<le> capacity smallPool"
    by code_simp
  have answer: "rrA (last (msgAnswer (fst (dnsHandle exampleLib smallDNS ?q (dnsServe exampleLib smallDNS ?earlier smallPool)))))
      = Some [198, 18, 0, 2]" by code_simp
  have decision: "decideTarget exampleGateway (remoteIP (gcRemote secondVisitor)) (JoinHostPort (fakeName ''B.org.'') (Itoa (int (be16 [1, 187]))))
      = GoProxy ''192.168.1.5'' ''b.org:443''" by code_simp
  have query: "addressQuery exampleLib smallDNS ?q ''B.org.''"
    by (simp add: addressQuery_def exampleQuery_def TypeA_def blockedType_def smallDNS_def exampleDNS_def TypeAAAA_def)
  have mode: "gwTransparentProxy (gwCfg exampleGateway)" by code_simp
  have visit: "gcSockopt secondVisitor = SockAddr [198, 18, 0, 2] [1, 187]" by (simp add: secondVisitor_def)
  show ?thesis
    unfolding dns_answer_reaches_name [OF pool aligned room query answer mode visit] by (rule decision)
qed

end
